theory Spec2Isabelle
  imports Main
begin

section \<open>Strings\<close>

text \<open>
  A Python \<^verbatim>\<open>str\<close> is a sequence of Unicode code points and \<^verbatim>\<open>len\<close> counts code
  points. The greeting of \<^verbatim>\<open>ai_summarizer.py\<close> is not ASCII, so a Python string is modelled as
  the list of its code points.
\<close>

type_synonym pystr = "nat list"

definition ascii :: "string \<Rightarrow> pystr" where
  "ascii s = map of_char s"

definition endswith :: "pystr \<Rightarrow> pystr \<Rightarrow> bool" where
  "endswith s suf = (length suf \<le> length s \<and> drop (length s - length suf) s = suf)"

text \<open>
  \<^verbatim>\<open>str.isspace\<close> for one code point (the code points whose bidirectional class is WS, B or S
  or whose category is Zs), and \<^verbatim>\<open>str.strip()\<close>.
\<close>

definition py_isspace :: "nat \<Rightarrow> bool" where
  "py_isspace c = ((9 \<le> c \<and> c \<le> 13) \<or> (28 \<le> c \<and> c \<le> 32) \<or> c = 133 \<or> c = 160
      \<or> c = 5760 \<or> (8192 \<le> c \<and> c \<le> 8202) \<or> c = 8232 \<or> c = 8233 \<or> c = 8239
      \<or> c = 8287 \<or> c = 12288)"

definition strip :: "pystr \<Rightarrow> pystr" where
  "strip s = rev (dropWhile py_isspace (rev (dropWhile py_isspace s)))"

section \<open>Post text assembly (ai\_summarizer.py, twitter\_poster.py)\<close>

text \<open>
  \<^verbatim>\<open>post_text = f"<greeting>{summary_text}"\<close>: the fourteen code points of the greeting
  literal of \<^verbatim>\<open>generate_summary\<close>.
\<close>

definition greeting :: pystr where
  "greeting = [67, 40, 12539, 969, 12539, 32, 41, 12388, 32, 12415, 12435, 12394, 12540, 65281]"

text \<open>
  Lines 85 to 93 of \<^verbatim>\<open>generate_summary\<close>:
  \<^verbatim>\<open>
  post_text = f"<greeting>{summary_text}"
  original_length = len(post_text)
  if original_length > 130:
      post_text = post_text[:277] + "..."
  \<close>
\<close>

definition generate_summary_post_text :: "pystr \<Rightarrow> pystr" where
  "generate_summary_post_text summary_text =
     (let post_text = greeting @ summary_text;
          original_length = length post_text
      in if original_length > 130 then take 277 post_text @ ascii ''...'' else post_text)"

definition arxiv_url :: "pystr \<Rightarrow> pystr" where
  "arxiv_url arxiv_id = ascii ''https://arxiv.org/abs/'' @ arxiv_id"

text \<open>
  Lines 50 to 63 of \<^verbatim>\<open>post_thread\<close>. The identifier is \<open>None\<close> when the summary has no
  \<^verbatim>\<open>arxiv_id\<close> key; \<^verbatim>\<open>if arxiv_id:\<close> is false for \<open>None\<close> and for the empty string.
  \<^verbatim>\<open>
  post_text = summary['post_text']
  if arxiv_id:
      arxiv_url = f"https://arxiv.org/abs/{arxiv_id}"
      if len(post_text) + len(arxiv_url) + 2 <= 280:
          post_text += f"\n\n{arxiv_url}"
  \<close>
\<close>

definition post_thread_text :: "pystr \<Rightarrow> pystr option \<Rightarrow> pystr" where
  "post_thread_text post_text arxiv_id =
     (case arxiv_id of
        None \<Rightarrow> post_text
      | Some a \<Rightarrow>
          if a \<noteq> [] then
            (if length post_text + length (arxiv_url a) + 2 \<le> 280
             then post_text @ [10, 10] @ arxiv_url a
             else post_text)
          else post_text)"

section \<open>Data model\<close>

text \<open>
  An \<^verbatim>\<open>arxiv.Result\<close> as far as the pipeline reads it: the title and the last segment of
  \<^verbatim>\<open>urlparse(paper.pdf_url).path.split('/')\<close>, from which both \<^verbatim>\<open>extract_arxiv_id\<close>
  and \<^verbatim>\<open>download_pdf\<close> derive the identifier.
\<close>

record paper =
  p_title :: pystr
  p_pdf_name :: pystr

text \<open>The dictionary returned by \<^verbatim>\<open>generate_summary\<close>.\<close>

record summary =
  s_title :: pystr
  s_timestamp :: nat
  s_summary :: pystr
  s_post_text :: pystr
  s_arxiv_id :: "pystr option"

record tweet =
  t_id :: nat
  t_text :: pystr

text \<open>
  A \<^verbatim>\<open><stem>_twitter_log.json\<close> file: the keys \<^verbatim>\<open>post_text\<close>, \<^verbatim>\<open>arxiv_id\<close> and
  \<^verbatim>\<open>error\<close> are optional.
\<close>

record log_record =
  l_title :: pystr
  l_timestamp :: nat
  l_summary :: pystr
  l_post_text :: "pystr option"
  l_arxiv_id :: "pystr option"
  l_error :: "pystr option"
  l_tweets :: "tweet list"

text \<open>A \<^verbatim>\<open>processed/<id>.json\<close> marker.\<close>

record marker =
  m_arxiv_id :: pystr
  m_title :: pystr
  m_processed_at :: nat

text \<open>What the pipeline does to the outside world, in order.\<close>

datatype event =
    Sleep nat
  | HttpGet pystr
  | ProcessedCheck pystr
  | ExtractText pystr
  | ApiCall nat
  | ApiWarning bool nat nat
  | CreateTweet pystr

text \<open>
  What stands at a path: the directory structure around \<^verbatim>\<open>./dl\<close> and \<^verbatim>\<open>./pdf\<close> that
  \<^verbatim>\<open>setup_pdf_directory\<close> rearranges.
\<close>

datatype node = Directory | Symlink pystr | RegularFile

text \<open>
  The files the downloader reads and writes. The download directory and the log directory
  differ between keyword sets, so their contents are kept per directory name; the text,
  summary and processed directories are shared. \<open>id_files\<close> are the text files of
  identifiers (one per line) handed between the two programs. The clock counts the seconds
  slept.
\<close>

record world =
  fs :: "pystr \<rightharpoonup> node"
  id_files :: "pystr \<rightharpoonup> pystr set"
  dl_files :: "pystr \<Rightarrow> pystr set"
  text_files :: "pystr \<rightharpoonup> pystr"
  summary_files :: "pystr \<rightharpoonup> summary"
  processed_files :: "pystr \<rightharpoonup> marker"
  log_files :: "pystr \<Rightarrow> (pystr \<rightharpoonup> log_record)"
  clock :: nat
  trace :: "event list"

text \<open>The \<^verbatim>\<open>dirs\<close> dictionary: the two entries that vary between keyword sets.\<close>

record dirs =
  d_dl :: pystr
  d_logs :: pystr

text \<open>
  The external collaborators. \<open>http_ok\<close>: whether \<^verbatim>\<open>requests.get\<close> with
  \<^verbatim>\<open>raise_for_status\<close> succeeds for a paper. \<open>pdf_text\<close>: the text PyPDF2 extracts from a
  PDF file, \<open>None\<close> when it raises. \<open>chat_completion text n\<close>: the outcome of call number
  \<open>n\<close> (from 0) of \<^verbatim>\<open>client.chat.completions.create\<close> for the prompt built from a paper
  text. \<open>create_tweet\<close>: the tweet id, or the text of the exception raised while
  authenticating and posting. \<open>sibling_pdf\<close>: whether a directory under \<^verbatim>\<open>./pdf\<close> holds
  a PDF of that name, and whether copying it works. \<open>arxiv_results\<close>: the search results
  for keywords, the OR flag, the timestamp floor and the result cap, \<open>None\<close> when the
  client raises. \<open>web_generator_returncode\<close>: the exit code of \<^verbatim>\<open>web_generator.py\<close> for
  a log directory and an output directory.
\<close>

datatype api_outcome = ApiOk "pystr option" | ApiError bool

datatype sibling = NoSibling | SiblingCopies | SiblingCopyFails

record env =
  http_ok :: "paper \<Rightarrow> bool"
  pdf_text :: "pystr \<Rightarrow> pystr option"
  chat_completion :: "pystr \<Rightarrow> nat \<Rightarrow> api_outcome"
  create_tweet :: "pystr \<Rightarrow> pystr + nat"
  sibling_pdf :: "pystr \<Rightarrow> sibling"
  arxiv_results :: "pystr list \<Rightarrow> bool \<Rightarrow> nat option \<Rightarrow> int \<Rightarrow> paper list option"
  web_generator_returncode :: "pystr \<Rightarrow> pystr \<Rightarrow> int"

definition sleep :: "nat \<Rightarrow> world \<Rightarrow> world" where
  "sleep n w = w\<lparr>clock := clock w + n, trace := trace w @ [Sleep n]\<rparr>"

definition emit :: "event \<Rightarrow> world \<Rightarrow> world" where
  "emit e w = w\<lparr>trace := trace w @ [e]\<rparr>"

section \<open>The ledger (arxiv\_downloader.py)\<close>

text \<open>
  \<^verbatim>\<open>
  def is_processed(arxiv_id, processed_dir, processed_ids=None):
      if processed_ids and arxiv_id in processed_ids:
          return True
      processed_file = os.path.join(processed_dir, f"{arxiv_id}.json")
      return os.path.exists(processed_file)
  \<close>
\<close>

definition is_processed :: "pystr \<Rightarrow> world \<Rightarrow> pystr set option \<Rightarrow> bool" where
  "is_processed arxiv_id w processed_ids =
     (case processed_ids of
        Some ids \<Rightarrow> if arxiv_id \<in> ids then True else processed_files w arxiv_id \<noteq> None
      | None \<Rightarrow> processed_files w arxiv_id \<noteq> None)"

definition mark_as_processed :: "pystr \<Rightarrow> pystr \<Rightarrow> world \<Rightarrow> world" where
  "mark_as_processed arxiv_id paper_title w =
     w\<lparr>processed_files := (processed_files w)(arxiv_id \<mapsto>
         \<lparr>m_arxiv_id = arxiv_id, m_title = paper_title, m_processed_at = clock w\<rparr>)\<rparr>"

definition extract_arxiv_id :: "paper \<Rightarrow> pystr" where
  "extract_arxiv_id p =
     (let arxiv_id = p_pdf_name p
      in if endswith arxiv_id (ascii ''.pdf'') then take (length arxiv_id - 4) arxiv_id
         else arxiv_id)"

section \<open>Fetch (arxiv\_downloader.py)\<close>

text \<open>
  \<^verbatim>\<open>os.path.splitext(name)[0]\<close> for a name without a path separator: the name is cut at its
  last dot, unless only dots stand before that dot.
\<close>

definition splitext_stem :: "pystr \<Rightarrow> pystr" where
  "splitext_stem name =
     (if 46 \<in> set name then
        (let dotIndex = length name - 1 - length (takeWhile (\<lambda>c. c \<noteq> 46) (rev name))
         in if filter (\<lambda>c. c \<noteq> 46) (take dotIndex name) \<noteq> [] then take dotIndex name
            else name)
      else name)"

definition pdf_filename :: "paper \<Rightarrow> pystr" where
  "pdf_filename p =
     (let arxiv_id = p_pdf_name p
      in if \<not> endswith arxiv_id (ascii ''.pdf'') then arxiv_id @ ascii ''.pdf'' else arxiv_id)"

text \<open>
  \<^verbatim>\<open>download_pdf(paper, download_dir, force_download=False)\<close> returns
  \<^verbatim>\<open>(success, download_path, arxiv_id_without_ext)\<close>; the path is the file name in the
  download directory. One \<^verbatim>\<open>requests.get\<close> at most, inside the \<^verbatim>\<open>try\<close>.
\<close>

definition download_pdf ::
  "env \<Rightarrow> paper \<Rightarrow> pystr \<Rightarrow> bool \<Rightarrow> world \<Rightarrow> (bool \<times> pystr option \<times> pystr) \<times> world" where
  "download_pdf E p download_dir force_download w =
     (let arxiv_id = pdf_filename p;
          arxiv_id_without_ext = splitext_stem arxiv_id
      in if arxiv_id \<in> dl_files w download_dir \<and> \<not> force_download
         then ((True, Some arxiv_id, arxiv_id_without_ext), w)
         else
           (let w1 = emit (HttpGet arxiv_id) (sleep 5 w)
            in if http_ok E p
               then ((True, Some arxiv_id, arxiv_id_without_ext),
                     sleep 2 (w1\<lparr>dl_files := (dl_files w1)
                        (download_dir := insert arxiv_id (dl_files w1 download_dir))\<rparr>))
               else ((False, None, arxiv_id_without_ext), w1)))"

section \<open>Text extraction (pdf\_processor.py)\<close>

text \<open>
  \<^verbatim>\<open>extract_text_from_pdf(pdf_path, output_dir)\<close> returns the path of the text file, or
  \<^verbatim>\<open>None\<close> when reading the PDF raises. The text file is named after the PDF file.
\<close>

definition extract_text_from_pdf :: "env \<Rightarrow> pystr \<Rightarrow> world \<Rightarrow> pystr option \<times> world" where
  "extract_text_from_pdf E pdf_path w =
     (let output_path = splitext_stem pdf_path @ ascii ''.txt'';
          w1 = emit (ExtractText pdf_path) w
      in case pdf_text E pdf_path of
           Some text \<Rightarrow> (Some output_path, w1\<lparr>text_files := (text_files w1)(output_path \<mapsto> text)\<rparr>)
         | None \<Rightarrow> (None, w1))"

section \<open>Summarization with retry (ai\_summarizer.py)\<close>

definition max_retries :: nat where
  "max_retries = 3"

text \<open>
  The \<^verbatim>\<open>while retry_count < max_retries\<close> loop of \<^verbatim>\<open>generate_summary\<close>. The result is
  the content of the response, or \<open>None\<close> when the loop is left by \<^verbatim>\<open>raise\<close> (or without a
  response, which the later read of \<^verbatim>\<open>response\<close> turns into an exception as well).
  \<^verbatim>\<open>
  while retry_count < max_retries:
      try:
          response = client.chat.completions.create(...)
          break
      except Exception as api_error:
          retry_count += 1
          if retry_count >= max_retries:
              raise
          if hasattr(api_error, 'status_code') and api_error.status_code == 429:
              logging.warning(...)
          else:
              logging.warning(...)
          time.sleep(backoff_time)
          backoff_time *= 2
  \<close>
\<close>

function retry_loop ::
  "(nat \<Rightarrow> api_outcome) \<Rightarrow> nat \<Rightarrow> nat \<Rightarrow> world \<Rightarrow> pystr option option \<times> world" where
  "retry_loop api retry_count backoff_time w =
     (if retry_count < max_retries then
        (case api retry_count of
           ApiOk content \<Rightarrow> (Some content, emit (ApiCall (retry_count + 1)) w)
         | ApiError rate_limited \<Rightarrow>
             (if retry_count + 1 \<ge> max_retries then (None, emit (ApiCall (retry_count + 1)) w)
              else retry_loop api (retry_count + 1) (backoff_time * 2)
                     (sleep backoff_time
                        (emit (ApiWarning rate_limited backoff_time (retry_count + 1))
                           (emit (ApiCall (retry_count + 1)) w)))))
      else (None, w))"
  by pat_completeness auto
termination
  by (relation "measure (\<lambda>(api, retry_count, backoff_time, w). max_retries - retry_count)") auto

declare retry_loop.simps [simp del]

definition title_filename :: "pystr \<Rightarrow> pystr" where
  "title_filename paper_title =
     take 50 (map (\<lambda>c. if c = 32 \<or> c = 47 then 95 else c) paper_title) @ ascii ''.json''"

text \<open>
  \<^verbatim>\<open>generate_summary(client, text, prompt_template, output_dir, paper_title, arxiv_id=None)\<close>
  returns the summary dictionary, or \<^verbatim>\<open>None\<close> when anything inside its outer \<^verbatim>\<open>try\<close>
  raises: the re-raised API error, or \<^verbatim>\<open>.strip()\<close> on a response without content.
\<close>

definition generate_summary ::
  "env \<Rightarrow> pystr \<Rightarrow> pystr \<Rightarrow> pystr option \<Rightarrow> world \<Rightarrow> summary option \<times> world" where
  "generate_summary E text paper_title arxiv_id w =
     (let output_path =
            (case arxiv_id of
               Some a \<Rightarrow> if a \<noteq> [] then a @ ascii ''_summary.json'' else title_filename paper_title
             | None \<Rightarrow> title_filename paper_title)
      in case retry_loop (chat_completion E text) 0 2 w of
           (None, w1) \<Rightarrow> (None, w1)
         | (Some None, w1) \<Rightarrow> (None, w1)
         | (Some (Some content), w1) \<Rightarrow>
             (let summary_text = strip content;
                  post_text = generate_summary_post_text summary_text;
                  result = \<lparr>s_title = paper_title, s_timestamp = clock w1,
                            s_summary = summary_text, s_post_text = post_text,
                            s_arxiv_id = arxiv_id\<rparr>
              in (Some result, w1\<lparr>summary_files := (summary_files w1)(output_path \<mapsto> result)\<rparr>)))"

section \<open>Publish (twitter\_poster.py)\<close>

definition write_log :: "pystr \<Rightarrow> pystr \<Rightarrow> log_record \<Rightarrow> world \<Rightarrow> world" where
  "write_log log_dir log_path log_data w =
     w\<lparr>log_files := (log_files w)(log_dir := (log_files w log_dir)(log_path \<mapsto> log_data))\<rparr>"

definition truthy :: "pystr option \<Rightarrow> bool" where
  "truthy s = (case s of None \<Rightarrow> False | Some a \<Rightarrow> a \<noteq> [])"

definition twitter_log_path :: "summary \<Rightarrow> pystr" where
  "twitter_log_path summary =
     (case s_arxiv_id summary of
        Some a \<Rightarrow>
          if a \<noteq> [] then a @ ascii ''_twitter_log.json''
          else take 30 (map (\<lambda>c. if c = 32 then 95 else c) (s_title summary))
                 @ ascii ''_twitter_log.json''
      | None \<Rightarrow>
          take 30 (map (\<lambda>c. if c = 32 then 95 else c) (s_title summary))
            @ ascii ''_twitter_log.json'')"

text \<open>
  \<^verbatim>\<open>post_thread(config, summary, log_dir)\<close>: one \<^verbatim>\<open>create_tweet\<close>, no retry. On success the
  log holds the one posted tweet; when the \<^verbatim>\<open>try\<close> block raises, the \<^verbatim>\<open>except\<close> branch
  writes the error log with \<^verbatim>\<open>"error": str(e)\<close> and returns \<^verbatim>\<open>False\<close>. The constant
  \<^verbatim>\<open>"type": "post"\<close> of a tweet entry is left out.
\<close>

definition post_thread :: "env \<Rightarrow> summary \<Rightarrow> pystr \<Rightarrow> world \<Rightarrow> bool \<times> world" where
  "post_thread E summary log_dir w =
     (let log_path = twitter_log_path summary;
          arxiv_id = s_arxiv_id summary;
          post_text = post_thread_text (s_post_text summary) arxiv_id;
          w1 = emit (CreateTweet post_text) w
      in case create_tweet E post_text of
           Inr tweet_id \<Rightarrow>
             (True, write_log log_dir log_path
                \<lparr>l_title = s_title summary, l_timestamp = clock w1,
                 l_summary = s_summary summary, l_post_text = None,
                 l_arxiv_id = (if truthy arxiv_id then arxiv_id else None),
                 l_error = None,
                 l_tweets = [\<lparr>t_id = tweet_id, t_text = post_text\<rparr>]\<rparr> w1)
         | Inl e \<Rightarrow>
             (False, write_log log_dir log_path
                \<lparr>l_title = s_title summary, l_timestamp = clock w1,
                 l_summary = s_summary summary, l_post_text = None,
                 l_arxiv_id = arxiv_id,
                 l_error = Some e,
                 l_tweets = []\<rparr> w1))"

section \<open>The per-paper pipeline (arxiv\_downloader.py)\<close>

text \<open>
  \<^verbatim>\<open>process_paper(paper, dirs, openai_client, config, force_process, skip_twitter)\<close>, stage by
  stage as in the source. \<^verbatim>\<open>is_processed(arxiv_id, dirs['processed'])\<close> is the left operand
  of \<^verbatim>\<open>and\<close>, so it is evaluated whatever \<^verbatim>\<open>force_process\<close> is. The summary of
  \<^verbatim>\<open>generate_summary\<close> always has a \<^verbatim>\<open>post_text\<close>, so the block under
  \<^verbatim>\<open>if 'post_text' not in summary\<close> never runs. Two branches cannot be reached and stand for
  an exception: a successful download without a path, and a text file missing right after
  it was written.
\<close>

definition process_paper ::
  "env \<Rightarrow> paper \<Rightarrow> dirs \<Rightarrow> bool \<Rightarrow> bool \<Rightarrow> world \<Rightarrow> bool \<times> world" where
  "process_paper E p dirs force_process skip_twitter w =
     (case download_pdf E p (d_dl dirs) False w of
        ((success, pdf_path, arxiv_id), w1) \<Rightarrow>
          if \<not> success then (False, w1)
          else
            (let w2 = emit (ProcessedCheck arxiv_id) w1
             in if is_processed arxiv_id w2 None \<and> \<not> force_process then (True, w2)
                else
                  (case pdf_path of
                     None \<Rightarrow> (False, w2)
                   | Some path \<Rightarrow>
                       (case extract_text_from_pdf E path w2 of
                          (None, w3) \<Rightarrow> (False, w3)
                        | (Some text_path, w3) \<Rightarrow>
                            (case text_files w3 text_path of
                               None \<Rightarrow> (False, w3)
                             | Some paper_text \<Rightarrow>
                                 (case generate_summary E paper_text (p_title p) (Some arxiv_id) w3 of
                                    (None, w4) \<Rightarrow> (False, w4)
                                  | (Some summary0, w4) \<Rightarrow>
                                      (let summary = summary0\<lparr>s_arxiv_id := Some arxiv_id\<rparr>
                                       in if \<not> skip_twitter then
                                            (case post_thread E summary (d_logs dirs) w4 of
                                               (False, w5) \<Rightarrow> (False, w5)
                                             | (True, w5) \<Rightarrow>
                                                 (True, mark_as_processed arxiv_id (p_title p) w5))
                                          else
                                            (let w5 = write_log (d_logs dirs)
                                                   (arxiv_id @ ascii ''_twitter_log.json'')
                                                   \<lparr>l_title = p_title p, l_timestamp = clock w4,
                                                    l_summary = s_summary summary,
                                                    l_post_text = Some (s_post_text summary),
                                                    l_arxiv_id = Some arxiv_id,
                                                    l_error = None,
                                                    l_tweets = []\<rparr> w4
                                             in (True, mark_as_processed arxiv_id (p_title p) w5)))))))))"

section \<open>The batch coordinator (arxiv\_downloader.py, main)\<close>

text \<open>The parsed command line.\<close>

record args =
  a_keywords :: "pystr list"
  a_max_results :: int
  a_use_or :: bool
  a_force_download :: bool
  a_force_process :: bool
  a_test_mode :: bool
  a_skip_twitter :: bool
  a_max_process :: int
  a_log_dir :: "pystr option"
  a_since_timestamp :: "nat option"
  a_last_paper_id :: "pystr option"
  a_processed_ids_file :: "pystr option"
  a_output_processed_ids :: "pystr option"
  a_verbose :: bool

text \<open>Python compares strings code point by code point: \<^verbatim>\<open>a < b\<close>.\<close>

fun pystr_less :: "pystr \<Rightarrow> pystr \<Rightarrow> bool" where
  "pystr_less [] [] = False"
| "pystr_less [] (y # ys) = True"
| "pystr_less (x # xs) [] = False"
| "pystr_less (x # xs) (y # ys) = (x < y \<or> (x = y \<and> pystr_less xs ys))"

text \<open>
  \<^verbatim>\<open>search_arxiv\<close>: the provider's results, then the filter \<^verbatim>\<open>paper_id > last_paper_id\<close>
  when a last identifier is given. \<open>None\<close> when the client raises.
\<close>

definition search_arxiv ::
  "env \<Rightarrow> pystr list \<Rightarrow> int \<Rightarrow> bool \<Rightarrow> nat option \<Rightarrow> pystr option \<Rightarrow> paper list option" where
  "search_arxiv E keywords max_results use_or since_timestamp last_paper_id =
     (case arxiv_results E keywords use_or since_timestamp max_results of
        None \<Rightarrow> None
      | Some results \<Rightarrow>
          (case last_paper_id of
             None \<Rightarrow> Some results
           | Some l \<Rightarrow>
               if l \<noteq> []
               then Some (filter (\<lambda>paper. pystr_less l (extract_arxiv_id paper)) results)
               else Some results))"

text \<open>
  \<^verbatim>\<open>setup_directories\<close>, with \<^verbatim>\<open>dirs['logs']\<close> replaced by \<^verbatim>\<open>--log-dir\<close> when given.
  Writing below \<^verbatim>\<open>./dl\<close> lands in the directory the link points to, so the download
  directory is named by the link's target when \<^verbatim>\<open>./dl\<close> is a symbolic link. Directories
  are created on demand (\<^verbatim>\<open>os.makedirs(..., exist_ok=True)\<close>).
\<close>

definition setup_directories :: "args \<Rightarrow> world \<Rightarrow> dirs" where
  "setup_directories args w =
     \<lparr>d_dl = (case fs w (ascii ''./dl'') of Some (Symlink t) \<Rightarrow> t | _ \<Rightarrow> ascii ''./dl''),
      d_logs = (case a_log_dir args of
                  None \<Rightarrow> ascii ''./logs''
                | Some l \<Rightarrow> if l \<noteq> [] then l else ascii ''./logs'')\<rparr>"

text \<open>
  \<^verbatim>\<open>copy_pdf_if_exists(arxiv_id, target_dir)\<close>: the first directory under \<^verbatim>\<open>./pdf\<close>
  holding the file decides; the search over the directories is the collaborator
  \<open>sibling_pdf\<close>.
\<close>

definition copy_pdf_if_exists :: "env \<Rightarrow> pystr \<Rightarrow> pystr \<Rightarrow> world \<Rightarrow> bool \<times> world" where
  "copy_pdf_if_exists E arxiv_id target_dir w =
     (let pdf_filename = arxiv_id @ ascii ''.pdf''
      in case sibling_pdf E pdf_filename of
           NoSibling \<Rightarrow> (False, w)
         | SiblingCopies \<Rightarrow>
             if pdf_filename \<in> dl_files w target_dir then (True, w)
             else (True, w\<lparr>dl_files := (dl_files w)
                     (target_dir := insert pdf_filename (dl_files w target_dir))\<rparr>)
         | SiblingCopyFails \<Rightarrow>
             if pdf_filename \<in> dl_files w target_dir then (True, w) else (False, w))"

text \<open>
  The selection loop of \<^verbatim>\<open>main\<close>. The accumulator is
  \<^verbatim>\<open>(processed_count, papers_to_process, newly_processed_ids)\<close>: all three are updated when
  a paper is selected, before any paper is processed.
  \<^verbatim>\<open>
  for i, paper in enumerate(papers):
      if processed_count >= max_process_count:
          break
      arxiv_id = extract_arxiv_id(paper)
      if not is_processed(arxiv_id, dirs['processed'], processed_ids) or args.force_process:
          if not copy_pdf_if_exists(arxiv_id, dirs['dl']):
              success, _, _ = download_pdf(paper, dirs['dl'])
              if not success:
                  continue
          papers_to_process.append(paper)
          newly_processed_ids.add(arxiv_id)
          processed_count += 1
  \<close>
\<close>

fun select_papers ::
  "env \<Rightarrow> args \<Rightarrow> dirs \<Rightarrow> pystr set \<Rightarrow> int \<Rightarrow> paper list
     \<Rightarrow> nat \<times> paper list \<times> pystr set \<Rightarrow> world \<Rightarrow> (nat \<times> paper list \<times> pystr set) \<times> world" where
  "select_papers E args dirs processed_ids max_process_count [] acc w = (acc, w)"
| "select_papers E args dirs processed_ids max_process_count (paper # papers)
       (processed_count, papers_to_process, newly_processed_ids) w =
     (if int processed_count \<ge> max_process_count
      then ((processed_count, papers_to_process, newly_processed_ids), w)
      else
        (let arxiv_id = extract_arxiv_id paper
         in if \<not> is_processed arxiv_id w (Some processed_ids) \<or> a_force_process args then
              (case copy_pdf_if_exists E arxiv_id (d_dl dirs) w of
                 (True, w1) \<Rightarrow>
                   select_papers E args dirs processed_ids max_process_count papers
                     (processed_count + 1, papers_to_process @ [paper],
                      insert arxiv_id newly_processed_ids) w1
               | (False, w1) \<Rightarrow>
                   (case download_pdf E paper (d_dl dirs) False w1 of
                      ((success, _, _), w2) \<Rightarrow>
                        if \<not> success then
                          select_papers E args dirs processed_ids max_process_count papers
                            (processed_count, papers_to_process, newly_processed_ids) w2
                        else
                          select_papers E args dirs processed_ids max_process_count papers
                            (processed_count + 1, papers_to_process @ [paper],
                             insert arxiv_id newly_processed_ids) w2))
            else
              select_papers E args dirs processed_ids max_process_count papers
                (processed_count, papers_to_process, newly_processed_ids) w))"

text \<open>
  The processing loop of \<^verbatim>\<open>main\<close> over \<^verbatim>\<open>papers_to_process\<close>, of length \<open>n\<close>, from index
  \<open>i\<close>. It returns the \<^verbatim>\<open>success\<close> value of every \<^verbatim>\<open>process_paper\<close> call; \<^verbatim>\<open>main\<close>
  uses them for a log line only.
  \<^verbatim>\<open>
  for i, paper in enumerate(papers_to_process):
      is_last_paper = (i == len(papers_to_process) - 1)
      current_skip_twitter = args.skip_twitter or not is_last_paper
      success = process_paper(paper, dirs, openai_client, config,
                              args.force_process, current_skip_twitter)
      time.sleep(5)
  \<close>
\<close>

fun process_papers ::
  "env \<Rightarrow> args \<Rightarrow> dirs \<Rightarrow> nat \<Rightarrow> nat \<Rightarrow> paper list \<Rightarrow> world \<Rightarrow> bool list \<times> world" where
  "process_papers E args dirs n i [] w = ([], w)"
| "process_papers E args dirs n i (paper # papers) w =
     (let is_last_paper = (i + 1 = n);
          current_skip_twitter = (a_skip_twitter args \<or> \<not> is_last_paper)
      in case process_paper E paper dirs (a_force_process args) current_skip_twitter w of
           (success, w1) \<Rightarrow>
             (case process_papers E args dirs n (i + 1) papers (sleep 5 w1) of
                (successes, w2) \<Rightarrow> (success # successes, w2)))"

text \<open>
  \<^verbatim>\<open>
  twitter_posted = False
  for i, paper in enumerate(papers_to_process):
      is_last_paper = (i == len(papers_to_process) - 1)
      if not args.skip_twitter and is_last_paper:
          twitter_posted = True
          break
  \<close>
\<close>

fun twitter_posted_loop :: "args \<Rightarrow> nat \<Rightarrow> nat \<Rightarrow> paper list \<Rightarrow> bool" where
  "twitter_posted_loop args n i [] = False"
| "twitter_posted_loop args n i (paper # papers) =
     (if \<not> a_skip_twitter args \<and> i + 1 = n then True
      else twitter_posted_loop args n (i + 1) papers)"

text \<open>
  What a run of \<^verbatim>\<open>main\<close> reports in its last two log lines: the processed count out of
  the number of search results, and whether a tweet was posted.
\<close>

record report =
  rep_processed_count :: nat
  rep_found :: nat
  rep_twitter_posted :: bool

text \<open>
  \<^verbatim>\<open>main\<close>: the exit code of the process and the report, which is absent when the run
  ends early: the search raises (exit code 1), nothing is found or nothing is selected
  (\<^verbatim>\<open>sys.exit(0)\<close>).
\<close>

definition main :: "env \<Rightarrow> args \<Rightarrow> world \<Rightarrow> (int \<times> report option) \<times> world" where
  "main E args w =
     (let dirs = setup_directories args w;
          processed_ids =
            (case a_processed_ids_file args of
               None \<Rightarrow> {}
             | Some f \<Rightarrow> if f \<noteq> [] then (case id_files w f of None \<Rightarrow> {} | Some ids \<Rightarrow> ids) else {})
      in case search_arxiv E (a_keywords args) (a_max_results args) (a_use_or args)
                (a_since_timestamp args) (a_last_paper_id args) of
           None \<Rightarrow> ((1, None), w)
         | Some papers \<Rightarrow>
             if papers = [] then ((0, None), w)
             else
               (let max_process_count = (if a_test_mode args then 1 else a_max_process args)
                in case select_papers E args dirs processed_ids max_process_count papers
                          (0, [], {}) w of
                     ((processed_count, papers_to_process, newly_processed_ids), w1) \<Rightarrow>
                       if papers_to_process = [] then ((0, None), w1)
                       else
                         (case process_papers E args dirs (length papers_to_process) 0
                                 papers_to_process w1 of
                            (successes, w2) \<Rightarrow>
                              (let twitter_posted =
                                     twitter_posted_loop args (length papers_to_process) 0
                                       papers_to_process;
                                   w3 = (case a_output_processed_ids args of
                                           None \<Rightarrow> w2
                                         | Some f \<Rightarrow>
                                             if f \<noteq> [] \<and> newly_processed_ids \<noteq> {}
                                             then w2\<lparr>id_files := (id_files w2)
                                                    (f \<mapsto> newly_processed_ids)\<rparr>
                                             else w2)
                               in ((0, Some \<lparr>rep_processed_count = processed_count,
                                            rep_found = length papers,
                                            rep_twitter_posted = twitter_posted\<rparr>), w3)))))"

section \<open>The download directory link (run\_multiple\_searches.py)\<close>

fun join :: "pystr \<Rightarrow> pystr list \<Rightarrow> pystr" where
  "join sep [] = []"
| "join sep [x] = x"
| "join sep (x # y # ys) = x @ sep @ join sep (y # ys)"

function decimal :: "nat \<Rightarrow> pystr" where
  "decimal n = (if n < 10 then [48 + n] else decimal (n div 10) @ [48 + n mod 10])"
  by pat_completeness auto
termination
  by (relation "measure (\<lambda>n. n)") auto

declare decimal.simps [simp del]

definition generate_pdf_dir_name :: "pystr list \<Rightarrow> nat \<Rightarrow> pystr" where
  "generate_pdf_dir_name keywords now =
     (if keywords \<noteq> [] then ascii ''./pdf/'' @ join (ascii ''_'') keywords
      else ascii ''./pdf/search_'' @ decimal now)"

text \<open>
  Paths are looked up as they are written; a symbolic link is followed to its target, at
  most 40 links deep (the kernel's bound, beyond which the lookup fails).
  \<^verbatim>\<open>os.path.exists\<close> and \<^verbatim>\<open>os.path.isdir\<close> follow links, so both are false for a link
  whose target is missing; \<^verbatim>\<open>os.path.islink\<close> does not follow.
\<close>

fun follow :: "nat \<Rightarrow> (pystr \<rightharpoonup> node) \<Rightarrow> pystr \<Rightarrow> node option" where
  "follow 0 f p = None"
| "follow (Suc n) f p =
     (case f p of
        None \<Rightarrow> None
      | Some (Symlink t) \<Rightarrow> follow n f t
      | Some Directory \<Rightarrow> Some Directory
      | Some RegularFile \<Rightarrow> Some RegularFile)"

definition path_exists :: "(pystr \<rightharpoonup> node) \<Rightarrow> pystr \<Rightarrow> bool" where
  "path_exists f p = (follow 40 f p \<noteq> None)"

definition path_isdir :: "(pystr \<rightharpoonup> node) \<Rightarrow> pystr \<Rightarrow> bool" where
  "path_isdir f p = (follow 40 f p = Some Directory)"

definition path_islink :: "(pystr \<rightharpoonup> node) \<Rightarrow> pystr \<Rightarrow> bool" where
  "path_islink f p = (case f p of Some (Symlink t) \<Rightarrow> True | _ \<Rightarrow> False)"

text \<open>
  \<^verbatim>\<open>os.makedirs(p, exist_ok=True)\<close>: raises (\<open>None\<close>) when something that is not a
  directory stands at \<open>p\<close>. The directories above \<open>p\<close> are taken to exist or to be
  creatable.
\<close>

definition makedirs :: "pystr \<Rightarrow> (pystr \<rightharpoonup> node) \<Rightarrow> (pystr \<rightharpoonup> node) option" where
  "makedirs p f =
     (case f p of
        None \<Rightarrow> Some (f(p \<mapsto> Directory))
      | Some nd \<Rightarrow> if path_isdir f p then Some f else None)"

definition below :: "pystr \<Rightarrow> pystr \<Rightarrow> bool" where
  "below p q = (take (length p + 1) q = p @ ascii ''/'')"

text \<open>
  \<^verbatim>\<open>shutil.rmtree(p)\<close> on a directory removes it and every path below it, and with them
  the files downloaded into it.
\<close>

definition rmtree :: "pystr \<Rightarrow> world \<Rightarrow> world" where
  "rmtree p w =
     w\<lparr>fs := (\<lambda>q. if q = p \<or> below p q then None else fs w q),
       dl_files := (\<lambda>d. if d = p \<or> below p d then {} else dl_files w d)\<rparr>"

text \<open>
  \<^verbatim>\<open>
  def setup_pdf_directory(keywords):
      pdf_dir = generate_pdf_dir_name(keywords)
      os.makedirs(pdf_dir, exist_ok=True)
      dl_dir = "./dl"
      if os.path.exists(dl_dir):
          if os.path.islink(dl_dir):
              os.unlink(dl_dir)
          else:
              shutil.rmtree(dl_dir)
      os.symlink(pdf_dir, dl_dir)
      return pdf_dir
  \<close>
  The result is \<open>None\<close> when a call raises: \<^verbatim>\<open>makedirs\<close> on a non-directory,
  \<^verbatim>\<open>rmtree\<close> on a regular file, \<^verbatim>\<open>os.symlink\<close> when something still stands at
  \<^verbatim>\<open>./dl\<close>.
\<close>

definition setup_pdf_directory :: "pystr list \<Rightarrow> world \<Rightarrow> pystr option \<times> world" where
  "setup_pdf_directory keywords w =
     (let pdf_dir = generate_pdf_dir_name keywords (clock w);
          dl_dir = ascii ''./dl''
      in case makedirs pdf_dir (fs w) of
           None \<Rightarrow> (None, w)
         | Some f1 \<Rightarrow>
             (let w1 = w\<lparr>fs := f1\<rparr>;
                  cleared =
                    (if path_exists f1 dl_dir then
                       (if path_islink f1 dl_dir then Some (w1\<lparr>fs := f1(dl_dir := None)\<rparr>)
                        else if f1 dl_dir = Some RegularFile then None
                        else Some (rmtree dl_dir w1))
                     else Some w1)
              in case cleared of
                   None \<Rightarrow> (None, w1)
                 | Some w2 \<Rightarrow>
                     (case fs w2 dl_dir of
                        None \<Rightarrow> (Some pdf_dir, w2\<lparr>fs := (fs w2)(dl_dir \<mapsto> Symlink pdf_dir)\<rparr>)
                      | Some nd \<Rightarrow> (None, w2))))"

section \<open>The orchestrator (run\_multiple\_searches.py)\<close>

record watermark =
  wm_timestamp :: "nat option"
  wm_last_paper_id :: "pystr option"

record search_set =
  ss_keywords :: "pystr list"
  ss_output_dir :: pystr
  ss_max_results :: int
  ss_tweet_enabled :: bool

record config =
  c_search_sets :: "search_set list"
  c_wait_between_sets :: nat
  c_verbose :: bool
  c_current_only :: bool

text \<open>What the orchestrator does, in order, seen from outside.\<close>

datatype oevent =
    StartSet pystr
  | SkipSet nat
  | SetFailedWarning nat
  | SetRaisedError nat
  | SaveProcessedIds
  | SaveTimestamps

text \<open>
  The orchestrator's world: the files of the downloader, and the two files that carry
  state from one orchestrator pass to the next, \<^verbatim>\<open>last_run_timestamp.json\<close> and
  \<^verbatim>\<open>processed_paper_ids.txt\<close> (\<open>None\<close> when the file does not exist).
\<close>

record ostate =
  files :: world
  timestamp_file :: "(pystr \<rightharpoonup> watermark) option"
  processed_ids_file :: "pystr set option"
  otrace :: "oevent list"

definition safe_keyword :: "pystr \<Rightarrow> pystr" where
  "safe_keyword kw =
     map (\<lambda>c. if (48 \<le> c \<and> c \<le> 57) \<or> (65 \<le> c \<and> c \<le> 90) \<or> (97 \<le> c \<and> c \<le> 122) then c else 95) kw"

text \<open>
  \<^verbatim>\<open>run_search_set(keywords, output_dir, max_results, tweet_enabled, timestamps,
  processed_ids, search_set_id)\<close>. The dictionary \<^verbatim>\<open>timestamps\<close> is updated in place, so the
  model returns it. The result is \<open>None\<close> when the function raises, and otherwise the pair
  \<^verbatim>\<open>(success, new_processed_ids)\<close>. The subprocess \<^verbatim>\<open>arxiv_downloader.py\<close> is a run of
  \<open>main\<close> with the command line built here; \<^verbatim>\<open>current_timestamp\<close> is read before it runs.
\<close>

definition run_search_set ::
  "env \<Rightarrow> config \<Rightarrow> pystr list \<Rightarrow> pystr \<Rightarrow> int \<Rightarrow> bool \<Rightarrow> (pystr \<rightharpoonup> watermark) \<Rightarrow> pystr set
     \<Rightarrow> pystr \<Rightarrow> world \<Rightarrow> ((bool \<times> pystr set) option \<times> (pystr \<rightharpoonup> watermark)) \<times> world" where
  "run_search_set E cfg keywords output_dir max_results tweet_enabled timestamps processed_ids
       search_set_id w =
     (case setup_pdf_directory keywords w of
        (None, w1) \<Rightarrow> ((None, timestamps), w1)
      | (Some pdf_dir, w1) \<Rightarrow>
          (let log_dir = ascii ''./logs/'' @ join (ascii ''_'') (map safe_keyword keywords);
               since_timestamp =
                 (case timestamps search_set_id of None \<Rightarrow> None | Some wm \<Rightarrow> wm_timestamp wm);
               last_paper_id =
                 (case timestamps search_set_id of None \<Rightarrow> None | Some wm \<Rightarrow> wm_last_paper_id wm);
               current_timestamp = clock w1;
               processed_ids_file =
                 (if processed_ids \<noteq> {}
                  then Some (ascii ''./temp_processed_ids_'' @ search_set_id @ ascii ''.txt'')
                  else None);
               w2 = (case processed_ids_file of
                       None \<Rightarrow> w1
                     | Some f \<Rightarrow> w1\<lparr>id_files := (id_files w1)(f \<mapsto> processed_ids)\<rparr>);
               new_processed_ids_file =
                 ascii ''./new_processed_ids_'' @ search_set_id @ ascii ''.txt'';
               cmd = \<lparr>a_keywords = keywords, a_max_results = max_results, a_use_or = False,
                      a_force_download = False, a_force_process = False, a_test_mode = False,
                      a_skip_twitter = (\<not> tweet_enabled), a_max_process = 9999,
                      a_log_dir = Some log_dir,
                      a_since_timestamp = since_timestamp,
                      a_last_paper_id = (if truthy last_paper_id then last_paper_id else None),
                      a_processed_ids_file = processed_ids_file,
                      a_output_processed_ids = Some new_processed_ids_file,
                      a_verbose = c_verbose cfg\<rparr>
           in case main E cmd w2 of
                ((returncode, rep), w3) \<Rightarrow>
                  (let w4 = (case processed_ids_file of
                               None \<Rightarrow> w3
                             | Some f \<Rightarrow> w3\<lparr>id_files := (id_files w3)(f := None)\<rparr>)
                   in if returncode \<noteq> 0 then ((Some (False, {}), timestamps), w4)
                      else
                        (let new_processed_ids =
                               (case id_files w4 new_processed_ids_file of
                                  None \<Rightarrow> {}
                                | Some ids \<Rightarrow> ids);
                             w5 = w4\<lparr>id_files := (id_files w4)(new_processed_ids_file := None)\<rparr>;
                             timestamps' = timestamps(search_set_id \<mapsto>
                               \<lparr>wm_timestamp = Some current_timestamp, wm_last_paper_id = None\<rparr>)
                         in if web_generator_returncode E log_dir output_dir \<noteq> 0
                            then ((Some (False, new_processed_ids), timestamps'), w5)
                            else ((Some (True, new_processed_ids), timestamps'), w5)))))"

text \<open>
  The loop of the orchestrator's \<^verbatim>\<open>main\<close> over \<^verbatim>\<open>search_sets\<close>, of length \<open>n\<close>, from
  index \<open>i\<close>. The loop state is \<^verbatim>\<open>timestamps\<close> and \<^verbatim>\<open>all_new_processed_ids\<close>.
  \<^verbatim>\<open>
  for i, search_set in enumerate(search_sets):
      ...
      if not keywords or not output_dir:
          logging.warning(...)
          continue
      search_set_id = '_'.join(keywords)
      try:
          success, new_processed_ids = run_search_set(keywords, output_dir, max_results,
              tweet_enabled, timestamps, processed_ids, search_set_id)
          all_new_processed_ids.update(new_processed_ids)
          if not success:
              logging.warning(...)
      except Exception as e:
          logging.error(...)
      if i < len(search_sets) - 1:
          time.sleep(wait_time)
  \<close>
\<close>

definition olog :: "oevent \<Rightarrow> ostate \<Rightarrow> ostate" where
  "olog e st = st\<lparr>otrace := otrace st @ [e]\<rparr>"

text \<open>
  Besides the loop state, the function returns what each call of \<^verbatim>\<open>run_search_set\<close> gave,
  with the number of its search set: \<open>None\<close> for an exception, otherwise \<^verbatim>\<open>success\<close>.
  The source keeps these only for the duration of one iteration.
\<close>

fun run_all_sets ::
  "env \<Rightarrow> config \<Rightarrow> pystr set \<Rightarrow> nat \<Rightarrow> nat \<Rightarrow> search_set list
     \<Rightarrow> (pystr \<rightharpoonup> watermark) \<times> pystr set \<times> (nat \<times> bool option) list \<Rightarrow> ostate
     \<Rightarrow> ((pystr \<rightharpoonup> watermark) \<times> pystr set \<times> (nat \<times> bool option) list) \<times> ostate" where
  "run_all_sets E cfg processed_ids n i [] acc st = (acc, st)"
| "run_all_sets E cfg processed_ids n i (search_set # rest)
       (timestamps, all_new_processed_ids, results) st =
     (if ss_keywords search_set = [] \<or> ss_output_dir search_set = []
      then run_all_sets E cfg processed_ids n (i + 1) rest
             (timestamps, all_new_processed_ids, results) (olog (SkipSet (i + 1)) st)
      else
        (let search_set_id = join (ascii ''_'') (ss_keywords search_set);
             st1 = olog (StartSet search_set_id) st
         in case run_search_set E cfg (ss_keywords search_set) (ss_output_dir search_set)
                   (ss_max_results search_set) (ss_tweet_enabled search_set) timestamps
                   processed_ids search_set_id (files st1) of
              ((r, timestamps'), w1) \<Rightarrow>
                (let st2 = st1\<lparr>files := w1\<rparr>;
                     all_new' = (case r of
                                   None \<Rightarrow> all_new_processed_ids
                                 | Some (success, new_processed_ids) \<Rightarrow>
                                     all_new_processed_ids \<union> new_processed_ids);
                     st3 = (case r of
                              None \<Rightarrow> olog (SetRaisedError (i + 1)) st2
                            | Some (success, new_processed_ids) \<Rightarrow>
                                if \<not> success then olog (SetFailedWarning (i + 1)) st2 else st2);
                     st4 = (if i + 1 < n
                            then st3\<lparr>files := sleep (c_wait_between_sets cfg) (files st3)\<rparr>
                            else st3)
                 in run_all_sets E cfg processed_ids n (i + 1) rest
                      (timestamps', all_new', results @ [(i + 1, map_option fst r)]) st4)))"

text \<open>
  The orchestrator's \<^verbatim>\<open>main\<close>, given the loaded configuration (\<open>None\<close> when
  \<^verbatim>\<open>load_config\<close> fails). The two files are written after the loop and nowhere else.
\<close>

definition orchestrator_main :: "env \<Rightarrow> config option \<Rightarrow> ostate \<Rightarrow> ostate" where
  "orchestrator_main E cfg st =
     (case cfg of
        None \<Rightarrow> st
      | Some c \<Rightarrow>
          (let timestamps = (case timestamp_file st of None \<Rightarrow> Map.empty | Some t \<Rightarrow> t);
               processed_ids = (case processed_ids_file st of None \<Rightarrow> {} | Some ids \<Rightarrow> ids);
               search_sets = c_search_sets c
           in if search_sets = [] then st
              else
                (case run_all_sets E c processed_ids (length search_sets) 0 search_sets
                        (timestamps, {}, []) st of
                   ((timestamps', all_new_processed_ids, results), st1) \<Rightarrow>
                     (let st2 = olog SaveProcessedIds
                                  (st1\<lparr>processed_ids_file :=
                                          Some (processed_ids \<union> all_new_processed_ids)\<rparr>);
                          st3 = olog SaveTimestamps (st2\<lparr>timestamp_file := Some timestamps'\<rparr>)
                      in st3))))"

section \<open>The archive renderer's reading of a log record (web\_generator.py)\<close>

record paper_info =
  pi_title :: pystr
  pi_timestamp :: nat
  pi_arxiv_id :: "pystr option"
  pi_summary :: pystr
  pi_failed :: bool
  pi_error :: "pystr option"
  pi_tweet_id :: "nat option"

text \<open>
  \<^verbatim>\<open>process_log_data\<close> for a record written by this pipeline: every such record has a
  timestamp and a summary, so the early \<^verbatim>\<open>return None\<close> and the fallbacks for old log
  formats are never taken. A record with an \<^verbatim>\<open>error\<close> key is shown as failed, with the
  error text; otherwise as a success, with the id of its first tweet. The recovery of a
  missing arXiv id from the tweet text by a regular expression is not modelled.
\<close>

definition process_log_data :: "log_record \<Rightarrow> paper_info" where
  "process_log_data log_data =
     \<lparr>pi_title = l_title log_data,
      pi_timestamp = l_timestamp log_data,
      pi_arxiv_id = l_arxiv_id log_data,
      pi_summary = l_summary log_data,
      pi_failed = (l_error log_data \<noteq> None),
      pi_error = l_error log_data,
      pi_tweet_id = (if l_error log_data = None
                     then (case l_tweets log_data of [] \<Rightarrow> None | t # ts \<Rightarrow> Some (t_id t))
                     else None)\<rparr>"

text \<open>
  What \<^verbatim>\<open>generate_webpage\<close> reads for one file name of a log directory:
  \<^verbatim>\<open>glob.glob(os.path.join(log_dir, "*_twitter_log.json"))\<close>, then
  \<^verbatim>\<open>classify_logs_by_date\<close> loads each file and passes it to \<^verbatim>\<open>process_log_data\<close>.
\<close>

definition renderer_entry :: "world \<Rightarrow> pystr \<Rightarrow> pystr \<Rightarrow> paper_info option" where
  "renderer_entry w log_dir name =
     (if endswith name (ascii ''_twitter_log.json'')
      then map_option process_log_data (log_files w log_dir name)
      else None)"

section \<open>Reading a trace\<close>

text \<open>The events a step added to the trace.\<close>

definition new_events :: "world \<Rightarrow> world \<Rightarrow> event list" where
  "new_events w w' = drop (length (trace w)) (trace w')"

fun is_api_call :: "event \<Rightarrow> bool" where
  "is_api_call (ApiCall n) = True"
| "is_api_call e = False"

fun is_http_get :: "event \<Rightarrow> bool" where
  "is_http_get (HttpGet f) = True"
| "is_http_get e = False"

fun is_extract :: "event \<Rightarrow> bool" where
  "is_extract (ExtractText f) = True"
| "is_extract e = False"

fun is_create_tweet :: "event \<Rightarrow> bool" where
  "is_create_tweet (CreateTweet t) = True"
| "is_create_tweet e = False"

fun is_processed_check :: "event \<Rightarrow> bool" where
  "is_processed_check (ProcessedCheck a) = True"
| "is_processed_check e = False"

fun sleeps :: "event list \<Rightarrow> nat list" where
  "sleeps [] = []"
| "sleeps (Sleep n # es) = n # sleeps es"
| "sleeps (e # es) = sleeps es"

text \<open>The same API outcome without its rate-limit signal.\<close>

fun without_signal :: "api_outcome \<Rightarrow> api_outcome" where
  "without_signal (ApiOk c) = ApiOk c"
| "without_signal (ApiError rate_limited) = ApiError False"

fun event_without_signal :: "event \<Rightarrow> event" where
  "event_without_signal (ApiWarning rate_limited backoff_time retry_count) =
     ApiWarning False backoff_time retry_count"
| "event_without_signal e = e"

text \<open>A later world whose trace extends the trace of an earlier one.\<close>

definition grows :: "world \<Rightarrow> world \<Rightarrow> bool" where
  "grows w w' = (take (length (trace w)) (trace w') = trace w)"

text \<open>The same for the orchestrator: the events a step added, and what they show.\<close>

definition new_oevents :: "ostate \<Rightarrow> ostate \<Rightarrow> oevent list" where
  "new_oevents st st' = drop (length (otrace st)) (otrace st')"

definition set_id :: "search_set \<Rightarrow> pystr" where
  "set_id s = join (ascii ''_'') (ss_keywords s)"

definition valid_set :: "search_set \<Rightarrow> bool" where
  "valid_set s = (ss_keywords s \<noteq> [] \<and> ss_output_dir s \<noteq> [])"

fun started :: "oevent list \<Rightarrow> pystr list" where
  "started [] = []"
| "started (StartSet x # es) = x # started es"
| "started (e # es) = started es"

fun is_save :: "oevent \<Rightarrow> bool" where
  "is_save SaveProcessedIds = True"
| "is_save SaveTimestamps = True"
| "is_save e = False"

fun is_failure_log :: "oevent \<Rightarrow> bool" where
  "is_failure_log (SetFailedWarning k) = True"
| "is_failure_log (SetRaisedError k) = True"
| "is_failure_log e = False"

text \<open>The log line that the outcome of search set number \<open>k\<close> calls for.\<close>

fun failure_log :: "nat \<times> bool option \<Rightarrow> oevent list" where
  "failure_log (k, None) = [SetRaisedError k]"
| "failure_log (k, Some False) = [SetFailedWarning k]"
| "failure_log (k, Some True) = []"

text \<open>The numbers, counted from \<open>i + 1\<close>, of the search sets that are run.\<close>

fun valid_numbers :: "nat \<Rightarrow> search_set list \<Rightarrow> nat list" where
  "valid_numbers i [] = []"
| "valid_numbers i (s # rest) =
     (if valid_set s then (i + 1) # valid_numbers (i + 1) rest else valid_numbers (i + 1) rest)"

text \<open>
  The pass as the specification words it: every keyword set that has keywords and an output
  directory is run once, in the configured order, whatever the run before it returned or
  raised, and each run begins in the world that the run before it left, after the wait.
  The function returns the outcome of every run with the number of its keyword set
  (\<open>None\<close> for an exception, otherwise \<^verbatim>\<open>success\<close>), the watermark map and the world
  after the last run. It is compared with the loop of the code in the theorems below.
\<close>

fun runs_in_turn ::
  "env \<Rightarrow> config \<Rightarrow> pystr set \<Rightarrow> nat \<Rightarrow> nat \<Rightarrow> search_set list \<Rightarrow> (pystr \<rightharpoonup> watermark) \<Rightarrow> world
     \<Rightarrow> (nat \<times> bool option) list \<times> (pystr \<rightharpoonup> watermark) \<times> world" where
  "runs_in_turn E cfg processed_ids n i [] timestamps w = ([], timestamps, w)"
| "runs_in_turn E cfg processed_ids n i (s # rest) timestamps w =
     (if \<not> valid_set s then runs_in_turn E cfg processed_ids n (i + 1) rest timestamps w
      else
        (case run_search_set E cfg (ss_keywords s) (ss_output_dir s) (ss_max_results s)
                (ss_tweet_enabled s) timestamps processed_ids (set_id s) w of
           ((r, timestamps'), w1) \<Rightarrow>
             (case runs_in_turn E cfg processed_ids n (i + 1) rest timestamps'
                     (if i + 1 < n then sleep (c_wait_between_sets cfg) w1 else w1) of
                (outcomes, timestamps_end, w_end) \<Rightarrow>
                  ((i + 1, map_option fst r) # outcomes, timestamps_end, w_end))))"

section \<open>Auxiliary notions for the proofs\<close>

text \<open>
  The content of the first successful response among the three attempts, and the events
  of the retry loop started with backoff \<open>b\<close>, both read off the outcomes of the calls.
\<close>

definition first_success :: "(nat \<Rightarrow> api_outcome) \<Rightarrow> pystr option option" where
  "first_success api =
     (case api 0 of
        ApiOk c \<Rightarrow> Some c
      | ApiError r0 \<Rightarrow>
          (case api 1 of
             ApiOk c \<Rightarrow> Some c
           | ApiError r1 \<Rightarrow> (case api 2 of ApiOk c \<Rightarrow> Some c | ApiError r2 \<Rightarrow> None)))"

definition api_events :: "(nat \<Rightarrow> api_outcome) \<Rightarrow> nat \<Rightarrow> event list" where
  "api_events api b =
     (case api 0 of
        ApiOk c \<Rightarrow> [ApiCall 1]
      | ApiError r0 \<Rightarrow>
          [ApiCall 1, ApiWarning r0 b 1, Sleep b, ApiCall 2] @
          (case api 1 of
             ApiOk c \<Rightarrow> []
           | ApiError r1 \<Rightarrow> [ApiWarning r1 (b * 2) 2, Sleep (b * 2), ApiCall 3]))"

text \<open>The events of \<^verbatim>\<open>download_pdf\<close>.\<close>

definition download_events :: "env \<Rightarrow> paper \<Rightarrow> pystr \<Rightarrow> world \<Rightarrow> event list" where
  "download_events E p download_dir w =
     (if pdf_filename p \<in> dl_files w download_dir then []
      else if http_ok E p then [Sleep 5, HttpGet (pdf_filename p), Sleep 2]
      else [Sleep 5, HttpGet (pdf_filename p)])"

text \<open>The summary dictionary and the file names of \<^verbatim>\<open>generate_summary\<close> and \<^verbatim>\<open>post_thread\<close>.\<close>

definition summary_of :: "pystr \<Rightarrow> pystr \<Rightarrow> pystr option \<Rightarrow> nat \<Rightarrow> summary" where
  "summary_of content paper_title arxiv_id now =
     \<lparr>s_title = paper_title, s_timestamp = now, s_summary = strip content,
      s_post_text = generate_summary_post_text (strip content), s_arxiv_id = arxiv_id\<rparr>"

definition summary_path :: "pystr \<Rightarrow> pystr option \<Rightarrow> pystr" where
  "summary_path paper_title arxiv_id =
     (case arxiv_id of
        Some a \<Rightarrow> if a \<noteq> [] then a @ ascii ''_summary.json'' else title_filename paper_title
      | None \<Rightarrow> title_filename paper_title)"

definition log_name :: "pystr \<Rightarrow> pystr \<Rightarrow> pystr" where
  "log_name a paper_title =
     (if a \<noteq> [] then a @ ascii ''_twitter_log.json''
      else take 30 (map (\<lambda>c. if c = 32 then 95 else c) paper_title) @ ascii ''_twitter_log.json'')"

text \<open>
  The processing loop with publish skipped for every paper, and the condition under which
  a paper gets as far as the publish stage: it is fetched, it is not skipped as processed,
  its text is extracted and one of the three summarization attempts returns content.
\<close>

fun process_silently :: "env \<Rightarrow> bool \<Rightarrow> dirs \<Rightarrow> paper list \<Rightarrow> world \<Rightarrow> bool list \<times> world" where
  "process_silently E fp dirs [] w = ([], w)"
| "process_silently E fp dirs (paper # papers) w =
     (case process_paper E paper dirs fp True w of
        (success, w1) \<Rightarrow>
          (case process_silently E fp dirs papers (sleep 5 w1) of
             (successes, w2) \<Rightarrow> (success # successes, w2)))"

definition reaches_publish :: "env \<Rightarrow> paper \<Rightarrow> dirs \<Rightarrow> bool \<Rightarrow> world \<Rightarrow> bool" where
  "reaches_publish E p dirs fp w =
     ((pdf_filename p \<in> dl_files w (d_dl dirs) \<or> http_ok E p)
      \<and> (processed_files w (splitext_stem (pdf_filename p)) = None \<or> fp)
      \<and> (case pdf_text E (pdf_filename p) of
            None \<Rightarrow> False
          | Some body \<Rightarrow>
              (case first_success (chat_completion E body) of
                 Some (Some content) \<Rightarrow> True
               | _ \<Rightarrow> False)))"

section \<open>Concrete inputs\<close>

text \<open>
  An empty working directory, a paper as the search returns it (the last segment of its PDF
  URL carries no extension), and collaborators that all succeed. The theorems are
  instantiated at these, with single collaborators replaced by failing ones.
\<close>

definition empty_world :: world where
  "empty_world =
     \<lparr>fs = Map.empty, id_files = Map.empty, dl_files = (\<lambda>d. {}), text_files = Map.empty,
      summary_files = Map.empty, processed_files = Map.empty, log_files = (\<lambda>d. Map.empty),
      clock = 0, trace = []\<rparr>"

definition paper1 :: paper where
  "paper1 = \<lparr>p_title = ascii ''A'', p_pdf_name = ascii ''2401.1v1''\<rparr>"

definition paper2 :: paper where
  "paper2 = \<lparr>p_title = ascii ''B'', p_pdf_name = ascii ''2401.2v1''\<rparr>"

definition dirs1 :: dirs where
  "dirs1 = \<lparr>d_dl = ascii ''./dl'', d_logs = ascii ''./logs''\<rparr>"

definition good_env :: env where
  "good_env =
     \<lparr>http_ok = (\<lambda>p. True),
      pdf_text = (\<lambda>f. Some (ascii ''body'')),
      chat_completion = (\<lambda>t n. ApiOk (Some (ascii ''new''))),
      create_tweet = (\<lambda>t. Inr 7),
      sibling_pdf = (\<lambda>f. NoSibling),
      arxiv_results = (\<lambda>keywords use_or since_timestamp max_results. Some [paper1]),
      web_generator_returncode = (\<lambda>log_dir output_dir. 0)\<rparr>"

text \<open>The summarization call fails on every attempt; the publish call fails.\<close>

definition no_summary_env :: env where
  "no_summary_env = good_env\<lparr>chat_completion := (\<lambda>t n. ApiError (n = 1))\<rparr>"

definition no_publish_env :: env where
  "no_publish_env = good_env\<lparr>create_tweet := (\<lambda>t. Inl (ascii ''403''))\<rparr>"

definition no_fetch_env :: env where
  "no_fetch_env = good_env\<lparr>http_ok := (\<lambda>p. False)\<rparr>"

definition args1 :: args where
  "args1 =
     \<lparr>a_keywords = [ascii ''q''], a_max_results = 5, a_use_or = False,
      a_force_download = False, a_force_process = False, a_test_mode = False,
      a_skip_twitter = False, a_max_process = 9999, a_log_dir = None,
      a_since_timestamp = None, a_last_paper_id = None, a_processed_ids_file = None,
      a_output_processed_ids = Some (ascii ''out.txt''), a_verbose = False\<rparr>"

text \<open>
  The orchestrator over the empty working directory, one keyword set, and a configuration
  with that set alone.
\<close>

definition empty_ostate :: ostate where
  "empty_ostate =
     \<lparr>files = empty_world, timestamp_file = None, processed_ids_file = None, otrace = []\<rparr>"

definition set_q :: search_set where
  "set_q = \<lparr>ss_keywords = [ascii ''q''], ss_output_dir = ascii ''www'', ss_max_results = 5,
            ss_tweet_enabled = True\<rparr>"

definition config1 :: config where
  "config1 = \<lparr>c_search_sets = [set_q], c_wait_between_sets = 10, c_verbose = False,
              c_current_only = True\<rparr>"

text \<open>
  A working directory in which \<^verbatim>\<open>./dl\<close> is a symbolic link to the PDF directory of a
  keyword set that has been deleted since.
\<close>

definition dangling_world :: world where
  "dangling_world = empty_world\<lparr>fs := [ascii ''./dl'' \<mapsto> Symlink (ascii ''./pdf/old'')]\<rparr>"

text \<open>
  A second keyword set whose search fails, a configuration with both sets, and the
  orchestrator's state over the working directory with the dangling link.
\<close>

definition flaky_env :: env where
  "flaky_env = good_env\<lparr>arxiv_results :=
     (\<lambda>keywords use_or since_timestamp max_results.
        if keywords = [ascii ''bad''] then None else Some [paper1])\<rparr>"

definition set_bad :: search_set where
  "set_bad = \<lparr>ss_keywords = [ascii ''bad''], ss_output_dir = ascii ''www'', ss_max_results = 5,
              ss_tweet_enabled = True\<rparr>"

definition config2 :: config where
  "config2 = \<lparr>c_search_sets = [set_bad, set_q], c_wait_between_sets = 10, c_verbose = False,
              c_current_only = True\<rparr>"

definition dangling_ostate :: ostate where
  "dangling_ostate = empty_ostate\<lparr>files := dangling_world\<rparr>"

text \<open>
  The two keyword sets in the other order, and collaborators with which every run of a
  keyword set fails after it has left a trace: the fetch of the only candidate fails, and
  so does the archive renderer.
\<close>

definition config3 :: config where
  "config3 = \<lparr>c_search_sets = [set_q, set_bad], c_wait_between_sets = 10, c_verbose = False,
              c_current_only = True\<rparr>"

definition failing_env :: env where
  "failing_env = good_env\<lparr>http_ok := (\<lambda>p. False),
                          web_generator_returncode := (\<lambda>log_dir output_dir. 1)\<rparr>"

section \<open>Post text assembly: properties\<close>

lemma length_generate_summary_post_text:
  "length (generate_summary_post_text s) =
     (if length (greeting @ s) > 130 then min (length (greeting @ s)) 277 + 3
      else length (greeting @ s))"
  by (simp add: generate_summary_post_text_def Let_def ascii_def del: take_append)

lemma length_arxiv_url: "length (arxiv_url a) = 22 + length a"
  by (simp add: arxiv_url_def ascii_def)

text \<open>
  C2 (as amended). For every summary text \<open>s\<close> and identifier \<open>a\<close>, the final post text
  is the summarizer's post text followed by a blank line and the reference URL if and only if
  the identifier is not empty and the length of the summarizer's post text plus 2 plus the
  length of the URL is at most 280; otherwise the final text is the summarizer's post text
  unchanged. The summarizer's post text is the greeting-prefixed summary when that has at
  most 130 code points, and otherwise its first 277 code points followed by three dots, so
  the length compared with 280 is three more than the length of the greeting-prefixed
  summary whenever this is above the threshold.
\<close>

theorem post_text_assembly:
  "(post_thread_text (generate_summary_post_text s) (Some a)
      = generate_summary_post_text s @ [10, 10] @ arxiv_url a
    \<longleftrightarrow> a \<noteq> [] \<and> length (generate_summary_post_text s) + 2 + length (arxiv_url a) \<le> 280)
   \<and> (post_thread_text (generate_summary_post_text s) (Some a)
        \<noteq> generate_summary_post_text s @ [10, 10] @ arxiv_url a
      \<longrightarrow> post_thread_text (generate_summary_post_text s) (Some a) = generate_summary_post_text s)
   \<and> (length (greeting @ s) \<le> 130 \<longrightarrow> generate_summary_post_text s = greeting @ s)
   \<and> (length (greeting @ s) > 130
      \<longrightarrow> generate_summary_post_text s = take 277 (greeting @ s) @ ascii ''...'')
   \<and> (length (generate_summary_post_text s) + 2 + length (arxiv_url a) \<le> 280
      \<longleftrightarrow> length (greeting @ s) + (if length (greeting @ s) > 130 then 3 else 0)
            + 2 + length (arxiv_url a) \<le> 280)"
proof -
  have 1: "(post_thread_text (generate_summary_post_text s) (Some a)
      = generate_summary_post_text s @ [10, 10] @ arxiv_url a
    \<longleftrightarrow> a \<noteq> [] \<and> length (generate_summary_post_text s) + 2 + length (arxiv_url a) \<le> 280)"
    by (simp add: post_thread_text_def)
  have 2: "post_thread_text (generate_summary_post_text s) (Some a)
        \<noteq> generate_summary_post_text s @ [10, 10] @ arxiv_url a
      \<longrightarrow> post_thread_text (generate_summary_post_text s) (Some a) = generate_summary_post_text s"
    by (simp add: post_thread_text_def)
  have 3: "length (greeting @ s) \<le> 130 \<longrightarrow> generate_summary_post_text s = greeting @ s"
    by (simp add: generate_summary_post_text_def Let_def)
  have 4: "length (greeting @ s) > 130
      \<longrightarrow> generate_summary_post_text s = take 277 (greeting @ s) @ ascii ''...''"
    by (simp add: generate_summary_post_text_def Let_def)
  have 5: "length (generate_summary_post_text s) + 2 + length (arxiv_url a) \<le> 280
      \<longleftrightarrow> length (greeting @ s) + (if length (greeting @ s) > 130 then 3 else 0)
            + 2 + length (arxiv_url a) \<le> 280"
    unfolding length_generate_summary_post_text length_arxiv_url by auto
  from 1 2 3 4 5 show ?thesis by blast
qed

text \<open>
  The theorem at a summary of 100 code points (the URL is appended) and at one of 240 code
  points (three dots are appended and the URL no longer fits).
\<close>

theorem post_text_assembly_witness:
  "post_thread_text (generate_summary_post_text (replicate 100 97)) (Some [49])
     = greeting @ replicate 100 97 @ [10, 10] @ arxiv_url [49]
   \<and> post_thread_text (generate_summary_post_text (replicate 240 97)) (Some [49])
     = greeting @ replicate 240 97 @ ascii ''...''"
proof -
  have a: "length (greeting @ replicate 100 97) \<le> 130" by (simp add: greeting_def)
  have b: "length (greeting @ replicate 240 97) > 130" by (simp add: greeting_def)
  have c: "length (greeting @ replicate 240 97) \<le> 277" by (simp add: greeting_def)
  have la: "length (arxiv_url [49]) = 23" by (simp add: length_arxiv_url)
  note A = post_text_assembly [of "replicate 100 97" "[49]"]
  note B = post_text_assembly [of "replicate 240 97" "[49]"]
  from A a have pa: "generate_summary_post_text (replicate 100 97) = greeting @ replicate 100 97"
    by blast
  from B b c have pb: "generate_summary_post_text (replicate 240 97)
      = greeting @ replicate 240 97 @ ascii ''...''"
    by simp
  have "length (generate_summary_post_text (replicate 100 97)) + 2 + length (arxiv_url [49]) \<le> 280"
    unfolding pa la by (simp add: greeting_def)
  with A have ra: "post_thread_text (generate_summary_post_text (replicate 100 97)) (Some [49])
     = generate_summary_post_text (replicate 100 97) @ [10, 10] @ arxiv_url [49]"
    by blast
  have "\<not> length (generate_summary_post_text (replicate 240 97)) + 2 + length (arxiv_url [49]) \<le> 280"
    unfolding pb la by (simp add: greeting_def ascii_def)
  with B have rb: "post_thread_text (generate_summary_post_text (replicate 240 97)) (Some [49])
     = generate_summary_post_text (replicate 240 97)"
    by blast
  show ?thesis using ra rb pa pb by simp
qed

text \<open>
  C2 as first stated compares the length of the greeting-prefixed summary, without the
  three dots. For a summary of 240 code points and the identifier \<^verbatim>\<open>1\<close> this gives
  254 + 2 + 23 = 279, at most 280, but the posted text has 257 code points and no URL.
\<close>

theorem post_text_url_counterexample:
  "\<not> (post_thread_text (generate_summary_post_text (replicate 240 97)) (Some [49])
        = generate_summary_post_text (replicate 240 97) @ [10, 10] @ arxiv_url [49]
      \<longleftrightarrow> length (greeting @ replicate 240 97) + 2 + length (arxiv_url [49]) \<le> 280)"
  by (simp add: post_thread_text_def generate_summary_post_text_def greeting_def ascii_def
      Let_def arxiv_url_def)

section \<open>Traces and the retry loop\<close>

lemma grows_refl [simp]: "grows w w"
  by (simp add: grows_def)

lemma grows_append: "trace w' = trace w @ evs \<Longrightarrow> grows w w'"
  by (simp add: grows_def)

lemma grows_trace: "grows w w' \<Longrightarrow> trace w' = trace w @ new_events w w'"
  by (metis append_take_drop_id grows_def new_events_def)

lemma grows_trans: "grows w w1 \<Longrightarrow> grows w1 w2 \<Longrightarrow> grows w w2"
  by (metis append.assoc grows_append grows_trace)

lemma new_events_trans:
  "grows w w1 \<Longrightarrow> grows w1 w2 \<Longrightarrow> new_events w w2 = new_events w w1 @ new_events w1 w2"
  by (metis append.assoc append_eq_conv_conj grows_trace new_events_def)

lemma new_events_append: "trace w' = trace w @ evs \<Longrightarrow> new_events w w' = evs"
  by (simp add: new_events_def)

lemma new_events_same [simp]: "new_events w w = []"
  by (simp add: new_events_def)

lemma retry_loop_last:
  "retry_loop api (Suc (Suc 0)) b w =
     (case api 2 of
        ApiOk content \<Rightarrow> (Some content, emit (ApiCall 3) w)
      | ApiError r \<Rightarrow> (None, emit (ApiCall 3) w))"
  by (simp add: retry_loop.simps [of api "Suc (Suc 0)" b w] max_retries_def eval_nat_numeral
      split: api_outcome.splits)

lemma retry_loop_second:
  "retry_loop api (Suc 0) b w =
     (case api 1 of
        ApiOk content \<Rightarrow> (Some content, emit (ApiCall 2) w)
      | ApiError r \<Rightarrow>
          retry_loop api (Suc (Suc 0)) (b * 2)
            (sleep b (emit (ApiWarning r b 2) (emit (ApiCall 2) w))))"
  by (simp add: retry_loop.simps [of api "Suc 0" b w] max_retries_def eval_nat_numeral
      split: api_outcome.splits)

lemma retry_loop_first:
  "retry_loop api 0 b w =
     (case api 0 of
        ApiOk content \<Rightarrow> (Some content, emit (ApiCall 1) w)
      | ApiError r \<Rightarrow>
          retry_loop api (Suc 0) (b * 2) (sleep b (emit (ApiWarning r b 1) (emit (ApiCall 1) w))))"
  by (simp add: retry_loop.simps [of api 0 b w] max_retries_def
      split: api_outcome.splits)

lemma retry_loop_unfolded:
  "retry_loop api 0 b w =
     (first_success api,
      w\<lparr>clock := clock w + sum_list (sleeps (api_events api b)),
        trace := trace w @ api_events api b\<rparr>)"
  by (simp add: retry_loop_first retry_loop_second retry_loop_last emit_def sleep_def
      first_success_def api_events_def split: api_outcome.splits)

lemma api_calls_bound:
  "length (filter is_api_call (api_events api b)) \<le> 3
   \<and> 1 \<le> length (filter is_api_call (api_events api b))"
  by (simp add: api_events_def split: api_outcome.splits)

lemma api_sleeps:
  "sleeps (api_events api b) = take (length (filter is_api_call (api_events api b)) - 1) [b, b * 2]"
  by (simp add: api_events_def split: api_outcome.splits)

lemma api_events_other [simp]:
  "filter is_http_get (api_events api b) = []"
  "filter is_extract (api_events api b) = []"
  "filter is_create_tweet (api_events api b) = []"
  "filter is_processed_check (api_events api b) = []"
  by (simp_all add: api_events_def split: api_outcome.splits)

lemma first_success_without_signal:
  "first_success (\<lambda>n. without_signal (api n)) = first_success api"
  by (simp add: first_success_def split: api_outcome.splits)

lemma api_events_without_signal:
  "api_events (\<lambda>n. without_signal (api n)) b = map event_without_signal (api_events api b)"
  by (simp add: api_events_def split: api_outcome.splits)

lemma first_success_exhausted:
  "first_success api = None \<longleftrightarrow> (\<forall>n<3. \<exists>r. api n = ApiError r)"
proof -
  have "(\<forall>n<3. \<exists>r. api n = ApiError r)
      \<longleftrightarrow> (\<exists>r. api 0 = ApiError r) \<and> (\<exists>r. api 1 = ApiError r) \<and> (\<exists>r. api 2 = ApiError r)"
    by (auto simp: less_Suc_eq eval_nat_numeral)
  then show ?thesis
    by (simp add: first_success_def split: api_outcome.splits)
qed

section \<open>The stages of the pipeline in closed form\<close>

lemma download_pdf_eq:
  "download_pdf E p d False w =
     ((pdf_filename p \<in> dl_files w d \<or> http_ok E p,
       if pdf_filename p \<in> dl_files w d \<or> http_ok E p then Some (pdf_filename p) else None,
       splitext_stem (pdf_filename p)),
      w\<lparr>dl_files := (dl_files w)
           (d := (if http_ok E p then insert (pdf_filename p) (dl_files w d) else dl_files w d)),
        clock := clock w + sum_list (sleeps (download_events E p d w)),
        trace := trace w @ download_events E p d w\<rparr>)"
  by (simp add: download_pdf_def download_events_def emit_def sleep_def Let_def insert_absorb)

lemma extract_text_from_pdf_eq:
  "extract_text_from_pdf E f w =
     (case pdf_text E f of
        None \<Rightarrow> (None, w\<lparr>trace := trace w @ [ExtractText f]\<rparr>)
      | Some text \<Rightarrow>
          (Some (splitext_stem f @ ascii ''.txt''),
           w\<lparr>text_files := (text_files w)(splitext_stem f @ ascii ''.txt'' \<mapsto> text),
             trace := trace w @ [ExtractText f]\<rparr>))"
  by (simp add: extract_text_from_pdf_def emit_def Let_def split: option.splits)

lemma generate_summary_eq:
  "generate_summary E text paper_title arxiv_id w =
     (let evs = api_events (chat_completion E text) 2;
          w1 = w\<lparr>clock := clock w + sum_list (sleeps evs), trace := trace w @ evs\<rparr>
      in case first_success (chat_completion E text) of
           Some (Some content) \<Rightarrow>
             (Some (summary_of content paper_title arxiv_id (clock w1)),
              w1\<lparr>summary_files := (summary_files w1)(summary_path paper_title arxiv_id \<mapsto>
                    summary_of content paper_title arxiv_id (clock w1))\<rparr>)
         | Some None \<Rightarrow> (None, w1)
         | None \<Rightarrow> (None, w1))"
  by (simp add: generate_summary_def retry_loop_unfolded Let_def summary_of_def summary_path_def
      split: option.splits)

lemmas stage_eqs = download_pdf_eq extract_text_from_pdf_eq generate_summary_eq
  post_thread_def write_log_def mark_as_processed_def emit_def



lemma process_paper_cases:
  fixes E p dirs fp st w
  defines "f \<equiv> pdf_filename p"
  defines "a \<equiv> splitext_stem (pdf_filename p)"
  defines "D \<equiv> download_events E p (d_dl dirs) w"
  defines "r \<equiv> process_paper E p dirs fp st w"
  obtains
    (fetch_failed)
      "f \<notin> dl_files w (d_dl dirs)" "\<not> http_ok E p"
      "fst r = False" "trace (snd r) = trace w @ [Sleep 5, HttpGet f]"
      "processed_files (snd r) = processed_files w" "log_files (snd r) = log_files w"
      "id_files (snd r) = id_files w" "fs (snd r) = fs w"
  | (skipped)
      "f \<in> dl_files w (d_dl dirs) \<or> http_ok E p" "processed_files w a \<noteq> None" "\<not> fp"
      "fst r = True" "trace (snd r) = trace w @ D @ [ProcessedCheck a]"
      "processed_files (snd r) = processed_files w" "log_files (snd r) = log_files w"
      "id_files (snd r) = id_files w" "fs (snd r) = fs w"
      "f \<in> dl_files (snd r) (d_dl dirs)"
  | (extraction_failed)
      "f \<in> dl_files w (d_dl dirs) \<or> http_ok E p" "processed_files w a = None \<or> fp"
      "pdf_text E f = None"
      "fst r = False" "trace (snd r) = trace w @ D @ [ProcessedCheck a, ExtractText f]"
      "processed_files (snd r) = processed_files w" "log_files (snd r) = log_files w"
      "id_files (snd r) = id_files w" "fs (snd r) = fs w"
      "f \<in> dl_files (snd r) (d_dl dirs)"
  | (summarization_failed) body
    where
      "f \<in> dl_files w (d_dl dirs) \<or> http_ok E p" "processed_files w a = None \<or> fp"
      "pdf_text E f = Some body"
      "first_success (chat_completion E body) = None
         \<or> first_success (chat_completion E body) = Some None"
      "fst r = False"
      "trace (snd r) = trace w @ D @ [ProcessedCheck a, ExtractText f]
          @ api_events (chat_completion E body) 2"
      "processed_files (snd r) = processed_files w" "log_files (snd r) = log_files w"
      "id_files (snd r) = id_files w" "fs (snd r) = fs w"
      "f \<in> dl_files (snd r) (d_dl dirs)"
  | (publish_failed) body content e
    where
      "f \<in> dl_files w (d_dl dirs) \<or> http_ok E p" "processed_files w a = None \<or> fp"
      "pdf_text E f = Some body"
      "first_success (chat_completion E body) = Some (Some content)"
      "\<not> st"
      "create_tweet E (post_thread_text (generate_summary_post_text (strip content)) (Some a))
         = Inl e"
      "fst r = False"
      "trace (snd r) = trace w @ D @ [ProcessedCheck a, ExtractText f]
          @ api_events (chat_completion E body) 2
          @ [CreateTweet (post_thread_text (generate_summary_post_text (strip content)) (Some a))]"
      "processed_files (snd r) = processed_files w"
      "\<exists>ts. log_files (snd r) = (log_files w)(d_logs dirs := (log_files w (d_logs dirs))
          (log_name a (p_title p) \<mapsto>
             \<lparr>l_title = p_title p, l_timestamp = ts, l_summary = strip content,
              l_post_text = None, l_arxiv_id = Some a, l_error = Some e, l_tweets = []\<rparr>))"
      "id_files (snd r) = id_files w" "fs (snd r) = fs w"
      "f \<in> dl_files (snd r) (d_dl dirs)"
  | (published) body content tweet_id
    where
      "f \<in> dl_files w (d_dl dirs) \<or> http_ok E p" "processed_files w a = None \<or> fp"
      "pdf_text E f = Some body"
      "first_success (chat_completion E body) = Some (Some content)"
      "\<not> st"
      "create_tweet E (post_thread_text (generate_summary_post_text (strip content)) (Some a))
         = Inr tweet_id"
      "fst r = True"
      "trace (snd r) = trace w @ D @ [ProcessedCheck a, ExtractText f]
          @ api_events (chat_completion E body) 2
          @ [CreateTweet (post_thread_text (generate_summary_post_text (strip content)) (Some a))]"
      "\<exists>ts. processed_files (snd r) = (processed_files w)
          (a \<mapsto> \<lparr>m_arxiv_id = a, m_title = p_title p, m_processed_at = ts\<rparr>)"
      "\<exists>ts. log_files (snd r) = (log_files w)(d_logs dirs := (log_files w (d_logs dirs))
          (log_name a (p_title p) \<mapsto>
             \<lparr>l_title = p_title p, l_timestamp = ts, l_summary = strip content,
              l_post_text = None, l_arxiv_id = (if a \<noteq> [] then Some a else None),
              l_error = None,
              l_tweets = [\<lparr>t_id = tweet_id,
                 t_text = post_thread_text (generate_summary_post_text (strip content)) (Some a)\<rparr>]\<rparr>))"
      "id_files (snd r) = id_files w" "fs (snd r) = fs w"
      "f \<in> dl_files (snd r) (d_dl dirs)"
  | (publish_skipped) body content
    where
      "f \<in> dl_files w (d_dl dirs) \<or> http_ok E p" "processed_files w a = None \<or> fp"
      "pdf_text E f = Some body"
      "first_success (chat_completion E body) = Some (Some content)"
      "st"
      "fst r = True"
      "trace (snd r) = trace w @ D @ [ProcessedCheck a, ExtractText f]
          @ api_events (chat_completion E body) 2"
      "\<exists>ts. processed_files (snd r) = (processed_files w)
          (a \<mapsto> \<lparr>m_arxiv_id = a, m_title = p_title p, m_processed_at = ts\<rparr>)"
      "\<exists>ts. log_files (snd r) = (log_files w)(d_logs dirs := (log_files w (d_logs dirs))
          (a @ ascii ''_twitter_log.json'' \<mapsto>
             \<lparr>l_title = p_title p, l_timestamp = ts, l_summary = strip content,
              l_post_text = Some (generate_summary_post_text (strip content)),
              l_arxiv_id = Some a, l_error = None, l_tweets = []\<rparr>))"
      "id_files (snd r) = id_files w" "fs (snd r) = fs w"
      "f \<in> dl_files (snd r) (d_dl dirs)"
proof (cases "f \<in> dl_files w (d_dl dirs) \<or> http_ok E p")
  case False
  then have "r = (False, snd (download_pdf E p (d_dl dirs) False w))"
    by (simp add: r_def f_def process_paper_def download_pdf_eq)
  with False show ?thesis
    by (intro fetch_failed) (simp_all add: download_pdf_eq download_events_def f_def)
next
  case ok: True
  define w1 where "w1 = snd (download_pdf E p (d_dl dirs) False w)"
  define w2 where "w2 = emit (ProcessedCheck a) w1"
  have dl1: "download_pdf E p (d_dl dirs) False w = ((True, Some f, a), w1)"
    using ok by (simp add: w1_def download_pdf_eq f_def a_def)
  have w1: "trace w1 = trace w @ D" "processed_files w1 = processed_files w"
    "log_files w1 = log_files w" "id_files w1 = id_files w" "fs w1 = fs w"
    "f \<in> dl_files w1 (d_dl dirs)" "text_files w1 = text_files w"
    using ok by (auto simp: w1_def download_pdf_eq D_def f_def)
  have w2: "trace w2 = trace w @ D @ [ProcessedCheck a]" "processed_files w2 = processed_files w"
    "log_files w2 = log_files w" "id_files w2 = id_files w" "fs w2 = fs w"
    "f \<in> dl_files w2 (d_dl dirs)"
    using w1 by (simp_all add: w2_def emit_def)
  show ?thesis
  proof (cases "processed_files w a \<noteq> None \<and> \<not> fp")
    case True
    then have "r = (True, w2)"
      by (simp add: r_def process_paper_def dl1 w2_def [symmetric] is_processed_def w2)
    with True ok w2 show ?thesis
      by (intro skipped) simp_all
  next
    case np: False
    then have np': "processed_files w a = None \<or> fp" by blast
    show ?thesis
    proof (cases "pdf_text E f")
      case None
      then have "r = (False, w2\<lparr>trace := trace w2 @ [ExtractText f]\<rparr>)"
        using np by (simp add: r_def process_paper_def dl1 w2_def [symmetric] is_processed_def w2
            extract_text_from_pdf_eq)
      with None ok np' w2 show ?thesis
        by (intro extraction_failed) simp_all
    next
      case (Some body)
      define w3 where "w3 = w2\<lparr>text_files := (text_files w2)(splitext_stem f @ ascii ''.txt'' \<mapsto> body),
             trace := trace w2 @ [ExtractText f]\<rparr>"
      have ex: "extract_text_from_pdf E f w2 = (Some (splitext_stem f @ ascii ''.txt''), w3)"
        using Some by (simp add: extract_text_from_pdf_eq w3_def)
      have w3: "trace w3 = trace w @ D @ [ProcessedCheck a, ExtractText f]"
        "processed_files w3 = processed_files w"
        "log_files w3 = log_files w" "id_files w3 = id_files w" "fs w3 = fs w"
        "f \<in> dl_files w3 (d_dl dirs)"
        "text_files w3 (splitext_stem f @ ascii ''.txt'') = Some body"
        using w2 by (simp_all add: w3_def)
      define g where "g = generate_summary E body (p_title p) (Some a) w3"
      have r_g: "r = (case g of
                   (None, w4) \<Rightarrow> (False, w4)
                 | (Some summary0, w4) \<Rightarrow>
                     (let summary = summary0\<lparr>s_arxiv_id := Some a\<rparr>
                      in if \<not> st then
                           (case post_thread E summary (d_logs dirs) w4 of
                              (False, w5) \<Rightarrow> (False, w5)
                            | (True, w5) \<Rightarrow> (True, mark_as_processed a (p_title p) w5))
                         else
                           (let w5 = write_log (d_logs dirs) (a @ ascii ''_twitter_log.json'')
                                  \<lparr>l_title = p_title p, l_timestamp = clock w4,
                                   l_summary = s_summary summary,
                                   l_post_text = Some (s_post_text summary),
                                   l_arxiv_id = Some a, l_error = None, l_tweets = []\<rparr> w4
                            in (True, mark_as_processed a (p_title p) w5))))"
        using np by (cases "processed_files w a"; cases fp)
          (simp_all add: r_def process_paper_def dl1 w2_def [symmetric] is_processed_def w2
            ex w3 g_def)
      define w4 where "w4 = w3\<lparr>clock := clock w3 + sum_list (sleeps (api_events (chat_completion E body) 2)),
          trace := trace w3 @ api_events (chat_completion E body) 2\<rparr>"
      have w4: "trace w4 = trace w @ D @ [ProcessedCheck a, ExtractText f]
            @ api_events (chat_completion E body) 2"
        "processed_files w4 = processed_files w"
        "log_files w4 = log_files w" "id_files w4 = id_files w" "fs w4 = fs w"
        "f \<in> dl_files w4 (d_dl dirs)"
        using w3 by (simp_all add: w4_def)
      show ?thesis
      proof (cases "first_success (chat_completion E body)")
        case None
        then have "g = (None, w4)"
          by (simp add: g_def generate_summary_eq w4_def Let_def)
        then have "r = (False, w4)" by (simp add: r_g)
        with None Some ok np' w4 show ?thesis
          by (intro summarization_failed [of body]) simp_all
      next
        case fs: (Some oc)
        show ?thesis
        proof (cases oc)
          case None
          then have "g = (None, w4)"
            using fs by (simp add: g_def generate_summary_eq w4_def Let_def)
          then have "r = (False, w4)" by (simp add: r_g)
          with None fs Some ok np' w4 show ?thesis
            by (intro summarization_failed [of body]) simp_all
        next
          case c: (Some content)
          define s0 where "s0 = summary_of content (p_title p) (Some a) (clock w4)"
          define w4' where "w4' = w4\<lparr>summary_files := (summary_files w4)
              (summary_path (p_title p) (Some a) \<mapsto> s0)\<rparr>"
          have g: "g = (Some s0, w4')"
            using fs c by (simp add: g_def generate_summary_eq w4_def Let_def s0_def w4'_def)
          have w4': "trace w4' = trace w4" "processed_files w4' = processed_files w"
            "log_files w4' = log_files w" "id_files w4' = id_files w" "fs w4' = fs w"
            "f \<in> dl_files w4' (d_dl dirs)"
            using w4 by (simp_all add: w4'_def)
          have s0: "s0\<lparr>s_arxiv_id := Some a\<rparr> = s0" "s_post_text s0 = generate_summary_post_text (strip content)"
            "s_summary s0 = strip content" "s_title s0 = p_title p" "s_arxiv_id s0 = Some a"
            by (simp_all add: s0_def summary_of_def)
          let ?t = "post_thread_text (generate_summary_post_text (strip content)) (Some a)"
          have lp: "twitter_log_path s0 = log_name a (p_title p)"
            by (simp add: twitter_log_path_def log_name_def s0)
          show ?thesis
          proof (cases st)
            case True
            then have "r = (True, mark_as_processed a (p_title p)
                (write_log (d_logs dirs) (a @ ascii ''_twitter_log.json'')
                   \<lparr>l_title = p_title p, l_timestamp = clock w4',
                    l_summary = strip content,
                    l_post_text = Some (generate_summary_post_text (strip content)),
                    l_arxiv_id = Some a, l_error = None, l_tweets = []\<rparr> w4'))"
              by (simp add: r_g g s0 Let_def)
            with True c fs Some ok np' w4 w4' show ?thesis
              by (intro publish_skipped [of body content])
                (auto simp: mark_as_processed_def write_log_def)
          next
            case nst: False
            show ?thesis
            proof (cases "create_tweet E ?t")
              case (Inl e)
              then have "r = (False, write_log (d_logs dirs) (log_name a (p_title p))
                  \<lparr>l_title = p_title p, l_timestamp = clock w4',
                   l_summary = strip content, l_post_text = None,
                   l_arxiv_id = Some a, l_error = Some e, l_tweets = []\<rparr>
                  (emit (CreateTweet ?t) w4'))"
                using nst by (simp add: r_g g s0 Let_def post_thread_def lp emit_def)
              with Inl nst c fs Some ok np' w4 w4' show ?thesis
                by (intro publish_failed [of body content e])
                  (auto simp: write_log_def emit_def)
            next
              case (Inr tweet_id)
              then have "r = (True, mark_as_processed a (p_title p)
                 (write_log (d_logs dirs) (log_name a (p_title p))
                  \<lparr>l_title = p_title p, l_timestamp = clock w4',
                   l_summary = strip content, l_post_text = None,
                   l_arxiv_id = (if a \<noteq> [] then Some a else None), l_error = None,
                   l_tweets = [\<lparr>t_id = tweet_id, t_text = ?t\<rparr>]\<rparr>
                  (emit (CreateTweet ?t) w4')))"
                using nst by (simp add: r_g g s0 Let_def post_thread_def lp emit_def truthy_def)
              with Inr nst c fs Some ok np' w4 w4' show ?thesis
                by (intro published [of body content tweet_id])
                  (auto simp: write_log_def emit_def mark_as_processed_def)
            qed
          qed
        qed
      qed
    qed
  qed
qed

section \<open>The skip check and the publish failure\<close>

lemma download_events_other [simp]:
  "filter is_processed_check (download_events E p d w) = []"
  "filter is_extract (download_events E p d w) = []"
  "filter is_create_tweet (download_events E p d w) = []"
  "filter is_api_call (download_events E p d w) = []"
  "length (filter is_http_get (download_events E p d w)) \<le> Suc 0"
  by (simp_all add: download_events_def)

lemma paper1_names [simp]:
  "pdf_filename paper1 = ascii ''2401.1v1.pdf''"
  "splitext_stem (ascii ''2401.1v1.pdf'') = ascii ''2401.1v1''"
  "extract_arxiv_id paper1 = ascii ''2401.1v1''"
  by (simp_all add: pdf_filename_def paper1_def endswith_def ascii_def splitext_stem_def
      extract_arxiv_id_def Let_def)

lemma paper2_names [simp]:
  "pdf_filename paper2 = ascii ''2401.2v1.pdf''"
  "splitext_stem (ascii ''2401.2v1.pdf'') = ascii ''2401.2v1''"
  "extract_arxiv_id paper2 = ascii ''2401.2v1''"
  by (simp_all add: pdf_filename_def paper2_def endswith_def ascii_def splitext_stem_def
      extract_arxiv_id_def Let_def)

text \<open>
  C8. In \<^verbatim>\<open>process_paper\<close> a failed fetch ends the run with \<^verbatim>\<open>False\<close> after the two fetch
  events, with no processed check and no extraction. After a successful fetch the processed
  check is the first event after the fetch events, and it happens once. When the paper is
  marked processed and the force flag is off the run ends there with \<^verbatim>\<open>True\<close>, leaving
  ledger and logs as they were. When the force flag is on, or the paper is not marked, the
  next event is the text extraction, which happens once.
\<close>

theorem skip_check_after_fetch_before_extraction:
  "(pdf_filename p \<notin> dl_files w (d_dl dirs) \<and> \<not> http_ok E p \<longrightarrow>
      fst (process_paper E p dirs fp st w) = False
      \<and> new_events w (snd (process_paper E p dirs fp st w)) = [Sleep 5, HttpGet (pdf_filename p)])
   \<and> (pdf_filename p \<in> dl_files w (d_dl dirs) \<or> http_ok E p \<longrightarrow>
        (\<exists>rest. new_events w (snd (process_paper E p dirs fp st w))
            = download_events E p (d_dl dirs) w
              @ ProcessedCheck (splitext_stem (pdf_filename p)) # rest
          \<and> filter is_processed_check rest = []
          \<and> (is_processed (splitext_stem (pdf_filename p)) w None \<and> \<not> fp \<longrightarrow>
                rest = [] \<and> fst (process_paper E p dirs fp st w) = True
                \<and> processed_files (snd (process_paper E p dirs fp st w)) = processed_files w
                \<and> log_files (snd (process_paper E p dirs fp st w)) = log_files w)
          \<and> (\<not> is_processed (splitext_stem (pdf_filename p)) w None \<or> fp \<longrightarrow>
                (\<exists>rest'. rest = ExtractText (pdf_filename p) # rest'
                    \<and> filter is_extract rest' = []))))
   \<and> filter is_processed_check (download_events E p (d_dl dirs) w) = []
   \<and> filter is_extract (download_events E p (d_dl dirs) w) = []"
proof (cases rule: process_paper_cases [where E=E and p=p and dirs=dirs and fp=fp and st=st and w=w])
  case fetch_failed
  then show ?thesis by (simp add: new_events_def)
next
  case skipped
  then show ?thesis by (simp add: new_events_def is_processed_def)
next
  case extraction_failed
  then show ?thesis by (auto simp: new_events_def is_processed_def)
next
  case (summarization_failed body)
  then show ?thesis by (auto simp: new_events_def is_processed_def)
next
  case (publish_failed body content e)
  then show ?thesis by (auto simp: new_events_def is_processed_def)
next
  case (published body content tweet_id)
  then show ?thesis by (auto simp: new_events_def is_processed_def)
next
  case (publish_skipped body content)
  then show ?thesis by (auto simp: new_events_def is_processed_def)
qed


text \<open>
  The theorem at a failing fetch, at a marked paper without the force flag, and at a marked
  paper with the force flag.
\<close>

theorem skip_check_after_fetch_before_extraction_witness:
  "fst (process_paper no_fetch_env paper1 dirs1 False False empty_world) = False
   \<and> new_events empty_world (snd (process_paper no_fetch_env paper1 dirs1 False False empty_world))
       = [Sleep 5, HttpGet (ascii ''2401.1v1.pdf'')]
   \<and> new_events (mark_as_processed (ascii ''2401.1v1'') (ascii ''A'') empty_world)
        (snd (process_paper good_env paper1 dirs1 False False
           (mark_as_processed (ascii ''2401.1v1'') (ascii ''A'') empty_world)))
       = [Sleep 5, HttpGet (ascii ''2401.1v1.pdf''), Sleep 2, ProcessedCheck (ascii ''2401.1v1'')]
   \<and> take 5 (new_events (mark_as_processed (ascii ''2401.1v1'') (ascii ''A'') empty_world)
        (snd (process_paper good_env paper1 dirs1 True False
           (mark_as_processed (ascii ''2401.1v1'') (ascii ''A'') empty_world))))
       = [Sleep 5, HttpGet (ascii ''2401.1v1.pdf''), Sleep 2, ProcessedCheck (ascii ''2401.1v1''),
          ExtractText (ascii ''2401.1v1.pdf'')]"
proof -
  let ?w = "mark_as_processed (ascii ''2401.1v1'') (ascii ''A'') empty_world"
  have 1: "pdf_filename paper1 \<notin> dl_files empty_world (d_dl dirs1) \<and> \<not> http_ok no_fetch_env paper1"
    by (simp add: empty_world_def no_fetch_env_def good_env_def)
  have 2: "pdf_filename paper1 \<in> dl_files ?w (d_dl dirs1) \<or> http_ok good_env paper1"
    by (simp add: good_env_def)
  have 3: "is_processed (splitext_stem (pdf_filename paper1)) ?w None"
    by (simp add: is_processed_def mark_as_processed_def)
  have 4: "download_events good_env paper1 (d_dl dirs1) ?w
      = [Sleep 5, HttpGet (ascii ''2401.1v1.pdf''), Sleep 2]"
    by (simp add: download_events_def mark_as_processed_def empty_world_def good_env_def)
  from 1 skip_check_after_fetch_before_extraction
    [where p = paper1 and w = empty_world and dirs = dirs1 and E = no_fetch_env
       and fp = False and st = False]
  have a: "fst (process_paper no_fetch_env paper1 dirs1 False False empty_world) = False
   \<and> new_events empty_world (snd (process_paper no_fetch_env paper1 dirs1 False False empty_world))
       = [Sleep 5, HttpGet (ascii ''2401.1v1.pdf'')]"
    by simp
  from 2 3 4 skip_check_after_fetch_before_extraction
    [where p = paper1 and w = ?w and dirs = dirs1 and E = good_env and fp = False and st = False]
  have b: "new_events ?w (snd (process_paper good_env paper1 dirs1 False False ?w))
       = [Sleep 5, HttpGet (ascii ''2401.1v1.pdf''), Sleep 2, ProcessedCheck (ascii ''2401.1v1'')]"
    by auto
  from 2 3 4 skip_check_after_fetch_before_extraction
    [where p = paper1 and w = ?w and dirs = dirs1 and E = good_env and fp = True and st = False]
  have c: "take 5 (new_events ?w (snd (process_paper good_env paper1 dirs1 True False ?w)))
       = [Sleep 5, HttpGet (ascii ''2401.1v1.pdf''), Sleep 2, ProcessedCheck (ascii ''2401.1v1''),
          ExtractText (ascii ''2401.1v1.pdf'')]"
    by auto
  from a b c show ?thesis by blast
qed

lemma endswith_append [simp]: "endswith (x @ s) s"
  by (simp add: endswith_def)

lemma endswith_log_name [simp]: "endswith (log_name a t) (ascii ''_twitter_log.json'')"
  by (simp add: log_name_def)

lemma in_set_filter_nil: "filter P xs = [] \<Longrightarrow> P x \<Longrightarrow> x \<notin> set xs"
  by (auto simp: filter_empty_conv)

lemma create_tweet_not_in [simp]:
  "CreateTweet t \<notin> set (download_events E p d w)"
  "CreateTweet t \<notin> set (api_events api b)"
  by (rule in_set_filter_nil [where P = is_create_tweet]; simp)+

text \<open>
  What \<^verbatim>\<open>process_paper\<close> itself does when its publish call fails with error text \<open>e\<close>: it
  returns \<^verbatim>\<open>False\<close>, the processed markers are as before, the log directory holds a
  record for the paper with \<open>e\<close> as its error and no tweets, and the renderer reads that
  record as failed with the error text \<open>e\<close>. The set of processed identifiers that the
  batch coordinator and the orchestrator keep is not in the hands of \<^verbatim>\<open>process_paper\<close>.
\<close>

lemma process_paper_publish_failure:
  assumes "CreateTweet t \<in> set (new_events w (snd (process_paper E p dirs fp st w)))"
    and "create_tweet E t = Inl e"
  shows "fst (process_paper E p dirs fp st w) = False
     \<and> processed_files (snd (process_paper E p dirs fp st w)) = processed_files w
     \<and> (\<exists>log_data. log_files (snd (process_paper E p dirs fp st w)) (d_logs dirs)
             (log_name (splitext_stem (pdf_filename p)) (p_title p)) = Some log_data
           \<and> l_error log_data = Some e \<and> l_tweets log_data = []
           \<and> l_title log_data = p_title p
           \<and> l_arxiv_id log_data = Some (splitext_stem (pdf_filename p)))
     \<and> (\<exists>info. renderer_entry (snd (process_paper E p dirs fp st w)) (d_logs dirs)
             (log_name (splitext_stem (pdf_filename p)) (p_title p)) = Some info
           \<and> pi_failed info \<and> pi_error info = Some e \<and> pi_title info = p_title p)"
proof (cases rule: process_paper_cases [where E=E and p=p and dirs=dirs and fp=fp and st=st and w=w])
  case fetch_failed
  with assms show ?thesis by (simp add: new_events_def)
next
  case skipped
  with assms show ?thesis by (simp add: new_events_def)
next
  case extraction_failed
  with assms show ?thesis by (simp add: new_events_def)
next
  case (summarization_failed body)
  with assms show ?thesis by (simp add: new_events_def)
next
  case (publish_failed body content e')
  from publish_failed(8) assms(1)
  have "t = post_thread_text (generate_summary_post_text (strip content))
      (Some (splitext_stem (pdf_filename p)))"
    by (simp add: new_events_def)
  with publish_failed(6) assms(2) have e: "e' = e" by simp
  from publish_failed(10) obtain ts where
    "log_files (snd (process_paper E p dirs fp st w)) =
       (log_files w)(d_logs dirs := (log_files w (d_logs dirs))
          (log_name (splitext_stem (pdf_filename p)) (p_title p) \<mapsto>
             \<lparr>l_title = p_title p, l_timestamp = ts, l_summary = strip content,
              l_post_text = None, l_arxiv_id = Some (splitext_stem (pdf_filename p)),
              l_error = Some e', l_tweets = []\<rparr>))"
    by blast
  with publish_failed(7,9) e show ?thesis
    by (simp add: renderer_entry_def process_log_data_def)
next
  case (published body content tweet_id)
  from published(8) assms(1)
  have "t = post_thread_text (generate_summary_post_text (strip content))
      (Some (splitext_stem (pdf_filename p)))"
    by (simp add: new_events_def)
  with published(6) assms(2) show ?thesis by simp
next
  case (publish_skipped body content)
  with assms show ?thesis by (simp add: new_events_def)
qed

section \<open>The retry policy\<close>

lemma generate_summary_events:
  "new_events w (snd (generate_summary E body t aid w)) = api_events (chat_completion E body) 2"
  by (simp add: generate_summary_eq Let_def new_events_def split: option.splits)

lemma generate_summary_failed:
  "fst (generate_summary E body t aid w) = None
     \<longleftrightarrow> first_success (chat_completion E body) = None
         \<or> first_success (chat_completion E body) = Some None"
  by (simp add: generate_summary_eq Let_def split: option.splits)

lemma api_calls_count:
  "length (filter is_api_call (api_events api b))
     = (if \<exists>c. api 0 = ApiOk c then 1 else if \<exists>c. api 1 = ApiOk c then 2 else 3)"
  by (simp add: api_events_def split: api_outcome.splits)

lemma generate_summary_without_signal:
  "fst (generate_summary (E\<lparr>chat_completion := \<lambda>x n. without_signal (chat_completion E x n)\<rparr>)
          body t aid w) = fst (generate_summary E body t aid w)"
  by (simp add: generate_summary_eq Let_def first_success_without_signal
      api_events_without_signal api_events_def split: option.splits api_outcome.splits)

lemma process_paper_exhausted:
  assumes "pdf_text E (pdf_filename p) = Some body"
    and "\<forall>n<3. \<exists>r. chat_completion E body n = ApiError r"
    and "pdf_filename p \<in> dl_files w (d_dl dirs) \<or> http_ok E p"
    and "\<not> is_processed (splitext_stem (pdf_filename p)) w None \<or> fp"
  shows "fst (process_paper E p dirs fp st w) = False
     \<and> processed_files (snd (process_paper E p dirs fp st w)) = processed_files w
     \<and> length (filter is_api_call (new_events w (snd (process_paper E p dirs fp st w)))) = 3"
proof -
  from assms(2) have fs: "first_success (chat_completion E body) = None"
    by (simp add: first_success_exhausted)
  from assms(2) have "\<exists>r. chat_completion E body 0 = ApiError r"
    "\<exists>r. chat_completion E body 1 = ApiError r"
    by simp_all
  then have n: "length (filter is_api_call (api_events (chat_completion E body) 2)) = 3"
    by (auto simp: api_calls_count)
  show ?thesis
  proof (cases rule: process_paper_cases [where E=E and p=p and dirs=dirs and fp=fp and st=st and w=w])
    case fetch_failed
    with assms show ?thesis by simp
  next
    case skipped
    with assms show ?thesis by (simp add: is_processed_def)
  next
    case extraction_failed
    with assms show ?thesis by simp
  next
    case (summarization_failed body')
    with assms n show ?thesis by (simp add: new_events_def)
  next
    case (publish_failed body' content e)
    with assms fs show ?thesis by simp
  next
    case (published body' content tweet_id)
    with assms fs show ?thesis by simp
  next
    case (publish_skipped body' content)
    with assms fs show ?thesis by simp
  qed
qed

lemma process_paper_call_counts:
  "length (filter is_http_get (new_events w (snd (process_paper E p dirs fp st w)))) \<le> 1
   \<and> length (filter is_extract (new_events w (snd (process_paper E p dirs fp st w)))) \<le> 1
   \<and> length (filter is_create_tweet (new_events w (snd (process_paper E p dirs fp st w)))) \<le> 1
   \<and> length (filter is_api_call (new_events w (snd (process_paper E p dirs fp st w)))) \<le> 3"
proof (cases rule: process_paper_cases [where E=E and p=p and dirs=dirs and fp=fp and st=st and w=w])
  case fetch_failed
  then show ?thesis by (simp add: new_events_def)
next
  case skipped
  then show ?thesis by (simp add: new_events_def)
next
  case extraction_failed
  then show ?thesis by (simp add: new_events_def)
next
  case (summarization_failed body)
  then show ?thesis using api_calls_bound [of "chat_completion E body" 2]
    by (simp add: new_events_def)
next
  case (publish_failed body content e)
  then show ?thesis using api_calls_bound [of "chat_completion E body" 2]
    by (simp add: new_events_def)
next
  case (published body content tweet_id)
  then show ?thesis using api_calls_bound [of "chat_completion E body" 2]
    by (simp add: new_events_def)
next
  case (publish_skipped body content)
  then show ?thesis using api_calls_bound [of "chat_completion E body" 2]
    by (simp add: new_events_def)
qed

text \<open>
  C5. \<^verbatim>\<open>generate_summary\<close> calls the API at least once and at most three times: once more
  after each failure, until a call succeeds or three have failed. Between consecutive calls
  it sleeps 2 and then 4 seconds. When all three calls fail it returns \<^verbatim>\<open>None\<close>. Removing
  the rate-limit signal from every failure changes neither the result nor the events, apart
  from the wording of the warning. In \<^verbatim>\<open>process_paper\<close> three failed calls end the run with
  \<^verbatim>\<open>False\<close> and no marker. A run of \<^verbatim>\<open>process_paper\<close> makes at most one HTTP request, one
  text extraction and one publish call.
\<close>

theorem summarization_retry_policy:
  "1 \<le> length (filter is_api_call (new_events w (snd (generate_summary E body t aid w))))
   \<and> length (filter is_api_call (new_events w (snd (generate_summary E body t aid w)))) \<le> 3
   \<and> length (filter is_api_call (new_events w (snd (generate_summary E body t aid w))))
       = (if \<exists>c. chat_completion E body 0 = ApiOk c then 1
          else if \<exists>c. chat_completion E body 1 = ApiOk c then 2 else 3)
   \<and> sleeps (new_events w (snd (generate_summary E body t aid w)))
       = take (length (filter is_api_call (new_events w (snd (generate_summary E body t aid w)))) - 1)
           [2, 4]
   \<and> ((\<forall>n<3. \<exists>r. chat_completion E body n = ApiError r) \<longrightarrow>
         fst (generate_summary E body t aid w) = None)
   \<and> fst (generate_summary (E\<lparr>chat_completion := \<lambda>x n. without_signal (chat_completion E x n)\<rparr>)
            body t aid w) = fst (generate_summary E body t aid w)
   \<and> new_events w (snd (generate_summary
          (E\<lparr>chat_completion := \<lambda>x n. without_signal (chat_completion E x n)\<rparr>) body t aid w))
       = map event_without_signal (new_events w (snd (generate_summary E body t aid w)))
   \<and> (pdf_text E (pdf_filename p) = Some body
        \<and> (\<forall>n<3. \<exists>r. chat_completion E body n = ApiError r)
        \<and> (pdf_filename p \<in> dl_files w (d_dl dirs) \<or> http_ok E p)
        \<and> (\<not> is_processed (splitext_stem (pdf_filename p)) w None \<or> fp) \<longrightarrow>
          fst (process_paper E p dirs fp st w) = False
          \<and> processed_files (snd (process_paper E p dirs fp st w)) = processed_files w
          \<and> length (filter is_api_call (new_events w (snd (process_paper E p dirs fp st w)))) = 3)
   \<and> length (filter is_http_get (new_events w (snd (process_paper E p dirs fp st w)))) \<le> 1
   \<and> length (filter is_extract (new_events w (snd (process_paper E p dirs fp st w)))) \<le> 1
   \<and> length (filter is_create_tweet (new_events w (snd (process_paper E p dirs fp st w)))) \<le> 1
   \<and> length (filter is_api_call (new_events w (snd (process_paper E p dirs fp st w)))) \<le> 3"
proof -
  have ex: "(\<forall>n<3. \<exists>r. chat_completion E body n = ApiError r) \<longrightarrow>
         fst (generate_summary E body t aid w) = None"
    by (simp add: generate_summary_failed first_success_exhausted)
  have sl: "sleeps (api_events (chat_completion E body) 2)
      = take (length (filter is_api_call (api_events (chat_completion E body) 2)) - 1) [2, 4]"
    using api_sleeps [of "chat_completion E body" 2] by simp
  have ws: "new_events w (snd (generate_summary
          (E\<lparr>chat_completion := \<lambda>x n. without_signal (chat_completion E x n)\<rparr>) body t aid w))
       = map event_without_signal (new_events w (snd (generate_summary E body t aid w)))"
    by (simp add: generate_summary_events api_events_without_signal)
  have pp: "pdf_text E (pdf_filename p) = Some body
        \<and> (\<forall>n<3. \<exists>r. chat_completion E body n = ApiError r)
        \<and> (pdf_filename p \<in> dl_files w (d_dl dirs) \<or> http_ok E p)
        \<and> (\<not> is_processed (splitext_stem (pdf_filename p)) w None \<or> fp) \<longrightarrow>
          fst (process_paper E p dirs fp st w) = False
          \<and> processed_files (snd (process_paper E p dirs fp st w)) = processed_files w
          \<and> length (filter is_api_call (new_events w (snd (process_paper E p dirs fp st w)))) = 3"
    using process_paper_exhausted [of E p body w dirs fp st] by blast
  show ?thesis
    unfolding generate_summary_events
    using api_calls_bound [of "chat_completion E body" 2]
      api_calls_count [of "chat_completion E body" 2] sl ex ws pp
      generate_summary_without_signal [of E body t aid w]
      process_paper_call_counts [of w E p dirs fp st]
    unfolding generate_summary_events
    by (intro conjI) (simp_all only: simp_thms)
qed


text \<open>
  The theorem at an API that fails three times, the second time with the rate-limit signal.
\<close>

theorem summarization_retry_policy_witness:
  "fst (generate_summary no_summary_env (ascii ''body'') (ascii ''A'') None empty_world) = None
   \<and> sleeps (new_events empty_world
        (snd (generate_summary no_summary_env (ascii ''body'') (ascii ''A'') None empty_world)))
       = [2, 4]
   \<and> fst (process_paper no_summary_env paper1 dirs1 False False empty_world) = False
   \<and> processed_files (snd (process_paper no_summary_env paper1 dirs1 False False empty_world))
       = Map.empty"
proof -
  note T = summarization_retry_policy [where E = no_summary_env and body = "ascii ''body''"
      and t = "ascii ''A''" and aid = None and w = empty_world and p = paper1 and dirs = dirs1
      and fp = False and st = False]
  note T3 = T [THEN conjunct2, THEN conjunct2, THEN conjunct1]
  note T4 = T [THEN conjunct2, THEN conjunct2, THEN conjunct2, THEN conjunct1]
  note T5 = T [THEN conjunct2, THEN conjunct2, THEN conjunct2, THEN conjunct2, THEN conjunct1]
  note T8 = T [THEN conjunct2, THEN conjunct2, THEN conjunct2, THEN conjunct2, THEN conjunct2,
      THEN conjunct2, THEN conjunct2, THEN conjunct1]
  have fails: "\<forall>n<3. \<exists>r. chat_completion no_summary_env (ascii ''body'') n = ApiError r"
    by (simp add: no_summary_env_def good_env_def)
  have calls: "length (filter is_api_call (new_events empty_world
      (snd (generate_summary no_summary_env (ascii ''body'') (ascii ''A'') None empty_world)))) = 3"
    using T3 by (simp add: no_summary_env_def good_env_def)
  from T5 fails have a: "fst (generate_summary no_summary_env (ascii ''body'') (ascii ''A'') None
      empty_world) = None"
    by (rule mp)
  from T4 calls have b: "sleeps (new_events empty_world
        (snd (generate_summary no_summary_env (ascii ''body'') (ascii ''A'') None empty_world)))
       = [2, 4]"
    by simp
  have pre: "pdf_text no_summary_env (pdf_filename paper1) = Some (ascii ''body'')
        \<and> (\<forall>n<3. \<exists>r. chat_completion no_summary_env (ascii ''body'') n = ApiError r)
        \<and> (pdf_filename paper1 \<in> dl_files empty_world (d_dl dirs1) \<or> http_ok no_summary_env paper1)
        \<and> (\<not> is_processed (splitext_stem (pdf_filename paper1)) empty_world None \<or> False)"
    using fails by (simp add: no_summary_env_def good_env_def is_processed_def empty_world_def)
  from T8 pre have c: "fst (process_paper no_summary_env paper1 dirs1 False False empty_world) = False
          \<and> processed_files (snd (process_paper no_summary_env paper1 dirs1 False False empty_world))
             = processed_files empty_world
          \<and> length (filter is_api_call (new_events empty_world
               (snd (process_paper no_summary_env paper1 dirs1 False False empty_world)))) = 3"
    by (rule mp)
  from a b c show ?thesis by (simp add: empty_world_def)
qed

section \<open>The processing loop of a batch\<close>

lemma process_paper_grows: "grows w (snd (process_paper E p dirs fp st w))"
  by (cases rule: process_paper_cases [where E=E and p=p and dirs=dirs and fp=fp and st=st and w=w])
    (simp_all add: grows_def)

lemma sleep_grows: "grows w (sleep n w)"
  by (simp add: grows_def sleep_def)

lemma new_events_sleep:
  assumes "grows w w1"
  shows "new_events w (sleep n w1) = new_events w w1 @ [Sleep n]"
proof -
  have "trace (sleep n w1) = trace w @ (new_events w w1 @ [Sleep n])"
    using grows_trace [OF assms] by (simp add: sleep_def)
  then show ?thesis by (rule new_events_append)
qed

lemma process_paper_silent:
  "filter is_create_tweet (new_events w (snd (process_paper E p dirs fp True w))) = []"
  by (cases rule: process_paper_cases [where E=E and p=p and dirs=dirs and fp=fp and st=True and w=w])
    (simp_all add: new_events_def)

lemma process_silently_grows: "grows w (snd (process_silently E fp dirs ps w))"
proof (induction ps arbitrary: w)
  case Nil
  then show ?case by simp
next
  case (Cons q ps)
  have "grows w (sleep 5 (snd (process_paper E q dirs fp True w)))"
    by (rule grows_trans [OF process_paper_grows sleep_grows])
  from grows_trans [OF this Cons.IH] show ?case
    by (simp add: case_prod_beta)
qed

lemma process_silently_silent:
  "filter is_create_tweet (new_events w (snd (process_silently E fp dirs ps w))) = []"
proof (induction ps arbitrary: w)
  case Nil
  then show ?case by simp
next
  case (Cons q ps)
  let ?w1 = "snd (process_paper E q dirs fp True w)"
  have g: "grows w (sleep 5 ?w1)"
    by (rule grows_trans [OF process_paper_grows sleep_grows])
  have "new_events w (snd (process_silently E fp dirs ps (sleep 5 ?w1)))
      = (new_events w ?w1 @ [Sleep 5]) @ new_events (sleep 5 ?w1) (snd (process_silently E fp dirs ps (sleep 5 ?w1)))"
    using new_events_trans [OF g process_silently_grows] new_events_sleep [OF process_paper_grows]
    by simp
  then show ?case
    using Cons.IH [of "sleep 5 ?w1"] process_paper_silent [of w E q dirs fp]
    by (simp add: case_prod_beta)
qed

lemma process_papers_silently:
  "a_skip_twitter args \<or> i + length ps < n \<Longrightarrow>
     process_papers E args dirs n i ps w = process_silently E (a_force_process args) dirs ps w"
proof (induction ps arbitrary: i w)
  case Nil
  then show ?case by simp
next
  case (Cons q ps)
  then have "a_skip_twitter args \<or> Suc i + length ps < n" by auto
  from Cons.IH [OF this] Cons.prems show ?case
    by (auto simp: Let_def case_prod_beta)
qed

lemma process_papers_append:
  "process_papers E args dirs n i (ps @ qs) w =
     (case process_papers E args dirs n i ps w of
        (ss, w1) \<Rightarrow>
          (case process_papers E args dirs n (i + length ps) qs w1 of
             (ss', w2) \<Rightarrow> (ss @ ss', w2)))"
  by (induction ps arbitrary: i w) (simp_all add: Let_def case_prod_beta)

lemma process_papers_last:
  "process_papers E args dirs (length (ps @ [q])) 0 (ps @ [q]) w =
     (case process_silently E (a_force_process args) dirs ps w of
        (ss, w1) \<Rightarrow>
          (case process_paper E q dirs (a_force_process args) (a_skip_twitter args) w1 of
             (s, w2) \<Rightarrow> (ss @ [s], sleep 5 w2)))"
  by (simp add: process_papers_append process_papers_silently Let_def case_prod_beta)

lemma process_paper_publish_call:
  "(\<exists>t. filter is_create_tweet (new_events w (snd (process_paper E p dirs fp False w)))
        = [CreateTweet t])
     \<longleftrightarrow> reaches_publish E p dirs fp w"
  by (cases rule: process_paper_cases [where E=E and p=p and dirs=dirs and fp=fp and st=False and w=w])
    (auto simp: new_events_def reaches_publish_def)

lemma process_paper_skipped_log:
  "reaches_publish E p dirs fp w \<Longrightarrow>
     \<exists>log_data. log_files (snd (process_paper E p dirs fp True w)) (d_logs dirs)
         (splitext_stem (pdf_filename p) @ ascii ''_twitter_log.json'') = Some log_data
       \<and> l_tweets log_data = [] \<and> l_error log_data = None
       \<and> l_arxiv_id log_data = Some (splitext_stem (pdf_filename p))"
  by (cases rule: process_paper_cases [where E=E and p=p and dirs=dirs and fp=fp and st=True and w=w])
    (auto simp: reaches_publish_def)

section \<open>The publish policy of a batch\<close>

lemma process_paper_not_published:
  assumes "\<not> reaches_publish E p dirs fp w"
  shows "filter is_create_tweet (new_events w (snd (process_paper E p dirs fp st w))) = []
     \<and> processed_files (snd (process_paper E p dirs fp st w)) = processed_files w
     \<and> log_files (snd (process_paper E p dirs fp st w)) = log_files w
     \<and> id_files (snd (process_paper E p dirs fp st w)) = id_files w
     \<and> fs (snd (process_paper E p dirs fp st w)) = fs w
     \<and> (fst (process_paper E p dirs fp st w) \<longrightarrow>
          processed_files w (splitext_stem (pdf_filename p)) \<noteq> None \<and> \<not> fp)"
  using assms
  by (cases rule: process_paper_cases [where E=E and p=p and dirs=dirs and fp=fp and st=st and w=w])
    (auto simp: new_events_def reaches_publish_def)

text \<open>
  C4 (as amended). In the processing loop over the selected papers every paper but the last
  is run with publish skipped, and the last with the global skip flag as its skip flag. A
  paper run with publish skipped makes no publish call. A paper run with publish enabled
  makes one publish call if it reaches the publish stage and none otherwise. With the global
  skip flag set the whole batch makes no publish call. A paper run with publish skipped that
  reaches the publish stage gets a log record without tweets and without an error.
\<close>

theorem batch_publish_policy:
  "process_papers E args dirs (length (ps @ [q])) 0 (ps @ [q]) w
     = (case process_silently E (a_force_process args) dirs ps w of
          (ss, w1) \<Rightarrow>
            (case process_paper E q dirs (a_force_process args) (a_skip_twitter args) w1 of
               (s, w2) \<Rightarrow> (ss @ [s], sleep 5 w2)))
   \<and> filter is_create_tweet (new_events w (snd (process_silently E fp dirs ps w))) = []
   \<and> filter is_create_tweet (new_events w (snd (process_paper E p dirs fp True w))) = []
   \<and> ((\<exists>t. filter is_create_tweet (new_events w (snd (process_paper E p dirs fp False w)))
             = [CreateTweet t])
        \<longleftrightarrow> reaches_publish E p dirs fp w)
   \<and> (\<not> reaches_publish E p dirs fp w \<longrightarrow>
        filter is_create_tweet (new_events w (snd (process_paper E p dirs fp False w))) = [])
   \<and> (a_skip_twitter args \<longrightarrow>
        filter is_create_tweet (new_events w (snd (process_papers E args dirs n i ps w))) = [])
   \<and> (reaches_publish E p dirs fp w \<longrightarrow>
        (\<exists>log_data. log_files (snd (process_paper E p dirs fp True w)) (d_logs dirs)
             (splitext_stem (pdf_filename p) @ ascii ''_twitter_log.json'') = Some log_data
           \<and> l_tweets log_data = [] \<and> l_error log_data = None
           \<and> l_arxiv_id log_data = Some (splitext_stem (pdf_filename p))))"
proof -
  have skip: "a_skip_twitter args \<longrightarrow>
        filter is_create_tweet (new_events w (snd (process_papers E args dirs n i ps w))) = []"
    by (simp add: process_papers_silently process_silently_silent)
  show ?thesis
    using process_papers_last [of E args dirs ps q w]
      process_silently_silent [of w E fp dirs ps]
      process_paper_silent [of w E p dirs fp]
      process_paper_publish_call [of w E p dirs fp]
      process_paper_not_published [of E p dirs fp w False]
      process_paper_skipped_log [of E p dirs fp w] skip
    by (intro conjI impI) (simp_all only: simp_thms)
qed

lemma reaches_publish_good:
  "reaches_publish good_env paper1 dirs1 False empty_world"
  by (simp add: reaches_publish_def good_env_def empty_world_def first_success_def)

text \<open>
  The theorem at a batch of two papers with the global skip flag set, and at a skipped paper
  that reaches the publish stage.
\<close>

theorem batch_publish_policy_witness:
  "filter is_create_tweet (new_events empty_world
       (snd (process_papers good_env (args1\<lparr>a_skip_twitter := True\<rparr>) dirs1 2 0 [paper1, paper2]
          empty_world))) = []
   \<and> map_option l_tweets
       (log_files (snd (process_paper good_env paper1 dirs1 False True empty_world))
          (ascii ''./logs'') (ascii ''2401.1v1_twitter_log.json'')) = Some []"
proof -
  note T = batch_publish_policy [where args = "args1\<lparr>a_skip_twitter := True\<rparr>" and E = good_env
      and dirs = dirs1 and n = 2 and i = 0 and ps = "[paper1, paper2]" and w = empty_world
      and p = paper1 and fp = False]
  note T6 = T [THEN conjunct2, THEN conjunct2, THEN conjunct2, THEN conjunct2, THEN conjunct2,
      THEN conjunct1]
  note T7 = T [THEN conjunct2, THEN conjunct2, THEN conjunct2, THEN conjunct2, THEN conjunct2,
      THEN conjunct2]
  have "a_skip_twitter (args1\<lparr>a_skip_twitter := True\<rparr>)" by simp
  with T6 have a: "filter is_create_tweet (new_events empty_world
       (snd (process_papers good_env (args1\<lparr>a_skip_twitter := True\<rparr>) dirs1 2 0 [paper1, paper2]
          empty_world))) = []"
    by (rule mp)
  have n: "splitext_stem (pdf_filename paper1) @ ascii ''_twitter_log.json''
      = ascii ''2401.1v1_twitter_log.json''"
    by simp (simp add: ascii_def)
  have d: "d_logs dirs1 = ascii ''./logs''" by (simp add: dirs1_def)
  from T7 reaches_publish_good obtain log_data where
    "log_files (snd (process_paper good_env paper1 dirs1 False True empty_world)) (d_logs dirs1)
         (splitext_stem (pdf_filename paper1) @ ascii ''_twitter_log.json'') = Some log_data"
    "l_tweets log_data = []"
    by blast
  then have b: "map_option l_tweets
       (log_files (snd (process_paper good_env paper1 dirs1 False True empty_world))
          (ascii ''./logs'') (ascii ''2401.1v1_twitter_log.json'')) = Some []"
    unfolding n d by simp
  from a b show ?thesis by (rule conjI)
qed

text \<open>
  C4 as first stated: a batch of one paper, publish enabled, whose summarization fails on
  all three attempts. The last paper of the batch has no publish call.
\<close>

theorem batch_publish_policy_counterexample:
  "\<not> a_skip_twitter args1
   \<and> filter is_create_tweet (new_events empty_world
       (snd (process_papers no_summary_env args1 dirs1 (length [paper1]) 0 [paper1] empty_world)))
     = []"
proof -
  have nr: "\<not> reaches_publish no_summary_env paper1 dirs1 False empty_world"
    by (simp add: reaches_publish_def no_summary_env_def good_env_def first_success_def)
  let ?w1 = "snd (process_paper no_summary_env paper1 dirs1 False False empty_world)"
  have "new_events empty_world (sleep 5 ?w1) = new_events empty_world ?w1 @ [Sleep 5]"
    by (rule new_events_sleep [OF process_paper_grows])
  with process_paper_not_published [OF nr, of False] show ?thesis
    by (simp add: args1_def case_prod_beta)
qed

section \<open>What a batch reports\<close>

lemma setup_directories_args1: "setup_directories args1 empty_world = dirs1"
  by (simp add: setup_directories_def args1_def empty_world_def dirs1_def)

lemma select_paper1:
  "select_papers no_summary_env args1 dirs1 {} 9999 [paper1] (0, [], {}) empty_world
     = ((1, [paper1], {ascii ''2401.1v1''}),
        snd (download_pdf no_summary_env paper1 (ascii ''./dl'') False empty_world))"
  by (simp add: is_processed_def empty_world_def copy_pdf_if_exists_def no_summary_env_def
      good_env_def dirs1_def args1_def download_pdf_eq)

lemma fetched_paper1:
  "snd (download_pdf no_summary_env paper1 (ascii ''./dl'') False empty_world)
     = empty_world\<lparr>dl_files := (\<lambda>d. {})(ascii ''./dl'' := {ascii ''2401.1v1.pdf''}),
         clock := 7, trace := [Sleep 5, HttpGet (ascii ''2401.1v1.pdf''), Sleep 2]\<rparr>"
  by (simp add: download_pdf_eq download_events_def empty_world_def no_summary_env_def
      good_env_def)

lemma no_summary_not_published:
  "\<not> reaches_publish no_summary_env paper1 dirs1 fp w"
  by (simp add: reaches_publish_def no_summary_env_def good_env_def first_success_def)

lemma process_papers_single:
  "process_papers E args dirs (Suc 0) 0 [p] w
     = ([fst (process_paper E p dirs (a_force_process args) (a_skip_twitter args) w)],
        sleep 5 (snd (process_paper E p dirs (a_force_process args) (a_skip_twitter args) w)))"
  by (simp add: case_prod_beta Let_def)

lemma twitter_posted_loop_eq:
  "i + length ps = n \<Longrightarrow> twitter_posted_loop args n i ps = (\<not> a_skip_twitter args \<and> ps \<noteq> [])"
  by (induction ps arbitrary: i) auto

text \<open>
  Whenever \<^verbatim>\<open>main\<close> gets as far as its report, the report is fixed by the selection and
  the skip flag: the count is the number of selected papers and the indicator is the negated
  flag, whatever \<^verbatim>\<open>process_paper\<close> returned.
\<close>

lemma main_report:
  assumes "fst (main E args w) = (rc, Some rep)"
  shows "rep_twitter_posted rep = (\<not> a_skip_twitter args)"
proof -
  from assms show ?thesis
    by (simp add: main_def Let_def case_prod_beta twitter_posted_loop_eq
        split: option.splits if_splits del: select_papers.simps process_papers.simps)
      (auto simp del: select_papers.simps process_papers.simps)
qed

lemma select_papers_count:
  "fst (fst (select_papers E args dirs pids m ps (c, sel, new) w)) + length sel
     = c + length (fst (snd (fst (select_papers E args dirs pids m ps (c, sel, new) w))))"
proof (induction ps arbitrary: c sel new w)
  case Nil
  then show ?case by simp
next
  case (Cons a ps)
  have more: "fst (fst (select_papers E args dirs pids m ps (Suc c, sel @ [a], new') w')) + length sel
      = c + length (fst (snd (fst (select_papers E args dirs pids m ps (Suc c, sel @ [a], new') w'))))"
    for new' w'
    using Cons.IH [of "Suc c" "sel @ [a]" new' w'] by simp
  show ?case
    by (simp add: Let_def case_prod_beta more Cons.IH split: bool.splits)
qed

lemma main_report_count:
  assumes "fst (main E args w) = (rc, Some rep)"
  shows "rep_processed_count rep
     = length (fst (snd (fst (select_papers E args (setup_directories args w)
          (case a_processed_ids_file args of
             None \<Rightarrow> {}
           | Some f \<Rightarrow> if f \<noteq> [] then (case id_files w f of None \<Rightarrow> {} | Some ids \<Rightarrow> ids) else {})
          (if a_test_mode args then 1 else a_max_process args)
          (the (search_arxiv E (a_keywords args) (a_max_results args) (a_use_or args)
             (a_since_timestamp args) (a_last_paper_id args)))
          (0, [], {}) w))))"
  using assms
    select_papers_count [of E args "setup_directories args w" _ _ _ 0 "[]" "{}" w]
  by (simp add: main_def Let_def case_prod_beta
      split: option.splits if_splits del: select_papers.simps process_papers.simps)
    (auto simp del: select_papers.simps process_papers.simps)

text \<open>
  C9, at an input where the code departs from it. One paper is found and selected, and its
  summarization fails on all three attempts. The only \<^verbatim>\<open>process_paper\<close> call returns
  \<^verbatim>\<open>False\<close>, no publish call is made and no marker is written; yet \<^verbatim>\<open>main\<close> reports one
  processed paper and a posted tweet, and writes the identifier to the file of newly
  processed identifiers.
\<close>

theorem batch_report_ignores_outcomes:
  "fst (main no_summary_env args1 empty_world)
     = (0, Some \<lparr>rep_processed_count = 1, rep_found = 1, rep_twitter_posted = True\<rparr>)
   \<and> fst (process_papers no_summary_env args1 dirs1 1 0 [paper1]
        (snd (select_papers no_summary_env args1 dirs1 {} 9999 [paper1] (0, [], {}) empty_world)))
     = [False]
   \<and> filter is_create_tweet (trace (snd (main no_summary_env args1 empty_world))) = []
   \<and> processed_files (snd (main no_summary_env args1 empty_world)) = Map.empty
   \<and> id_files (snd (main no_summary_env args1 empty_world)) (ascii ''out.txt'')
     = Some {ascii ''2401.1v1''}"
proof -
  let ?E = no_summary_env
  let ?w1 = "snd (download_pdf ?E paper1 (ascii ''./dl'') False empty_world)"
  let ?r = "process_paper ?E paper1 dirs1 False False ?w1"
  have search: "search_arxiv ?E (a_keywords args1) (a_max_results args1) (a_use_or args1)
      (a_since_timestamp args1) (a_last_paper_id args1) = Some [paper1]"
    by (simp add: search_arxiv_def args1_def no_summary_env_def good_env_def)
  have args: "a_test_mode args1 = False" "a_max_process args1 = 9999"
    "a_processed_ids_file args1 = None" "a_force_process args1 = False"
    "a_skip_twitter args1 = False" "a_output_processed_ids args1 = Some (ascii ''out.txt'')"
    by (simp_all add: args1_def)
  have out: "ascii ''out.txt'' \<noteq> []" by (simp add: ascii_def)
  have m: "main ?E args1 empty_world
      = ((0, Some \<lparr>rep_processed_count = 1, rep_found = 1, rep_twitter_posted = True\<rparr>),
         (sleep 5 (snd ?r))\<lparr>id_files := (id_files (sleep 5 (snd ?r)))
             (ascii ''out.txt'' \<mapsto> {ascii ''2401.1v1''})\<rparr>)"
    by (simp add: main_def setup_directories_args1 search args select_paper1 Let_def
        case_prod_beta process_papers_single out del: select_papers.simps process_papers.simps)
  note np = process_paper_not_published [OF no_summary_not_published,
      where fp = False and w = ?w1 and st = False]
  have w1p: "processed_files ?w1 = Map.empty"
    unfolding fetched_paper1 by (simp add: empty_world_def)
  have w1t: "trace ?w1 = [Sleep 5, HttpGet (ascii ''2401.1v1.pdf''), Sleep 2]"
    by (simp add: fetched_paper1)
  have f: "fst ?r = False"
    using np w1p by auto
  have tr: "trace (snd ?r) = trace ?w1 @ new_events ?w1 (snd ?r)"
    by (rule grows_trace [OF process_paper_grows])
  have a: "filter is_create_tweet (trace (snd ?r)) = []"
    unfolding tr using np w1t by simp
  have b: "processed_files (snd ?r) = Map.empty"
    using np w1p by simp
  show ?thesis
    unfolding m select_paper1
    using f a b by (simp add: sleep_def args process_papers_single del: process_papers.simps)
qed

section \<open>The download directory link: properties\<close>

lemma follow_numeral:
  "follow (numeral k) f p =
     (case f p of
        None \<Rightarrow> None
      | Some (Symlink t) \<Rightarrow> follow (pred_numeral k) f t
      | Some Directory \<Rightarrow> Some Directory
      | Some RegularFile \<Rightarrow> Some RegularFile)"
  by (simp add: numeral_eq_Suc)

lemma pdf_dir_not_dl: "generate_pdf_dir_name kws now \<noteq> ascii ''./dl''"
proof
  assume "generate_pdf_dir_name kws now = ascii ''./dl''"
  then have "take 4 (generate_pdf_dir_name kws now) = take 4 (ascii ''./dl'')"
    by simp
  then show False
    by (simp add: generate_pdf_dir_name_def ascii_def split: if_splits)
qed

lemma below_irrefl: "\<not> below p p"
  by (simp add: below_def ascii_def)

text \<open>
  C10, at an input where the code departs from it. \<^verbatim>\<open>./dl\<close> is a symbolic link whose target
  no longer exists. \<^verbatim>\<open>os.path.exists\<close> is false for it, so it is not unlinked, and
  \<^verbatim>\<open>os.symlink\<close> raises: the run of the keyword set ends with an exception and \<^verbatim>\<open>./dl\<close>
  still points to the old target.
\<close>

theorem dangling_link_is_not_replaced:
  "fst (setup_pdf_directory [ascii ''q''] dangling_world) = None
   \<and> fs (snd (setup_pdf_directory [ascii ''q''] dangling_world)) (ascii ''./dl'')
       = Some (Symlink (ascii ''./pdf/old''))
   \<and> path_islink (fs dangling_world) (ascii ''./dl'')
   \<and> \<not> path_exists (fs dangling_world) (ascii ''./dl'')"
  by (simp add: setup_pdf_directory_def dangling_world_def empty_world_def
      generate_pdf_dir_name_def makedirs_def path_exists_def path_islink_def follow_numeral
      ascii_def Let_def)

text \<open>
  What \<^verbatim>\<open>setup_pdf_directory\<close> does in the other cases: when nothing stands at \<^verbatim>\<open>./dl\<close>,
  when a symbolic link with an existing target stands there, and when a directory stands
  there, \<^verbatim>\<open>./dl\<close> becomes a link to the keyword set's PDF directory. A link is removed
  alone; a directory is removed with everything below it.
\<close>

lemma setup_pdf_directory_repoints:
  assumes "makedirs (generate_pdf_dir_name kws (clock w)) (fs w) = Some f1"
    and "f1 (ascii ''./dl'') = None
         \<or> (\<exists>t. f1 (ascii ''./dl'') = Some (Symlink t) \<and> path_exists f1 (ascii ''./dl''))
         \<or> f1 (ascii ''./dl'') = Some Directory"
  shows "fst (setup_pdf_directory kws w) = Some (generate_pdf_dir_name kws (clock w))
     \<and> fs (snd (setup_pdf_directory kws w)) (ascii ''./dl'')
         = Some (Symlink (generate_pdf_dir_name kws (clock w)))
     \<and> (f1 (ascii ''./dl'') \<noteq> Some Directory \<longrightarrow>
          (\<forall>q. q \<noteq> ascii ''./dl'' \<longrightarrow> fs (snd (setup_pdf_directory kws w)) q = f1 q)
          \<and> dl_files (snd (setup_pdf_directory kws w)) = dl_files w)
     \<and> (f1 (ascii ''./dl'') = Some Directory \<longrightarrow>
          (\<forall>q. below (ascii ''./dl'') q \<longrightarrow> fs (snd (setup_pdf_directory kws w)) q = None)
          \<and> dl_files (snd (setup_pdf_directory kws w)) (ascii ''./dl'') = {})"
proof -
  have ex: "f1 (ascii ''./dl'') = Some Directory \<Longrightarrow> path_exists f1 (ascii ''./dl'')"
    by (simp add: path_exists_def follow_numeral)
  have nex: "f1 (ascii ''./dl'') = None \<Longrightarrow> \<not> path_exists f1 (ascii ''./dl'')"
    by (simp add: path_exists_def follow_numeral)
  from assms(2) show ?thesis
  proof (elim disjE exE conjE)
    assume "f1 (ascii ''./dl'') = None"
    with nex assms(1) show ?thesis
      by (simp add: setup_pdf_directory_def Let_def)
  next
    fix t
    assume "f1 (ascii ''./dl'') = Some (Symlink t)" "path_exists f1 (ascii ''./dl'')"
    with assms(1) show ?thesis
      by (simp add: setup_pdf_directory_def Let_def path_islink_def)
  next
    assume d: "f1 (ascii ''./dl'') = Some Directory"
    with ex assms(1) show ?thesis
      by (simp add: setup_pdf_directory_def Let_def path_islink_def rmtree_def below_irrefl)
  qed
qed

section \<open>The orchestrator pass\<close>

lemma new_oevents_olog:
  "otrace st' = otrace st @ evs \<Longrightarrow> new_oevents st st' = evs"
  by (simp add: new_oevents_def)

lemma run_all_sets_otrace:
  "\<exists>evs rs. otrace (snd (run_all_sets E cfg pids n i sets (ts, new, results) st)) = otrace st @ evs
     \<and> snd (snd (fst (run_all_sets E cfg pids n i sets (ts, new, results) st))) = results @ rs
     \<and> started evs = map set_id (filter valid_set sets)
     \<and> map fst rs = valid_numbers i sets
     \<and> filter is_failure_log evs = concat (map failure_log rs)
     \<and> filter is_save evs = []
     \<and> timestamp_file (snd (run_all_sets E cfg pids n i sets (ts, new, results) st))
         = timestamp_file st
     \<and> processed_ids_file (snd (run_all_sets E cfg pids n i sets (ts, new, results) st))
         = processed_ids_file st"
proof (induction sets arbitrary: i ts new results st)
  case Nil
  then show ?case by simp
next
  case (Cons s rest)
  show ?case
  proof (cases "valid_set s")
    case False
    then have step: "run_all_sets E cfg pids n i (s # rest) (ts, new, results) st
        = run_all_sets E cfg pids n (i + 1) rest (ts, new, results) (olog (SkipSet (i + 1)) st)"
      by (auto simp: valid_set_def)
    from Cons.IH [of "i + 1" ts new results "olog (SkipSet (i + 1)) st"]
    obtain evs rs where
      "otrace (snd (run_all_sets E cfg pids n (i + 1) rest (ts, new, results)
          (olog (SkipSet (i + 1)) st))) = otrace (olog (SkipSet (i + 1)) st) @ evs"
      "snd (snd (fst (run_all_sets E cfg pids n (i + 1) rest (ts, new, results)
          (olog (SkipSet (i + 1)) st)))) = results @ rs"
      "started evs = map set_id (filter valid_set rest)"
      "map fst rs = valid_numbers (i + 1) rest"
      "filter is_failure_log evs = concat (map failure_log rs)"
      "filter is_save evs = []"
      "timestamp_file (snd (run_all_sets E cfg pids n (i + 1) rest (ts, new, results)
          (olog (SkipSet (i + 1)) st))) = timestamp_file (olog (SkipSet (i + 1)) st)"
      "processed_ids_file (snd (run_all_sets E cfg pids n (i + 1) rest (ts, new, results)
          (olog (SkipSet (i + 1)) st))) = processed_ids_file (olog (SkipSet (i + 1)) st)"
      by blast
    with False show ?thesis
      unfolding step
      by (intro exI [of _ "SkipSet (i + 1) # evs"] exI [of _ rs]) (simp add: olog_def)
  next
    case True
    define r where "r = fst (fst (run_search_set E cfg (ss_keywords s) (ss_output_dir s)
        (ss_max_results s) (ss_tweet_enabled s) ts pids (set_id s)
        (files (olog (StartSet (set_id s)) st))))"
    define ts' where "ts' = snd (fst (run_search_set E cfg (ss_keywords s) (ss_output_dir s)
        (ss_max_results s) (ss_tweet_enabled s) ts pids (set_id s)
        (files (olog (StartSet (set_id s)) st))))"
    define w1 where "w1 = snd (run_search_set E cfg (ss_keywords s) (ss_output_dir s)
        (ss_max_results s) (ss_tweet_enabled s) ts pids (set_id s)
        (files (olog (StartSet (set_id s)) st)))"
    define new' where "new' = (case r of None \<Rightarrow> new | Some (success, ids) \<Rightarrow> new \<union> ids)"
    define st3 where "st3 = (case r of
        None \<Rightarrow> olog (SetRaisedError (i + 1)) ((olog (StartSet (set_id s)) st)\<lparr>files := w1\<rparr>)
      | Some (success, ids) \<Rightarrow>
          if \<not> success
          then olog (SetFailedWarning (i + 1)) ((olog (StartSet (set_id s)) st)\<lparr>files := w1\<rparr>)
          else (olog (StartSet (set_id s)) st)\<lparr>files := w1\<rparr>)"
    define st4 where "st4 = (if i + 1 < n
        then st3\<lparr>files := sleep (c_wait_between_sets cfg) (files st3)\<rparr> else st3)"
    have step: "run_all_sets E cfg pids n i (s # rest) (ts, new, results) st
        = run_all_sets E cfg pids n (i + 1) rest
            (ts', new', results @ [(i + 1, map_option fst r)]) st4"
      using True
      by (simp add: valid_set_def Let_def case_prod_beta r_def ts'_def w1_def new'_def st3_def
          st4_def set_id_def cong: option.case_cong if_cong)
    have st4: "otrace st4 = otrace st @ StartSet (set_id s) # failure_log (i + 1, map_option fst r)"
      "timestamp_file st4 = timestamp_file st" "processed_ids_file st4 = processed_ids_file st"
      by (cases r; cases "fst (the r)"; simp add: st4_def st3_def olog_def case_prod_beta)+
    from Cons.IH [of "i + 1" ts' new' "results @ [(i + 1, map_option fst r)]" st4]
    obtain evs rs where
      "otrace (snd (run_all_sets E cfg pids n (i + 1) rest
          (ts', new', results @ [(i + 1, map_option fst r)]) st4)) = otrace st4 @ evs"
      "snd (snd (fst (run_all_sets E cfg pids n (i + 1) rest
          (ts', new', results @ [(i + 1, map_option fst r)]) st4)))
         = (results @ [(i + 1, map_option fst r)]) @ rs"
      "started evs = map set_id (filter valid_set rest)"
      "map fst rs = valid_numbers (i + 1) rest"
      "filter is_failure_log evs = concat (map failure_log rs)"
      "filter is_save evs = []"
      "timestamp_file (snd (run_all_sets E cfg pids n (i + 1) rest
          (ts', new', results @ [(i + 1, map_option fst r)]) st4)) = timestamp_file st4"
      "processed_ids_file (snd (run_all_sets E cfg pids n (i + 1) rest
          (ts', new', results @ [(i + 1, map_option fst r)]) st4)) = processed_ids_file st4"
      by blast
    with True st4 show ?thesis
      unfolding step
      by (intro exI [of _ "StartSet (set_id s) # failure_log (i + 1, map_option fst r) @ evs"]
          exI [of _ "(i + 1, map_option fst r) # rs"])
        (cases r; cases "fst (the r)"; simp)
  qed
qed


lemma setup_pdf_directory_clock:
  "clock (snd (setup_pdf_directory kws w)) = clock w"
  by (simp add: setup_pdf_directory_def rmtree_def Let_def split: option.splits)

lemma run_search_set_watermark:
  assumes "fst (fst (run_search_set E cfg kws output_dir max_results tweet_enabled ts pids
      sid w)) = Some (True, ids)"
  shows "snd (fst (run_search_set E cfg kws output_dir max_results tweet_enabled ts pids
      sid w)) sid = Some \<lparr>wm_timestamp = Some (clock w), wm_last_paper_id = None\<rparr>"
proof (cases "setup_pdf_directory kws w")
  case (Pair r w1)
  have c: "clock w1 = clock w"
    using setup_pdf_directory_clock [of kws w] Pair by simp
  show ?thesis
  proof (cases r)
    case None
    with Pair assms show ?thesis by (simp add: run_search_set_def)
  next
    case (Some pdf_dir)
    with Pair assms c show ?thesis
      by (simp add: run_search_set_def Let_def case_prod_beta split: if_splits)
  qed
qed

lemma run_all_sets_new_oevents:
  "started (new_oevents st (snd (run_all_sets E cfg pids n i sets (ts, new, results) st)))
     = map set_id (filter valid_set sets)
   \<and> take (length results)
        (snd (snd (fst (run_all_sets E cfg pids n i sets (ts, new, results) st)))) = results
   \<and> map fst (drop (length results)
        (snd (snd (fst (run_all_sets E cfg pids n i sets (ts, new, results) st)))))
     = valid_numbers i sets
   \<and> filter is_failure_log
        (new_oevents st (snd (run_all_sets E cfg pids n i sets (ts, new, results) st)))
     = concat (map failure_log (drop (length results)
         (snd (snd (fst (run_all_sets E cfg pids n i sets (ts, new, results) st))))))
   \<and> filter is_save
        (new_oevents st (snd (run_all_sets E cfg pids n i sets (ts, new, results) st))) = []
   \<and> timestamp_file (snd (run_all_sets E cfg pids n i sets (ts, new, results) st))
       = timestamp_file st
   \<and> processed_ids_file (snd (run_all_sets E cfg pids n i sets (ts, new, results) st))
       = processed_ids_file st"
proof -
  from run_all_sets_otrace [of E cfg pids n i sets ts new results st]
  obtain evs rs where
    "otrace (snd (run_all_sets E cfg pids n i sets (ts, new, results) st)) = otrace st @ evs"
    "snd (snd (fst (run_all_sets E cfg pids n i sets (ts, new, results) st))) = results @ rs"
    "started evs = map set_id (filter valid_set sets)"
    "map fst rs = valid_numbers i sets"
    "filter is_failure_log evs = concat (map failure_log rs)"
    "filter is_save evs = []"
    "timestamp_file (snd (run_all_sets E cfg pids n i sets (ts, new, results) st))
       = timestamp_file st"
    "processed_ids_file (snd (run_all_sets E cfg pids n i sets (ts, new, results) st))
       = processed_ids_file st"
    by blast
  then show ?thesis
    by (simp add: new_oevents_def)
qed

lemma orchestrator_main_eq:
  "c_search_sets c \<noteq> [] \<Longrightarrow>
   orchestrator_main E (Some c) st =
     (snd (run_all_sets E c (case processed_ids_file st of None \<Rightarrow> {} | Some ids \<Rightarrow> ids)
             (length (c_search_sets c)) 0 (c_search_sets c)
             (case timestamp_file st of None \<Rightarrow> Map.empty | Some t \<Rightarrow> t, {}, []) st))
     \<lparr>processed_ids_file :=
         Some ((case processed_ids_file st of None \<Rightarrow> {} | Some ids \<Rightarrow> ids)
           \<union> fst (snd (fst (run_all_sets E c
                (case processed_ids_file st of None \<Rightarrow> {} | Some ids \<Rightarrow> ids)
                (length (c_search_sets c)) 0 (c_search_sets c)
                (case timestamp_file st of None \<Rightarrow> Map.empty | Some t \<Rightarrow> t, {}, []) st)))),
       timestamp_file :=
         Some (fst (fst (run_all_sets E c
                (case processed_ids_file st of None \<Rightarrow> {} | Some ids \<Rightarrow> ids)
                (length (c_search_sets c)) 0 (c_search_sets c)
                (case timestamp_file st of None \<Rightarrow> Map.empty | Some t \<Rightarrow> t, {}, []) st))),
       otrace := otrace (snd (run_all_sets E c
                (case processed_ids_file st of None \<Rightarrow> {} | Some ids \<Rightarrow> ids)
                (length (c_search_sets c)) 0 (c_search_sets c)
                (case timestamp_file st of None \<Rightarrow> Map.empty | Some t \<Rightarrow> t, {}, []) st))
            @ [SaveProcessedIds, SaveTimestamps]\<rparr>"
  by (simp add: orchestrator_main_def Let_def case_prod_beta olog_def
      del: run_all_sets.simps)


lemma started_append: "started (xs @ ys) = started xs @ started ys"
  by (induction xs rule: started.induct) simp_all

lemma orchestrator_main_new_oevents:
  "c_search_sets c \<noteq> [] \<Longrightarrow>
   new_oevents st (orchestrator_main E (Some c) st)
     = new_oevents st (snd (run_all_sets E c (case processed_ids_file st of None \<Rightarrow> {} | Some ids \<Rightarrow> ids)
           (length (c_search_sets c)) 0 (c_search_sets c)
           (case timestamp_file st of None \<Rightarrow> Map.empty | Some t \<Rightarrow> t, {}, []) st))
       @ [SaveProcessedIds, SaveTimestamps]"
proof -
  assume ne: "c_search_sets c \<noteq> []"
  from run_all_sets_otrace [of E c _ _ 0 "c_search_sets c" _ "{}" "[]" st]
  obtain evs where "otrace (snd (run_all_sets E c (case processed_ids_file st of None \<Rightarrow> {} | Some ids \<Rightarrow> ids)
           (length (c_search_sets c)) 0 (c_search_sets c)
           (case timestamp_file st of None \<Rightarrow> Map.empty | Some t \<Rightarrow> t, {}, []) st)) = otrace st @ evs"
    by blast
  then show ?thesis
    by (simp add: orchestrator_main_eq [OF ne] new_oevents_def del: run_all_sets.simps)
qed

lemma run_all_sets_skip:
  "\<not> valid_set s \<Longrightarrow>
   run_all_sets E cfg pids n i (s # rest) (ts, new, results) st
     = run_all_sets E cfg pids n (i + 1) rest (ts, new, results) (olog (SkipSet (i + 1)) st)"
  by (auto simp: valid_set_def)

lemma run_all_sets_step:
  assumes "valid_set s"
  shows "\<exists>new' st4.
     run_all_sets E cfg pids n i (s # rest) (ts, new, results) st
       = run_all_sets E cfg pids n (i + 1) rest
           (snd (fst (run_search_set E cfg (ss_keywords s) (ss_output_dir s) (ss_max_results s)
               (ss_tweet_enabled s) ts pids (set_id s) (files st))),
            new',
            results @ [(i + 1, map_option fst (fst (fst (run_search_set E cfg (ss_keywords s)
               (ss_output_dir s) (ss_max_results s) (ss_tweet_enabled s) ts pids (set_id s)
               (files st)))))]) st4
     \<and> files st4 =
         (if i + 1 < n
          then sleep (c_wait_between_sets cfg)
                 (snd (run_search_set E cfg (ss_keywords s) (ss_output_dir s) (ss_max_results s)
                    (ss_tweet_enabled s) ts pids (set_id s) (files st)))
          else snd (run_search_set E cfg (ss_keywords s) (ss_output_dir s) (ss_max_results s)
                    (ss_tweet_enabled s) ts pids (set_id s) (files st)))"
proof -
  define RS where "RS = run_search_set E cfg (ss_keywords s) (ss_output_dir s)
      (ss_max_results s) (ss_tweet_enabled s) ts pids (set_id s) (files st)"
  define r where "r = fst (fst RS)"
  define new' where "new' = (case r of None \<Rightarrow> new | Some (success, ids) \<Rightarrow> new \<union> ids)"
  define st3 where "st3 = (case r of
      None \<Rightarrow> olog (SetRaisedError (i + 1)) ((olog (StartSet (set_id s)) st)\<lparr>files := snd RS\<rparr>)
    | Some (success, ids) \<Rightarrow>
        if \<not> success
        then olog (SetFailedWarning (i + 1)) ((olog (StartSet (set_id s)) st)\<lparr>files := snd RS\<rparr>)
        else (olog (StartSet (set_id s)) st)\<lparr>files := snd RS\<rparr>)"
  define st4 where "st4 = (if i + 1 < n
      then st3\<lparr>files := sleep (c_wait_between_sets cfg) (files st3)\<rparr> else st3)"
  have f: "\<And>e. files (olog e st) = files st"
    by (simp add: olog_def)
  have step: "run_all_sets E cfg pids n i (s # rest) (ts, new, results) st
      = run_all_sets E cfg pids n (i + 1) rest
          (snd (fst RS), new', results @ [(i + 1, map_option fst r)]) st4"
    using assms
    by (simp add: valid_set_def Let_def case_prod_beta r_def RS_def new'_def st3_def
        st4_def set_id_def f cong: option.case_cong if_cong)
  have "files st3 = snd RS"
    by (cases r; cases "fst (the r)"; simp add: st3_def olog_def case_prod_beta)
  then have "files st4 = (if i + 1 < n then sleep (c_wait_between_sets cfg) (snd RS) else snd RS)"
    by (simp add: st4_def)
  with step show ?thesis
    unfolding RS_def r_def by blast
qed

lemma runs_in_turn_step:
  "valid_set s \<Longrightarrow>
   runs_in_turn E cfg pids n i (s # rest) ts w =
     ((i + 1, map_option fst (fst (fst (run_search_set E cfg (ss_keywords s) (ss_output_dir s)
          (ss_max_results s) (ss_tweet_enabled s) ts pids (set_id s) w))))
        # fst (runs_in_turn E cfg pids n (i + 1) rest
            (snd (fst (run_search_set E cfg (ss_keywords s) (ss_output_dir s)
               (ss_max_results s) (ss_tweet_enabled s) ts pids (set_id s) w)))
            (if i + 1 < n
             then sleep (c_wait_between_sets cfg)
                    (snd (run_search_set E cfg (ss_keywords s) (ss_output_dir s)
                       (ss_max_results s) (ss_tweet_enabled s) ts pids (set_id s) w))
             else snd (run_search_set E cfg (ss_keywords s) (ss_output_dir s)
                       (ss_max_results s) (ss_tweet_enabled s) ts pids (set_id s) w))),
      snd (runs_in_turn E cfg pids n (i + 1) rest
            (snd (fst (run_search_set E cfg (ss_keywords s) (ss_output_dir s)
               (ss_max_results s) (ss_tweet_enabled s) ts pids (set_id s) w)))
            (if i + 1 < n
             then sleep (c_wait_between_sets cfg)
                    (snd (run_search_set E cfg (ss_keywords s) (ss_output_dir s)
                       (ss_max_results s) (ss_tweet_enabled s) ts pids (set_id s) w))
             else snd (run_search_set E cfg (ss_keywords s) (ss_output_dir s)
                       (ss_max_results s) (ss_tweet_enabled s) ts pids (set_id s) w))))"
  by (simp add: case_prod_beta cong: if_cong)

lemma runs_in_turn_skip:
  "\<not> valid_set s \<Longrightarrow>
   runs_in_turn E cfg pids n i (s # rest) ts w = runs_in_turn E cfg pids n (i + 1) rest ts w"
  by simp

lemma run_all_sets_runs_in_turn:
  "snd (snd (fst (run_all_sets E cfg pids n i sets (ts, new, results) st)))
     = results @ fst (runs_in_turn E cfg pids n i sets ts (files st))
   \<and> fst (fst (run_all_sets E cfg pids n i sets (ts, new, results) st))
     = fst (snd (runs_in_turn E cfg pids n i sets ts (files st)))
   \<and> files (snd (run_all_sets E cfg pids n i sets (ts, new, results) st))
     = snd (snd (runs_in_turn E cfg pids n i sets ts (files st)))"
proof (induction sets arbitrary: i ts new results st)
  case Nil
  then show ?case by simp
next
  case (Cons s rest)
  show ?case
  proof (cases "valid_set s")
    case False
    have f: "files (olog (SkipSet (i + 1)) st) = files st"
      by (simp add: olog_def)
    from Cons.IH [of "i + 1" ts new results "olog (SkipSet (i + 1)) st"] False
    show ?thesis
      unfolding run_all_sets_skip [OF False] runs_in_turn_skip [OF False] f by simp
  next
    case True
    from run_all_sets_step [OF True, of E cfg pids n i rest ts new results st]
    obtain new' st4 where
      step: "run_all_sets E cfg pids n i (s # rest) (ts, new, results) st
       = run_all_sets E cfg pids n (i + 1) rest
           (snd (fst (run_search_set E cfg (ss_keywords s) (ss_output_dir s) (ss_max_results s)
               (ss_tweet_enabled s) ts pids (set_id s) (files st))),
            new',
            results @ [(i + 1, map_option fst (fst (fst (run_search_set E cfg (ss_keywords s)
               (ss_output_dir s) (ss_max_results s) (ss_tweet_enabled s) ts pids (set_id s)
               (files st)))))]) st4"
      and f: "files st4 =
         (if i + 1 < n
          then sleep (c_wait_between_sets cfg)
                 (snd (run_search_set E cfg (ss_keywords s) (ss_output_dir s) (ss_max_results s)
                    (ss_tweet_enabled s) ts pids (set_id s) (files st)))
          else snd (run_search_set E cfg (ss_keywords s) (ss_output_dir s) (ss_max_results s)
                    (ss_tweet_enabled s) ts pids (set_id s) (files st)))"
      by blast
    from Cons.IH [of "i + 1" _ new' _ st4]
    show ?thesis
      unfolding step runs_in_turn_step [OF True] f by simp
  qed
qed

lemma run_search_set_other:
  assumes "x \<noteq> sid"
  shows "snd (fst (run_search_set E cfg kws output_dir max_results tweet_enabled ts pids
      sid w)) x = ts x"
proof (cases "setup_pdf_directory kws w")
  case (Pair r w1)
  show ?thesis
  proof (cases r)
    case None
    with Pair show ?thesis by (simp add: run_search_set_def)
  next
    case (Some pdf_dir)
    with Pair assms show ?thesis
      by (simp add: run_search_set_def Let_def case_prod_beta)
  qed
qed

lemma runs_in_turn_keeps:
  "x \<notin> set (map set_id (filter valid_set sets)) \<Longrightarrow>
   fst (snd (runs_in_turn E cfg pids n i sets ts w)) x = ts x"
proof (induction sets arbitrary: i ts w)
  case Nil
  then show ?case by simp
next
  case (Cons s rest)
  show ?case
  proof (cases "valid_set s")
    case False
    with Cons show ?thesis
      unfolding runs_in_turn_skip [OF False] by simp
  next
    case True
    with Cons.prems have ne: "x \<noteq> set_id s"
      and rest: "x \<notin> set (map set_id (filter valid_set rest))"
      by auto
    show ?thesis
      unfolding runs_in_turn_step [OF True]
      by (simp add: Cons.IH [OF rest] run_search_set_other [OF ne])
  qed
qed

lemma runs_in_turn_append:
  "snd (runs_in_turn E cfg pids n i (xs @ ys) ts w)
     = snd (runs_in_turn E cfg pids n (i + length xs) ys
          (fst (snd (runs_in_turn E cfg pids n i xs ts w)))
          (snd (snd (runs_in_turn E cfg pids n i xs ts w))))"
proof (induction xs arbitrary: i ts w)
  case Nil
  then show ?case by simp
next
  case (Cons s rest)
  show ?case
  proof (cases "valid_set s")
    case False
    show ?thesis
      using Cons [of "i + 1" ts w]
      by (simp add: False)
  next
    case True
    show ?thesis
      unfolding append_Cons runs_in_turn_step [OF True]
      by (simp add: Cons)
  qed
qed

lemma runs_in_turn_watermark:
  assumes "valid_set s"
    and "set_id s \<notin> set (map set_id (filter valid_set rest))"
    and "fst (fst (run_search_set E cfg (ss_keywords s) (ss_output_dir s) (ss_max_results s)
          (ss_tweet_enabled s) (fst (snd (runs_in_turn E cfg pids n i pre ts w))) pids (set_id s)
          (snd (snd (runs_in_turn E cfg pids n i pre ts w))))) = Some (True, ids)"
  shows "fst (snd (runs_in_turn E cfg pids n i (pre @ s # rest) ts w)) (set_id s)
     = Some \<lparr>wm_timestamp = Some (clock (snd (snd (runs_in_turn E cfg pids n i pre ts w)))),
             wm_last_paper_id = None\<rparr>"
  unfolding runs_in_turn_append runs_in_turn_step [OF assms(1)]
  by (simp add: runs_in_turn_keeps [OF assms(2)] run_search_set_watermark [OF assms(3)])

text \<open>
  C7. Whatever the runs of the keyword sets return or raise, the loop of the orchestrator
  does what \<open>runs_in_turn\<close> does: the watermark map and the world after the loop are those
  left by one run of every keyword set that has keywords and an output directory, in the
  configured order, each run beginning in the world that the run before it left, after the
  wait; the outcomes that the loop has seen are the outcomes of these runs. So a set that
  failed is not run a second time, and the sets after it are run. The loop announces every
  such set once, in the configured order. The warnings and errors that it logs are, in
  order, one for every run that returned failure or raised, with the number of its keyword
  set, and nothing for a run that succeeded. The same holds for a whole orchestrator pass.
\<close>

theorem keyword_set_failure_is_isolated:
  fixes E cfg pids n i sets ts new results st c
  defines "loop \<equiv> run_all_sets E cfg pids n i sets (ts, new, results) st"
    and "turn \<equiv> runs_in_turn E cfg pids n i sets ts (files st)"
    and "pass_turn \<equiv>
          runs_in_turn E c (case processed_ids_file st of None \<Rightarrow> {} | Some ids \<Rightarrow> ids)
            (length (c_search_sets c)) 0 (c_search_sets c)
            (case timestamp_file st of None \<Rightarrow> Map.empty | Some t \<Rightarrow> t) (files st)"
  shows "started (new_oevents st (snd loop)) = map set_id (filter valid_set sets)
   \<and> map fst (fst turn) = valid_numbers i sets
   \<and> filter is_failure_log (new_oevents st (snd loop)) = concat (map failure_log (fst turn))
   \<and> files (snd loop) = snd (snd turn)
   \<and> fst (fst loop) = fst (snd turn)
   \<and> snd (snd (fst loop)) = results @ fst turn
   \<and> started (new_oevents st (orchestrator_main E (Some c) st))
     = map set_id (filter valid_set (c_search_sets c))
   \<and> filter is_failure_log (new_oevents st (orchestrator_main E (Some c) st))
     = concat (map failure_log (fst pass_turn))
   \<and> files (orchestrator_main E (Some c) st) = snd (snd pass_turn)"
proof -
  note L = run_all_sets_new_oevents [of st E cfg pids n i sets ts new results]
  note R = run_all_sets_runs_in_turn [of E cfg pids n i sets ts new results st]
  note M = run_all_sets_new_oevents [of st E c _ _ 0 "c_search_sets c" _ "{}" "[]"]
  note S = run_all_sets_runs_in_turn [of E c _ _ 0 "c_search_sets c" _ "{}" "[]" st]
  from R have r: "snd (snd (fst loop)) = results @ fst turn"
    "fst (fst loop) = fst (snd turn)" "files (snd loop) = snd (snd turn)"
    by (simp_all add: loop_def turn_def)
  from L have l: "started (new_oevents st (snd loop)) = map set_id (filter valid_set sets)"
    "map fst (drop (length results) (snd (snd (fst loop)))) = valid_numbers i sets"
    "filter is_failure_log (new_oevents st (snd loop))
       = concat (map failure_log (drop (length results) (snd (snd (fst loop)))))"
    by (simp_all add: loop_def)
  from l(2,3) have l': "map fst (fst turn) = valid_numbers i sets"
    "filter is_failure_log (new_oevents st (snd loop)) = concat (map failure_log (fst turn))"
    unfolding r(1) by simp_all
  have a: "started (new_oevents st (orchestrator_main E (Some c) st))
     = map set_id (filter valid_set (c_search_sets c))"
  proof (cases "c_search_sets c = []")
    case True
    then show ?thesis by (simp add: orchestrator_main_def new_oevents_def)
  next
    case False
    from M show ?thesis
      by (simp add: orchestrator_main_new_oevents [OF False] started_append
          del: run_all_sets.simps)
  qed
  have b: "filter is_failure_log (new_oevents st (orchestrator_main E (Some c) st))
     = concat (map failure_log (fst pass_turn))"
  proof (cases "c_search_sets c = []")
    case True
    then show ?thesis by (simp add: orchestrator_main_def new_oevents_def pass_turn_def)
  next
    case False
    from M S show ?thesis
      by (simp add: orchestrator_main_new_oevents [OF False] pass_turn_def
          del: run_all_sets.simps)
  qed
  have d: "files (orchestrator_main E (Some c) st) = snd (snd pass_turn)"
  proof (cases "c_search_sets c = []")
    case True
    then show ?thesis by (simp add: orchestrator_main_def pass_turn_def)
  next
    case False
    from S show ?thesis
      by (simp add: orchestrator_main_eq [OF False] pass_turn_def del: run_all_sets.simps)
  qed
  from l(1) l' r a b d show ?thesis by (simp only: simp_thms)
qed

text \<open>
  C6. A run of a keyword set that returns success leaves, for its keyword set, the clock
  value read when the run began as the watermark. The loop over the keyword sets writes
  neither of the two state files. An orchestrator pass over a non-empty list of keyword sets
  does what the loop does and then saves the processed identifiers and the watermarks, once
  each, as its last two actions: the watermark map the loop ended with, and the loaded
  identifiers together with those the runs returned. For a keyword set \<open>s\<close> anywhere in the
  configured list, with keywords and an output directory, whose identifier is not that of a
  later such set: when the run of \<open>s\<close>, begun in the world that the loop over the sets before
  \<open>s\<close> left, returns success, the watermark file after the pass holds for \<open>s\<close> the clock value
  of that world, the one in which the run of \<open>s\<close> began.
\<close>

theorem watermark_is_run_start_and_saved_once:
  fixes E cfg kws output_dir max_results tweet_enabled ts pids sid w ids n i sets new results st
    c pre s rest ids'
  defines "loaded_ids \<equiv> (case processed_ids_file st of None \<Rightarrow> {} | Some ids \<Rightarrow> ids)"
    and "loaded_timestamps \<equiv> (case timestamp_file st of None \<Rightarrow> Map.empty | Some t \<Rightarrow> t)"
  defines "pass_loop \<equiv> run_all_sets E c loaded_ids (length (c_search_sets c)) 0
            (c_search_sets c) (loaded_timestamps, {}, []) st"
    and "before \<equiv> run_all_sets E c loaded_ids (length (c_search_sets c)) 0
            pre (loaded_timestamps, {}, []) st"
  shows "(fst (fst (run_search_set E cfg kws output_dir max_results tweet_enabled ts pids sid w))
      = Some (True, ids) \<longrightarrow>
    snd (fst (run_search_set E cfg kws output_dir max_results tweet_enabled ts pids sid w)) sid
      = Some \<lparr>wm_timestamp = Some (clock w), wm_last_paper_id = None\<rparr>)
   \<and> filter is_save
        (new_oevents st (snd (run_all_sets E cfg pids n i sets (ts, new, results) st))) = []
   \<and> timestamp_file (snd (run_all_sets E cfg pids n i sets (ts, new, results) st))
       = timestamp_file st
   \<and> processed_ids_file (snd (run_all_sets E cfg pids n i sets (ts, new, results) st))
       = processed_ids_file st
   \<and> (c_search_sets c \<noteq> [] \<longrightarrow>
        new_oevents st (orchestrator_main E (Some c) st)
          = new_oevents st (snd pass_loop) @ [SaveProcessedIds, SaveTimestamps]
        \<and> timestamp_file (orchestrator_main E (Some c) st) = Some (fst (fst pass_loop))
        \<and> processed_ids_file (orchestrator_main E (Some c) st)
          = Some (loaded_ids \<union> fst (snd (fst pass_loop))))
   \<and> (c_search_sets c = pre @ s # rest \<and> valid_set s
        \<and> set_id s \<notin> set (map set_id (filter valid_set rest))
        \<and> fst (fst (run_search_set E c (ss_keywords s) (ss_output_dir s) (ss_max_results s)
                 (ss_tweet_enabled s) (fst (fst before)) loaded_ids (set_id s)
                 (files (snd before)))) = Some (True, ids') \<longrightarrow>
        (\<exists>m. timestamp_file (orchestrator_main E (Some c) st) = Some m
           \<and> m (set_id s) = Some \<lparr>wm_timestamp = Some (clock (files (snd before))),
                                  wm_last_paper_id = None\<rparr>))"
proof -
  note L = run_all_sets_new_oevents [of st E cfg pids n i sets ts new results]
  have a: "fst (fst (run_search_set E cfg kws output_dir max_results tweet_enabled ts pids sid w))
      = Some (True, ids) \<longrightarrow>
    snd (fst (run_search_set E cfg kws output_dir max_results tweet_enabled ts pids sid w)) sid
      = Some \<lparr>wm_timestamp = Some (clock w), wm_last_paper_id = None\<rparr>"
    using run_search_set_watermark by blast
  have b: "c_search_sets c \<noteq> [] \<longrightarrow>
        new_oevents st (orchestrator_main E (Some c) st)
          = new_oevents st (snd pass_loop) @ [SaveProcessedIds, SaveTimestamps]
        \<and> timestamp_file (orchestrator_main E (Some c) st) = Some (fst (fst pass_loop))
        \<and> processed_ids_file (orchestrator_main E (Some c) st)
          = Some (loaded_ids \<union> fst (snd (fst pass_loop)))"
  proof
    assume ne: "c_search_sets c \<noteq> []"
    show "new_oevents st (orchestrator_main E (Some c) st)
          = new_oevents st (snd pass_loop) @ [SaveProcessedIds, SaveTimestamps]
        \<and> timestamp_file (orchestrator_main E (Some c) st) = Some (fst (fst pass_loop))
        \<and> processed_ids_file (orchestrator_main E (Some c) st)
          = Some (loaded_ids \<union> fst (snd (fst pass_loop)))"
      using orchestrator_main_new_oevents [OF ne, of st E]
      by (simp add: orchestrator_main_eq [OF ne] pass_loop_def loaded_ids_def
          loaded_timestamps_def del: run_all_sets.simps)
  qed
  have d: "c_search_sets c = pre @ s # rest \<and> valid_set s
        \<and> set_id s \<notin> set (map set_id (filter valid_set rest))
        \<and> fst (fst (run_search_set E c (ss_keywords s) (ss_output_dir s) (ss_max_results s)
                 (ss_tweet_enabled s) (fst (fst before)) loaded_ids (set_id s)
                 (files (snd before)))) = Some (True, ids') \<longrightarrow>
        (\<exists>m. timestamp_file (orchestrator_main E (Some c) st) = Some m
           \<and> m (set_id s) = Some \<lparr>wm_timestamp = Some (clock (files (snd before))),
                                  wm_last_paper_id = None\<rparr>)"
  proof
    assume h: "c_search_sets c = pre @ s # rest \<and> valid_set s
        \<and> set_id s \<notin> set (map set_id (filter valid_set rest))
        \<and> fst (fst (run_search_set E c (ss_keywords s) (ss_output_dir s) (ss_max_results s)
                 (ss_tweet_enabled s) (fst (fst before)) loaded_ids (set_id s)
                 (files (snd before)))) = Some (True, ids')"
    then have sets: "c_search_sets c = pre @ s # rest" and v: "valid_set s"
      and dist: "set_id s \<notin> set (map set_id (filter valid_set rest))"
      and ok: "fst (fst (run_search_set E c (ss_keywords s) (ss_output_dir s) (ss_max_results s)
                 (ss_tweet_enabled s) (fst (fst before)) loaded_ids (set_id s)
                 (files (snd before)))) = Some (True, ids')"
      by blast+
    from sets have ne: "c_search_sets c \<noteq> []" by simp
    let ?n = "length (c_search_sets c)"
    note B = run_all_sets_runs_in_turn [of E c loaded_ids ?n 0 pre loaded_timestamps "{}" "[]" st]
    note P = run_all_sets_runs_in_turn [of E c loaded_ids ?n 0 "c_search_sets c"
        loaded_timestamps "{}" "[]" st]
    from B have b1: "fst (fst before)
          = fst (snd (runs_in_turn E c loaded_ids ?n 0 pre loaded_timestamps (files st)))"
      and b2: "files (snd before)
          = snd (snd (runs_in_turn E c loaded_ids ?n 0 pre loaded_timestamps (files st)))"
      by (simp_all add: before_def)
    from ok have ok': "fst (fst (run_search_set E c (ss_keywords s) (ss_output_dir s)
          (ss_max_results s) (ss_tweet_enabled s)
          (fst (snd (runs_in_turn E c loaded_ids ?n 0 pre loaded_timestamps (files st))))
          loaded_ids (set_id s)
          (snd (snd (runs_in_turn E c loaded_ids ?n 0 pre loaded_timestamps (files st))))))
        = Some (True, ids')"
      unfolding b1 b2 .
    from runs_in_turn_watermark [OF v dist ok']
    have "fst (snd (runs_in_turn E c loaded_ids ?n 0 (pre @ s # rest) loaded_timestamps
            (files st))) (set_id s)
        = Some \<lparr>wm_timestamp = Some (clock (files (snd before))), wm_last_paper_id = None\<rparr>"
      unfolding b2 .
    with P have "fst (fst pass_loop) (set_id s)
        = Some \<lparr>wm_timestamp = Some (clock (files (snd before))), wm_last_paper_id = None\<rparr>"
      unfolding pass_loop_def sets by simp
    moreover from b ne
    have "timestamp_file (orchestrator_main E (Some c) st) = Some (fst (fst pass_loop))"
      by blast
    ultimately show "\<exists>m. timestamp_file (orchestrator_main E (Some c) st) = Some m
           \<and> m (set_id s) = Some \<lparr>wm_timestamp = Some (clock (files (snd before))),
                                  wm_last_paper_id = None\<rparr>"
      by blast
  qed
  from L a b d show ?thesis by (simp only: simp_thms)
qed

section \<open>The orchestrator on the concrete inputs\<close>

text \<open>Evaluating the pipeline on the concrete inputs.\<close>

lemma first_success_no_summary [simp]:
  "first_success (chat_completion no_summary_env body) = None"
  by (simp add: first_success_def no_summary_env_def good_env_def)

lemma api_events_no_summary [simp]:
  "api_events (chat_completion no_summary_env body) 2
     = [ApiCall 1, ApiWarning False 2 1, Sleep 2, ApiCall 2, ApiWarning True 4 2, Sleep 4, ApiCall 3]"
  by (simp add: api_events_def no_summary_env_def good_env_def)

lemma no_summary_env_simps [simp]:
  "http_ok no_summary_env p = True"
  "pdf_text no_summary_env f = Some (ascii ''body'')"
  "sibling_pdf no_summary_env f = NoSibling"
  "arxiv_results no_summary_env k u s m = Some [paper1]"
  "web_generator_returncode no_summary_env l out = 0"
  by (simp_all add: no_summary_env_def good_env_def)

lemma process_failed_summary:
  "pdf_filename paper1 \<in> dl_files w (d_dl dirs) \<Longrightarrow> processed_files w (ascii ''2401.1v1'') = None \<Longrightarrow>
   process_paper no_summary_env paper1 dirs False st w
     = (False, w\<lparr>text_files := (text_files w)(ascii ''2401.1v1'' @ ascii ''.txt'' \<mapsto> ascii ''body''),
          clock := clock w + 6,
          trace := trace w @ [ProcessedCheck (ascii ''2401.1v1''), ExtractText (ascii ''2401.1v1.pdf''),
             ApiCall 1, ApiWarning False 2 1, Sleep 2, ApiCall 2, ApiWarning True 4 2, Sleep 4,
             ApiCall 3]\<rparr>)"
  by (simp add: process_paper_def stage_eqs download_events_def is_processed_def Let_def
      fun_upd_idem insert_absorb)


lemma ascii_eq_iff [simp]: "ascii a = ascii b \<longleftrightarrow> a = b"
  by (simp add: ascii_def inj_map_eq_map [OF inj_of_char])

lemma ascii_append [simp]: "ascii a @ ascii b = ascii (a @ b)"
  by (simp add: ascii_def)

lemma ascii_append_left [simp]: "ascii a @ ascii b @ c = ascii (a @ b) @ c"
  by (simp add: ascii_def)

lemma ascii_Nil [simp]: "ascii a = [] \<longleftrightarrow> a = []" "[] = ascii a \<longleftrightarrow> a = []"
  by (auto simp: ascii_def)

lemma setup_first:
  "setup_pdf_directory [ascii ''q''] empty_world
     = (Some (ascii ''./pdf/q''),
        empty_world\<lparr>fs := [ascii ''./pdf/q'' \<mapsto> Directory,
                            ascii ''./dl'' \<mapsto> Symlink (ascii ''./pdf/q'')]\<rparr>)"
  by (simp add: setup_pdf_directory_def generate_pdf_dir_name_def makedirs_def path_exists_def
      follow_numeral Let_def empty_world_def)


lemmas eval_defs = main_def setup_directories_def search_arxiv_def is_processed_def
  copy_pdf_if_exists_def download_pdf_eq download_events_def Let_def empty_world_def
  sleep_def run_search_set_def safe_keyword_def truthy_def olog_def
  orchestrator_main_def config1_def set_q_def empty_ostate_def


lemma pass1:
  "orchestrator_main no_summary_env (Some config1) empty_ostate =
    \<lparr>files =
       \<lparr>fs = [ascii ''./pdf/q'' \<mapsto> Directory,
              ascii ''./dl'' \<mapsto> Symlink (ascii ''./pdf/q'')],
          id_files = Map.empty,
          dl_files = (\<lambda>d. {})(ascii ''./pdf/q'' := {ascii ''2401.1v1.pdf''}),
          text_files = [ascii ''2401.1v1'' @ ascii ''.txt'' \<mapsto> ascii ''body''],
          summary_files = Map.empty, processed_files = Map.empty,
          log_files = (\<lambda>d. Map.empty), clock = 18,
          trace =
            [Sleep 5, HttpGet (ascii ''2401.1v1.pdf''), Sleep 2,
             ProcessedCheck (ascii ''2401.1v1''),
             ExtractText (ascii ''2401.1v1.pdf''), ApiCall 1,
             ApiWarning False 2 1, Sleep 2, ApiCall 2,
             ApiWarning True 4 2, Sleep 4, ApiCall 3, Sleep 5]\<rparr>,
       timestamp_file =
         Some [ascii ''q'' \<mapsto> \<lparr>wm_timestamp = Some 0, wm_last_paper_id = None\<rparr>],
       processed_ids_file = Some {ascii ''2401.1v1''},
       otrace = [StartSet (ascii ''q''), SaveProcessedIds, SaveTimestamps]\<rparr>"
  by (simp add: eval_defs setup_first [unfolded empty_world_def] process_failed_summary)

lemma good_env_simps [simp]:
  "http_ok good_env p = True"
  "pdf_text good_env f = Some (ascii ''body'')"
  "sibling_pdf good_env f = NoSibling"
  "arxiv_results good_env k u s m = Some [paper1]"
  "web_generator_returncode good_env l out = 0"
  by (simp_all add: good_env_def)


lemmas fs_defs = setup_pdf_directory_def generate_pdf_dir_name_def makedirs_def
  path_exists_def path_isdir_def path_islink_def follow_numeral

lemma pass2:
  "orchestrator_main good_env (Some config1)
     (orchestrator_main no_summary_env (Some config1) empty_ostate) =
    (orchestrator_main no_summary_env (Some config1) empty_ostate)
      \<lparr>timestamp_file :=
         Some [ascii ''q'' \<mapsto> \<lparr>wm_timestamp = Some 18, wm_last_paper_id = None\<rparr>],
       otrace := [StartSet (ascii ''q''), SaveProcessedIds, SaveTimestamps,
          StartSet (ascii ''q''), SaveProcessedIds, SaveTimestamps]\<rparr>"
  unfolding pass1
  by (simp add: eval_defs fs_defs)

lemma first_success_good [simp]:
  "first_success (chat_completion good_env body) = Some (Some (ascii ''new''))"
  "first_success (chat_completion flaky_env body) = Some (Some (ascii ''new''))"
  by (simp_all add: first_success_def good_env_def flaky_env_def)

lemma api_events_good [simp]:
  "api_events (chat_completion good_env body) 2 = [ApiCall 1]"
  "api_events (chat_completion flaky_env body) 2 = [ApiCall 1]"
  by (simp_all add: api_events_def good_env_def flaky_env_def)

lemma flaky_env_simps [simp]:
  "http_ok flaky_env p = True"
  "pdf_text flaky_env f = Some (ascii ''body'')"
  "sibling_pdf flaky_env f = NoSibling"
  "arxiv_results flaky_env k u s m = (if k = [ascii ''bad''] then None else Some [paper1])"
  "web_generator_returncode flaky_env l out = 0"
  "create_tweet flaky_env t = Inr 7"
  "create_tweet good_env t = Inr 7"
  by (simp_all add: good_env_def flaky_env_def)

lemma paper1_title [simp]: "p_title paper1 = ascii ''A''"
  by (simp add: paper1_def)

lemma process_published:
  "pdf_filename paper1 \<in> dl_files w (d_dl dirs) \<Longrightarrow> processed_files w (ascii ''2401.1v1'') = None \<Longrightarrow>
   process_paper flaky_env paper1 dirs False False w =
     (True,
      w\<lparr>text_files := (text_files w)(ascii ''2401.1v1.txt'' \<mapsto> ascii ''body''),
        summary_files := (summary_files w)
          (ascii ''2401.1v1_summary.json'' \<mapsto>
             \<lparr>s_title = ascii ''A'', s_timestamp = clock w, s_summary = strip (ascii ''new''),
              s_post_text = generate_summary_post_text (strip (ascii ''new'')),
              s_arxiv_id = Some (ascii ''2401.1v1'')\<rparr>),
        trace := trace w @
          [ProcessedCheck (ascii ''2401.1v1''), ExtractText (ascii ''2401.1v1.pdf''), ApiCall 1,
           CreateTweet (post_thread_text (generate_summary_post_text (strip (ascii ''new'')))
              (Some (ascii ''2401.1v1'')))],
        log_files := (log_files w)
          (d_logs dirs := (log_files w (d_logs dirs))
             (ascii ''2401.1v1_twitter_log.json'' \<mapsto>
                \<lparr>l_title = ascii ''A'', l_timestamp = clock w, l_summary = strip (ascii ''new''),
                 l_post_text = None, l_arxiv_id = Some (ascii ''2401.1v1''), l_error = None,
                 l_tweets = [\<lparr>t_id = 7,
                    t_text = post_thread_text (generate_summary_post_text (strip (ascii ''new'')))
                       (Some (ascii ''2401.1v1''))\<rparr>]\<rparr>)),
        processed_files := (processed_files w)
          (ascii ''2401.1v1'' \<mapsto>
             \<lparr>m_arxiv_id = ascii ''2401.1v1'', m_title = ascii ''A'',
              m_processed_at = clock w\<rparr>)\<rparr>)"
  by (simp add: process_paper_def stage_eqs download_events_def is_processed_def Let_def
      fun_upd_idem insert_absorb summary_of_def summary_path_def twitter_log_path_def
      truthy_def)

lemma flaky_pass:
  "otrace (orchestrator_main flaky_env (Some config2) empty_ostate)
     = [StartSet (ascii ''bad''), SetFailedWarning 1, StartSet (ascii ''q''),
        SaveProcessedIds, SaveTimestamps]"
  "timestamp_file (orchestrator_main flaky_env (Some config2) empty_ostate)
     = Some [ascii ''q'' \<mapsto> \<lparr>wm_timestamp = Some 10, wm_last_paper_id = None\<rparr>]"
  "clock (files (orchestrator_main flaky_env (Some config2) empty_ostate)) = 22"
  by (simp_all add: eval_defs fs_defs config2_def set_bad_def process_published)

lemma dangling_pass:
  "otrace (orchestrator_main good_env (Some config2) dangling_ostate)
     = [StartSet (ascii ''bad''), SetRaisedError 1, StartSet (ascii ''q''), SetRaisedError 2,
        SaveProcessedIds, SaveTimestamps]"
  by (simp add: eval_defs fs_defs config2_def set_bad_def dangling_ostate_def
      dangling_world_def)

lemma run_q:
  "fst (run_search_set flaky_env config1 [ascii ''q''] (ascii ''www'') 5 True Map.empty {}
      (ascii ''q'') empty_world)
     = (Some (True, {ascii ''2401.1v1''}),
        [ascii ''q'' \<mapsto> \<lparr>wm_timestamp = Some 0, wm_last_paper_id = None\<rparr>])"
  "clock (snd (run_search_set flaky_env config1 [ascii ''q''] (ascii ''www'') 5 True Map.empty {}
      (ascii ''q'') empty_world)) = 12"
  by (simp_all add: eval_defs fs_defs process_published)

lemma empty_ostate_simps:
  "processed_ids_file empty_ostate = None" "timestamp_file empty_ostate = None"
  "files empty_ostate = empty_world" "otrace empty_ostate = []"
  "processed_ids_file dangling_ostate = None" "timestamp_file dangling_ostate = None"
  "files dangling_ostate = dangling_world" "otrace dangling_ostate = []"
  by (simp_all add: empty_ostate_def dangling_ostate_def)

lemma search_sets_simps:
  "c_search_sets config1 = [set_q]" "c_search_sets config2 = [set_bad, set_q]"
  "c_search_sets config3 = [set_q, set_bad]"
  "valid_set set_q" "valid_set set_bad" "set_id set_q = ascii ''q''"
  "set_id set_bad = ascii ''bad''"
  by (simp_all add: config1_def config2_def config3_def valid_set_def set_id_def set_q_def
      set_bad_def)

lemma safe_keyword_q [simp]:
  "map (\<lambda>c::nat. if (48 \<le> c \<and> c \<le> 57) \<or> (65 \<le> c \<and> c \<le> 90) \<or> (97 \<le> c \<and> c \<le> 122) then c else 95)
     (ascii ''q'') = ascii ''q''"
  by (simp add: ascii_def)

lemma flaky_pass_reversed:
  "timestamp_file (orchestrator_main flaky_env (Some config3) empty_ostate)
     = Some [ascii ''q'' \<mapsto> \<lparr>wm_timestamp = Some 0, wm_last_paper_id = None\<rparr>]"
  "clock (files (orchestrator_main flaky_env (Some config3) empty_ostate)) = 22"
  "otrace (orchestrator_main flaky_env (Some config3) empty_ostate)
     = [StartSet (ascii ''q''), StartSet (ascii ''bad''), SetFailedWarning 2,
        SaveProcessedIds, SaveTimestamps]"
  by (simp_all add: eval_defs fs_defs config3_def set_bad_def process_published)

lemma run_q_reversed:
  "fst (fst (run_search_set flaky_env config3 [ascii ''q''] (ascii ''www'') 5 True Map.empty {}
      (ascii ''q'') empty_world)) = Some (True, {ascii ''2401.1v1''})"
  by (simp add: eval_defs fs_defs process_published)

lemma failing_env_simps [simp]:
  "http_ok failing_env p = False"
  "pdf_text failing_env f = Some (ascii ''body'')"
  "sibling_pdf failing_env f = NoSibling"
  "arxiv_results failing_env k u s m = Some [paper1]"
  "web_generator_returncode failing_env l out = 1"
  by (simp_all add: failing_env_def good_env_def)

lemma failing_pass:
  "trace (files (orchestrator_main failing_env (Some config2) empty_ostate))
     = [Sleep 5, HttpGet (ascii ''2401.1v1.pdf''), Sleep 10, Sleep 5,
        HttpGet (ascii ''2401.1v1.pdf'')]"
  "otrace (orchestrator_main failing_env (Some config2) empty_ostate)
     = [StartSet (ascii ''bad''), SetFailedWarning 1, StartSet (ascii ''q''),
        SetFailedWarning 2, SaveProcessedIds, SaveTimestamps]"
  by (simp_all add: eval_defs fs_defs config2_def set_bad_def)

text \<open>
  The theorem at two keyword sets: with a first set whose search fails (an error return);
  over a working directory in which both runs raise; and with collaborators that make both
  runs fail after a fetch attempt, where the world after the pass shows one fetch attempt
  for each of the two sets, the wait between them, and nothing else.
\<close>

theorem keyword_set_failure_is_isolated_witness:
  "started (new_oevents empty_ostate (orchestrator_main flaky_env (Some config2) empty_ostate))
     = [ascii ''bad'', ascii ''q'']
   \<and> filter is_failure_log
        (new_oevents empty_ostate (orchestrator_main flaky_env (Some config2) empty_ostate))
     = [SetFailedWarning 1]
   \<and> started (new_oevents dangling_ostate (orchestrator_main good_env (Some config2) dangling_ostate))
     = [ascii ''bad'', ascii ''q'']
   \<and> filter is_failure_log
        (new_oevents dangling_ostate (orchestrator_main good_env (Some config2) dangling_ostate))
     = [SetRaisedError 1, SetRaisedError 2]
   \<and> started (new_oevents empty_ostate (orchestrator_main failing_env (Some config2) empty_ostate))
     = [ascii ''bad'', ascii ''q'']
   \<and> concat (map failure_log
        (fst (runs_in_turn failing_env config2 {} 2 0 [set_bad, set_q] Map.empty empty_world)))
     = [SetFailedWarning 1, SetFailedWarning 2]
   \<and> trace (snd (snd
        (runs_in_turn failing_env config2 {} 2 0 [set_bad, set_q] Map.empty empty_world)))
     = [Sleep 5, HttpGet (ascii ''2401.1v1.pdf''), Sleep 10, Sleep 5,
        HttpGet (ascii ''2401.1v1.pdf'')]
   \<and> trace (files (orchestrator_main failing_env (Some config2) empty_ostate))
     = [Sleep 5, HttpGet (ascii ''2401.1v1.pdf''), Sleep 10, Sleep 5,
        HttpGet (ascii ''2401.1v1.pdf'')]"
proof -
  note A = keyword_set_failure_is_isolated [where c = config2 and st = empty_ostate
      and E = flaky_env]
  note B = keyword_set_failure_is_isolated [where c = config2 and st = dangling_ostate
      and E = good_env]
  note C = keyword_set_failure_is_isolated [where c = config2 and st = empty_ostate
      and E = failing_env]
  note s7 = conjunct2 [THEN conjunct2, THEN conjunct2, THEN conjunct2, THEN conjunct2,
      THEN conjunct2, THEN conjunct1]
  note s8 = conjunct2 [THEN conjunct2, THEN conjunct2, THEN conjunct2, THEN conjunct2,
      THEN conjunct2, THEN conjunct2, THEN conjunct1]
  note s9 = conjunct2 [THEN conjunct2, THEN conjunct2, THEN conjunct2, THEN conjunct2,
      THEN conjunct2, THEN conjunct2, THEN conjunct2]
  have len2: "length (c_search_sets config2) = 2"
    by (simp add: search_sets_simps)
  have a1: "started (new_oevents empty_ostate
        (orchestrator_main flaky_env (Some config2) empty_ostate)) = [ascii ''bad'', ascii ''q'']"
    using A [THEN s7] by (simp add: search_sets_simps)
  have b1: "started (new_oevents dangling_ostate
        (orchestrator_main good_env (Some config2) dangling_ostate)) = [ascii ''bad'', ascii ''q'']"
    using B [THEN s7] by (simp add: search_sets_simps)
  have c1: "started (new_oevents empty_ostate
        (orchestrator_main failing_env (Some config2) empty_ostate)) = [ascii ''bad'', ascii ''q'']"
    using C [THEN s7] by (simp add: search_sets_simps)
  have a2: "filter is_failure_log (new_oevents empty_ostate
        (orchestrator_main flaky_env (Some config2) empty_ostate)) = [SetFailedWarning 1]"
    by (simp add: new_oevents_def flaky_pass empty_ostate_simps)
  have b2: "filter is_failure_log (new_oevents dangling_ostate
        (orchestrator_main good_env (Some config2) dangling_ostate))
      = [SetRaisedError 1, SetRaisedError 2]"
    by (simp add: new_oevents_def dangling_pass empty_ostate_simps)
  have "filter is_failure_log (new_oevents empty_ostate
        (orchestrator_main failing_env (Some config2) empty_ostate))
      = [SetFailedWarning 1, SetFailedWarning 2]"
    by (simp add: new_oevents_def failing_pass empty_ostate_simps)
  with C [THEN s8, unfolded len2, unfolded search_sets_simps empty_ostate_simps option.case]
  have c2: "concat (map failure_log
        (fst (runs_in_turn failing_env config2 {} 2 0 [set_bad, set_q] Map.empty empty_world)))
     = [SetFailedWarning 1, SetFailedWarning 2]"
    by (simp del: runs_in_turn.simps)
  from C [THEN s9, unfolded len2, unfolded search_sets_simps empty_ostate_simps option.case]
  have c3: "trace (snd (snd
        (runs_in_turn failing_env config2 {} 2 0 [set_bad, set_q] Map.empty empty_world)))
     = trace (files (orchestrator_main failing_env (Some config2) empty_ostate))"
    by (simp del: runs_in_turn.simps)
  from a1 a2 b1 b2 c1 c2 c3 show ?thesis
    by (simp only: failing_pass simp_thms)
qed

text \<open>
  The theorem at a run that begins at clock 0 and ends at clock 12; at a pass whose second
  keyword set begins at clock 10 and ends at clock 22; and at a pass whose first keyword set
  succeeds, beginning at clock 0 and ending at clock 12, and whose second set fails: the
  watermark file after the pass, at clock 22, holds 0 for the first set.
\<close>

theorem watermark_is_run_start_and_saved_once_witness:
  "snd (fst (run_search_set flaky_env config1 [ascii ''q''] (ascii ''www'') 5 True Map.empty {}
      (ascii ''q'') empty_world)) (ascii ''q'')
     = Some \<lparr>wm_timestamp = Some 0, wm_last_paper_id = None\<rparr>
   \<and> clock (snd (run_search_set flaky_env config1 [ascii ''q''] (ascii ''www'') 5 True Map.empty {}
      (ascii ''q'') empty_world)) = 12
   \<and> filter is_save
        (new_oevents empty_ostate (orchestrator_main flaky_env (Some config2) empty_ostate))
     = [SaveProcessedIds, SaveTimestamps]
   \<and> timestamp_file (orchestrator_main flaky_env (Some config2) empty_ostate)
     = Some [ascii ''q'' \<mapsto> \<lparr>wm_timestamp = Some 10, wm_last_paper_id = None\<rparr>]
   \<and> clock (files (orchestrator_main flaky_env (Some config2) empty_ostate)) = 22
   \<and> map_option (\<lambda>m. m (ascii ''q''))
        (timestamp_file (orchestrator_main flaky_env (Some config3) empty_ostate))
     = Some (Some \<lparr>wm_timestamp = Some 0, wm_last_paper_id = None\<rparr>)
   \<and> clock (files (orchestrator_main flaky_env (Some config3) empty_ostate)) = 22
   \<and> filter is_save
        (new_oevents empty_ostate (orchestrator_main flaky_env (Some config3) empty_ostate))
     = [SaveProcessedIds, SaveTimestamps]"
proof -
  note T = watermark_is_run_start_and_saved_once [where E = flaky_env and cfg = config1
      and kws = "[ascii ''q'']" and output_dir = "ascii ''www''" and max_results = 5
      and tweet_enabled = True and ts = Map.empty and pids = "{}" and sid = "ascii ''q''"
      and w = empty_world and ids = "{ascii ''2401.1v1''}"
      and c = config3 and st = empty_ostate and pre = "[]" and s = set_q and rest = "[set_bad]"
      and ids' = "{ascii ''2401.1v1''}"]
  have h: "fst (fst (run_search_set flaky_env config1 [ascii ''q''] (ascii ''www'') 5 True
      Map.empty {} (ascii ''q'') empty_world)) = Some (True, {ascii ''2401.1v1''})"
    by (simp add: run_q)
  from T [THEN conjunct1] h
  have a: "snd (fst (run_search_set flaky_env config1 [ascii ''q''] (ascii ''www'') 5 True
      Map.empty {} (ascii ''q'') empty_world)) (ascii ''q'')
     = Some \<lparr>wm_timestamp = Some (clock empty_world), wm_last_paper_id = None\<rparr>"
    by (rule mp)
  have q: "ss_keywords set_q = [ascii ''q'']" "ss_output_dir set_q = ascii ''www''"
    "ss_max_results set_q = 5" "ss_tweet_enabled set_q = True"
    by (simp_all add: set_q_def)
  have g: "c_search_sets config3 = [] @ set_q # [set_bad] \<and> valid_set set_q
      \<and> set_id set_q \<notin> set (map set_id (filter valid_set [set_bad]))
      \<and> fst (fst (run_search_set flaky_env config3 (ss_keywords set_q) (ss_output_dir set_q)
            (ss_max_results set_q) (ss_tweet_enabled set_q)
            (fst (fst (run_all_sets flaky_env config3
               (case processed_ids_file empty_ostate of None \<Rightarrow> {} | Some ids \<Rightarrow> ids)
               (length (c_search_sets config3)) 0 []
               (case timestamp_file empty_ostate of None \<Rightarrow> Map.empty | Some t \<Rightarrow> t, {}, [])
               empty_ostate)))
            (case processed_ids_file empty_ostate of None \<Rightarrow> {} | Some ids \<Rightarrow> ids)
            (set_id set_q)
            (files (snd (run_all_sets flaky_env config3
               (case processed_ids_file empty_ostate of None \<Rightarrow> {} | Some ids \<Rightarrow> ids)
               (length (c_search_sets config3)) 0 []
               (case timestamp_file empty_ostate of None \<Rightarrow> Map.empty | Some t \<Rightarrow> t, {}, [])
               empty_ostate)))))
        = Some (True, {ascii ''2401.1v1''})"
    by (simp add: search_sets_simps empty_ostate_simps q run_q_reversed)
  from T [THEN conjunct2, THEN conjunct2, THEN conjunct2, THEN conjunct2, THEN conjunct2] g
  have "\<exists>m. timestamp_file (orchestrator_main flaky_env (Some config3) empty_ostate) = Some m
      \<and> m (set_id set_q) = Some \<lparr>wm_timestamp = Some (clock (files (snd
           (run_all_sets flaky_env config3
               (case processed_ids_file empty_ostate of None \<Rightarrow> {} | Some ids \<Rightarrow> ids)
               (length (c_search_sets config3)) 0 []
               (case timestamp_file empty_ostate of None \<Rightarrow> Map.empty | Some t \<Rightarrow> t, {}, [])
               empty_ostate)))), wm_last_paper_id = None\<rparr>"
    by (rule mp)
  then have b: "map_option (\<lambda>m. m (ascii ''q''))
        (timestamp_file (orchestrator_main flaky_env (Some config3) empty_ostate))
     = Some (Some \<lparr>wm_timestamp = Some 0, wm_last_paper_id = None\<rparr>)"
    by (auto simp: search_sets_simps empty_ostate_simps empty_world_def)
  from a b show ?thesis
    by (simp add: run_q flaky_pass flaky_pass_reversed new_oevents_def empty_ostate_simps)
qed

text \<open>
  C1, at an input where the code departs from it. In a first orchestrator pass the
  summarization of the only candidate fails on all three attempts. No marker is written, but
  the identifier is in the saved set of processed identifiers. In a second pass the search
  returns the same candidate and every collaborator works; the downloader does nothing for
  it, neither the processed check nor an extraction nor an API call, and the paper stays
  without marker.
\<close>

theorem failed_summary_is_never_retried:
  "processed_files (files (orchestrator_main no_summary_env (Some config1) empty_ostate))
     (ascii ''2401.1v1'') = None
   \<and> filter is_api_call
        (trace (files (orchestrator_main no_summary_env (Some config1) empty_ostate)))
     = [ApiCall 1, ApiCall 2, ApiCall 3]
   \<and> processed_ids_file (orchestrator_main no_summary_env (Some config1) empty_ostate)
     = Some {ascii ''2401.1v1''}
   \<and> new_events (files (orchestrator_main no_summary_env (Some config1) empty_ostate))
        (files (orchestrator_main good_env (Some config1)
           (orchestrator_main no_summary_env (Some config1) empty_ostate))) = []
   \<and> processed_files (files (orchestrator_main good_env (Some config1)
        (orchestrator_main no_summary_env (Some config1) empty_ostate))) (ascii ''2401.1v1'')
     = None
   \<and> arxiv_results good_env [ascii ''q''] False (Some 0) 5 = Some [paper1]"
  unfolding pass2 by (simp add: pass1 new_events_def)

lemma no_publish_env_simps [simp]:
  "http_ok no_publish_env p = True"
  "pdf_text no_publish_env f = Some (ascii ''body'')"
  "sibling_pdf no_publish_env f = NoSibling"
  "arxiv_results no_publish_env k u s m = Some [paper1]"
  "web_generator_returncode no_publish_env l out = 0"
  "create_tweet no_publish_env t = Inl (ascii ''403'')"
  "first_success (chat_completion no_publish_env body) = Some (Some (ascii ''new''))"
  "api_events (chat_completion no_publish_env body) 2 = [ApiCall 1]"
  by (simp_all add: no_publish_env_def good_env_def first_success_def api_events_def)

lemma process_failed_publish:
  "pdf_filename paper1 \<in> dl_files w (d_dl dirs) \<Longrightarrow> processed_files w (ascii ''2401.1v1'') = None \<Longrightarrow>
   process_paper no_publish_env paper1 dirs False False w =
     (False,
      w\<lparr>text_files := (text_files w)(ascii ''2401.1v1.txt'' \<mapsto> ascii ''body''),
        summary_files := (summary_files w)
          (ascii ''2401.1v1_summary.json'' \<mapsto>
             \<lparr>s_title = ascii ''A'', s_timestamp = clock w, s_summary = strip (ascii ''new''),
              s_post_text = generate_summary_post_text (strip (ascii ''new'')),
              s_arxiv_id = Some (ascii ''2401.1v1'')\<rparr>),
        trace := trace w @
          [ProcessedCheck (ascii ''2401.1v1''), ExtractText (ascii ''2401.1v1.pdf''), ApiCall 1,
           CreateTweet (post_thread_text (generate_summary_post_text (strip (ascii ''new'')))
              (Some (ascii ''2401.1v1'')))],
        log_files := (log_files w)
          (d_logs dirs := (log_files w (d_logs dirs))
             (ascii ''2401.1v1_twitter_log.json'' \<mapsto>
                \<lparr>l_title = ascii ''A'', l_timestamp = clock w, l_summary = strip (ascii ''new''),
                 l_post_text = None, l_arxiv_id = Some (ascii ''2401.1v1''),
                 l_error = Some (ascii ''403''), l_tweets = []\<rparr>))\<rparr>)"
  by (simp add: process_paper_def stage_eqs download_events_def is_processed_def Let_def
      fun_upd_idem insert_absorb summary_of_def summary_path_def twitter_log_path_def
      truthy_def)

lemma publish_pass1:
  "orchestrator_main no_publish_env (Some config1) empty_ostate =
    \<lparr>files =
       \<lparr>fs = [ascii ''./pdf/q'' \<mapsto> Directory,
              ascii ''./dl'' \<mapsto> Symlink (ascii ''./pdf/q'')],
          id_files = Map.empty,
          dl_files = (\<lambda>d. {})(ascii ''./pdf/q'' := {ascii ''2401.1v1.pdf''}),
          text_files = [ascii ''2401.1v1.txt'' \<mapsto> ascii ''body''],
          summary_files =
            [ascii ''2401.1v1_summary.json'' \<mapsto>
             \<lparr>s_title = ascii ''A'', s_timestamp = 7, s_summary = strip (ascii ''new''),
              s_post_text = generate_summary_post_text (strip (ascii ''new'')),
              s_arxiv_id = Some (ascii ''2401.1v1'')\<rparr>],
          processed_files = Map.empty,
          log_files = (\<lambda>d. Map.empty)
            (ascii ''./logs/q'' :=
               [ascii ''2401.1v1_twitter_log.json'' \<mapsto>
                \<lparr>l_title = ascii ''A'', l_timestamp = 7, l_summary = strip (ascii ''new''),
                 l_post_text = None, l_arxiv_id = Some (ascii ''2401.1v1''),
                 l_error = Some (ascii ''403''), l_tweets = []\<rparr>]),
          clock = 12,
          trace =
            [Sleep 5, HttpGet (ascii ''2401.1v1.pdf''), Sleep 2,
             ProcessedCheck (ascii ''2401.1v1''),
             ExtractText (ascii ''2401.1v1.pdf''), ApiCall 1,
             CreateTweet (post_thread_text (generate_summary_post_text (strip (ascii ''new'')))
                (Some (ascii ''2401.1v1''))),
             Sleep 5]\<rparr>,
       timestamp_file =
         Some [ascii ''q'' \<mapsto> \<lparr>wm_timestamp = Some 0, wm_last_paper_id = None\<rparr>],
       processed_ids_file = Some {ascii ''2401.1v1''},
       otrace = [StartSet (ascii ''q''), SaveProcessedIds, SaveTimestamps]\<rparr>"
  by (simp add: eval_defs setup_first [unfolded empty_world_def] process_failed_publish)

lemma publish_pass2:
  "orchestrator_main good_env (Some config1)
     (orchestrator_main no_publish_env (Some config1) empty_ostate) =
    (orchestrator_main no_publish_env (Some config1) empty_ostate)
      \<lparr>timestamp_file :=
         Some [ascii ''q'' \<mapsto> \<lparr>wm_timestamp = Some 12, wm_last_paper_id = None\<rparr>],
       otrace := [StartSet (ascii ''q''), SaveProcessedIds, SaveTimestamps,
          StartSet (ascii ''q''), SaveProcessedIds, SaveTimestamps]\<rparr>"
  unfolding publish_pass1
  by (simp add: eval_defs fs_defs)

text \<open>
  C3, at an input where the code departs from it. In a first orchestrator pass the publish
  call for the only candidate is made and refused with the text \<^verbatim>\<open>403\<close>. No marker is
  written, and the log directory of the keyword set holds a record that the renderer reads
  as failed with the error text \<^verbatim>\<open>403\<close>. But the identifier
  is in the saved set of processed identifiers, which is part of the ledger: in a second
  pass the search returns the same candidate and every collaborator works, and the
  downloader does nothing for it, so the publish call is never tried again.
\<close>

theorem publish_failure_is_never_retried:
  "filter is_create_tweet
        (trace (files (orchestrator_main no_publish_env (Some config1) empty_ostate)))
     = [CreateTweet (post_thread_text (generate_summary_post_text (strip (ascii ''new'')))
          (Some (ascii ''2401.1v1'')))]
   \<and> create_tweet no_publish_env
        (post_thread_text (generate_summary_post_text (strip (ascii ''new'')))
          (Some (ascii ''2401.1v1''))) = Inl (ascii ''403'')
   \<and> processed_files (files (orchestrator_main no_publish_env (Some config1) empty_ostate))
        (ascii ''2401.1v1'') = None
   \<and> map_option (\<lambda>info. (pi_failed info, pi_error info))
        (renderer_entry (files (orchestrator_main no_publish_env (Some config1) empty_ostate))
           (ascii ''./logs/q'') (ascii ''2401.1v1_twitter_log.json''))
     = Some (True, Some (ascii ''403''))
   \<and> processed_ids_file (orchestrator_main no_publish_env (Some config1) empty_ostate)
     = Some {ascii ''2401.1v1''}
   \<and> new_events (files (orchestrator_main no_publish_env (Some config1) empty_ostate))
        (files (orchestrator_main good_env (Some config1)
           (orchestrator_main no_publish_env (Some config1) empty_ostate))) = []
   \<and> processed_files (files (orchestrator_main good_env (Some config1)
        (orchestrator_main no_publish_env (Some config1) empty_ostate))) (ascii ''2401.1v1'')
     = None
   \<and> arxiv_results good_env [ascii ''q''] False (Some 0) 5 = Some [paper1]"
proof -
  have e: "endswith (ascii ''2401.1v1_twitter_log.json'') (ascii ''_twitter_log.json'')"
    by (simp add: endswith_def ascii_def)
  show ?thesis
    unfolding publish_pass2
    by (simp add: publish_pass1 new_events_def renderer_entry_def process_log_data_def e)
qed

end
